(* ===== verification/Prelude.thy ===== *)
theory Prelude
  imports Main "HOL-Library.State_Monad" "HOL-Library.List_Lexorder" "HOL-Library.Char_ord"
begin

text \<open>
  The shared layer of the development: collections of rewrite rules, the reading of Go's
  control flow as functions (errors as options and sums, loops with an early return), a
  weakest-precondition reading of the state monad, 32-bit integers, and the interface of the
  "keep the first occurrence" loops that several components of the operator use.
\<close>

named_theorems wp_simps \<open>weakest preconditions of the monadic operations\<close>
named_theorems emits_rules \<open>which effects an operation may have\<close>
named_theorems string_simps \<open>evaluation of the string library on literals\<close>

subsection \<open>Errors\<close>

text \<open>
  Go's \<^verbatim>\<open>error\<close> is only ever inspected through its message in this program, so an error is
  its message. An operation that returns only an error returns \<open>error option\<close>
  (\<open>None\<close> is \<^verbatim>\<open>nil\<close>); one that returns a value or an error returns a sum.
\<close>

type_synonym error = string
type_synonym 'a res = "error + 'a"

subsection \<open>32-bit integers\<close>

text \<open>Go's \<^verbatim>\<open>int32\<close> as an \<open>int\<close> with the wrap-around written out at every operation.\<close>

definition i32 :: "int \<Rightarrow> int" where
  "i32 x = (x + 2 ^ 31) mod 2 ^ 32 - 2 ^ 31"

definition is_i32 :: "int \<Rightarrow> bool" where
  "is_i32 x \<longleftrightarrow> - (2 ^ 31) \<le> x \<and> x < 2 ^ 31"

definition max_i32 :: int where
  "max_i32 = 2 ^ 31 - 1"

lemma is_i32_i32 [simp]: "is_i32 (i32 x)"
  by (simp add: is_i32_def i32_def)

lemma i32_id: "is_i32 x \<Longrightarrow> i32 x = x"
  by (simp add: is_i32_def i32_def mod_pos_pos_trivial)

lemma i32_idem [simp]: "i32 (i32 x) = i32 x"
  by (rule i32_id) simp

subsection \<open>The state monad: weakest preconditions\<close>

type_synonym ('s, 'a) prog = "('s, 'a) state"

abbreviation return :: "'a \<Rightarrow> ('s, 'a) prog" where
  "return \<equiv> State_Monad.return"

definition wp :: "('s, 'a) prog \<Rightarrow> ('a \<Rightarrow> 's \<Rightarrow> bool) \<Rightarrow> 's \<Rightarrow> bool" where
  "wp m Q s = (case run_state m s of (a, s') \<Rightarrow> Q a s')"

lemma wp_return [simp, wp_simps]: "wp (return a) Q = Q a"
  by (rule ext) (simp add: wp_def)

lemma wp_bind [simp, wp_simps]: "wp (State_Monad.bind m f) Q = wp m (\<lambda>a. wp (f a) Q)"
  by (rule ext) (simp add: wp_def split: prod.split)

lemma wp_mono: "wp m Q s \<Longrightarrow> (\<And>a t. Q a t \<Longrightarrow> R a t) \<Longrightarrow> wp m R s"
  by (auto simp: wp_def split: prod.splits)

lemma wp_conj: "wp m (\<lambda>a t. Q a t \<and> R a t) s \<longleftrightarrow> wp m Q s \<and> wp m R s"
  by (auto simp: wp_def split: prod.splits)

lemma wp_run: "run_state m s = (a, t) \<Longrightarrow> wp m Q s \<Longrightarrow> Q a t"
  by (simp add: wp_def)

lemma wpI: "(\<And>a t. run_state m s = (a, t) \<Longrightarrow> Q a t) \<Longrightarrow> wp m Q s"
  by (simp add: wp_def split: prod.splits)

subsection \<open>Loops with an early return\<close>

text \<open>
  \<^verbatim>\<open>for _, x := range xs { ... }\<close> whose body may return from the enclosing function: the body
  takes the element and the loop's variables and yields \<open>Inl\<close> of the value returned, or
  \<open>Inr\<close> of the variables after the iteration.
\<close>

primrec for_each :: "('a \<Rightarrow> 'v \<Rightarrow> ('s, 'r + 'v) prog) \<Rightarrow> 'a list \<Rightarrow> 'v \<Rightarrow> ('s, 'r + 'v) prog" where
  "for_each body [] v = return (Inr v)"
| "for_each body (x # xs) v = do {
     r \<leftarrow> body x v;
     (case r of Inl e \<Rightarrow> return (Inl e) | Inr v' \<Rightarrow> for_each body xs v')
   }"

lemma wp_case_sum [wp_simps]:
  "wp (case r of Inl e \<Rightarrow> f e | Inr v \<Rightarrow> g v) Q s =
   (case r of Inl e \<Rightarrow> wp (f e) Q s | Inr v \<Rightarrow> wp (g v) Q s)"
  by (simp split: sum.split)

lemma wp_case_option [wp_simps]:
  "wp (case r of None \<Rightarrow> f | Some v \<Rightarrow> g v) Q s =
   (case r of None \<Rightarrow> wp f Q s | Some v \<Rightarrow> wp (g v) Q s)"
  by (simp split: option.split)

lemma wp_if [wp_simps]: "wp (if b then m else n) Q s = (if b then wp m Q s else wp n Q s)"
  by simp

lemma wp_case_prod [wp_simps]:
  "wp (case p of (a, b) \<Rightarrow> f a b) Q s = (case p of (a, b) \<Rightarrow> wp (f a b) Q s)"
  by (simp split: prod.split)

text \<open>The invariant rule of the loop.\<close>

lemma wp_for_each:
  assumes "I v s"
    and "\<And>x v s. x \<in> set xs \<Longrightarrow> I v s \<Longrightarrow>
           wp (body x v) (\<lambda>r t. case r of Inl e \<Rightarrow> E e t | Inr v' \<Rightarrow> I v' t) s"
  shows "wp (for_each body xs v) (\<lambda>r t. case r of Inl e \<Rightarrow> E e t | Inr v' \<Rightarrow> I v' t) s"
  using assms
proof (induction xs arbitrary: v s)
  case Nil
  then show ?case by simp
next
  case (Cons x xs)
  from Cons.prems have "wp (body x v) (\<lambda>r t. case r of Inl e \<Rightarrow> E e t | Inr v' \<Rightarrow> I v' t) s"
    by simp
  then have "wp (body x v) (\<lambda>r. wp (case r of Inl e \<Rightarrow> return (Inl e) | Inr v' \<Rightarrow> for_each body xs v')
      (\<lambda>r t. case r of Inl e \<Rightarrow> E e t | Inr v' \<Rightarrow> I v' t)) s"
    by (rule wp_mono) (use Cons.IH Cons.prems(2) in \<open>simp add: wp_case_sum split: sum.split_asm\<close>)
  then show ?case by simp
qed

text \<open>The same rule with the elements already visited as a ghost variable.\<close>

lemma wp_for_each_prefix:
  assumes "I [] v s"
    and "\<And>pre x post v s. xs = pre @ x # post \<Longrightarrow> I pre v s \<Longrightarrow>
           wp (body x v) (\<lambda>r t. case r of Inl e \<Rightarrow> E e t | Inr v' \<Rightarrow> I (pre @ [x]) v' t) s"
  shows "wp (for_each body xs v) (\<lambda>r t. case r of Inl e \<Rightarrow> E e t | Inr v' \<Rightarrow> I xs v' t) s"
  using assms
proof (induction xs arbitrary: v s I)
  case Nil
  then show ?case by simp
next
  case (Cons x xs)
  have "wp (for_each body xs v') (\<lambda>r t. case r of Inl e \<Rightarrow> E e t | Inr v' \<Rightarrow> I (x # xs) v' t) t"
    if "I [x] v' t" for v' t
    by (rule Cons.IH[where I = "\<lambda>pre. I (x # pre)"], rule that)
      (use Cons.prems(2) in \<open>metis append_Cons\<close>)
  moreover have "wp (body x v) (\<lambda>r t. case r of Inl e \<Rightarrow> E e t | Inr v' \<Rightarrow> I [x] v' t) s"
    using Cons.prems(2)[of "[]" x xs v s] Cons.prems(1) by (simp only: append_Nil simp_thms)
  ultimately have "wp (body x v) (\<lambda>r. wp (case r of Inl e \<Rightarrow> return (Inl e) | Inr v' \<Rightarrow> for_each body xs v')
      (\<lambda>r t. case r of Inl e \<Rightarrow> E e t | Inr v' \<Rightarrow> I (x # xs) v' t)) s"
    by (elim wp_mono) (simp add: wp_case_sum split: sum.split_asm)
  then show ?case by simp
qed

text \<open>Consequence forms of the two loop rules, for an arbitrary postcondition.\<close>

lemma wp_for_each_post:
  assumes "I v s"
    and "\<And>x v s. x \<in> set xs \<Longrightarrow> I v s \<Longrightarrow>
           wp (body x v) (\<lambda>r t. case r of Inl e \<Rightarrow> Q (Inl e) t | Inr v' \<Rightarrow> I v' t) s"
    and "\<And>v t. I v t \<Longrightarrow> Q (Inr v) t"
  shows "wp (for_each body xs v) Q s"
  by (rule wp_mono[OF wp_for_each[where I = I and E = "\<lambda>e. Q (Inl e)"]])
    (use assms in \<open>auto split: sum.split_asm\<close>)

lemma wp_for_each_prefix_post:
  assumes "I [] v s"
    and "\<And>pre x post v s. xs = pre @ x # post \<Longrightarrow> I pre v s \<Longrightarrow>
           wp (body x v) (\<lambda>r t. case r of Inl e \<Rightarrow> Q (Inl e) t | Inr v' \<Rightarrow> I (pre @ [x]) v' t) s"
    and "\<And>v t. I xs v t \<Longrightarrow> Q (Inr v) t"
  shows "wp (for_each body xs v) Q s"
  by (rule wp_mono[OF wp_for_each_prefix[where I = I and E = "\<lambda>e. Q (Inl e)"]])
    (use assms in \<open>auto split: sum.split_asm\<close>)

subsection \<open>Keeping the first occurrence\<close>

text \<open>
  The interface of the loops that walk a list with a \<^verbatim>\<open>seen\<close> map and keep an element only when
  its key has not been seen: the permission tokens of a grant, the certificates of a trust
  bundle and the targets of a user's grants are all collected this way.
\<close>

locale first_seen =
  fixes key :: "'a \<Rightarrow> 'k"
    and loop :: "('k \<Rightarrow> bool) \<Rightarrow> 'a list \<Rightarrow> 'a list"
  assumes loop_Nil: "loop seen [] = []"
    and loop_skip: "seen (key x) \<Longrightarrow> loop seen (x # xs) = loop seen xs"
    and loop_take: "\<not> seen (key x) \<Longrightarrow> loop seen (x # xs) = x # loop (seen(key x := True)) xs"
begin

lemma loop_Cons:
  "loop seen (x # xs) = (if seen (key x) then loop seen xs else x # loop (seen(key x := True)) xs)"
  by (simp add: loop_skip loop_take)

lemma loop_keys: "key ` set (loop seen xs) = {k \<in> key ` set xs. \<not> seen k}"
  by (induction xs arbitrary: seen) (auto simp: loop_Nil loop_Cons)

lemma loop_subset: "set (loop seen xs) \<subseteq> set xs"
proof (induction xs arbitrary: seen)
  case Nil
  show ?case by (simp add: loop_Nil)
next
  case (Cons y xs)
  show ?case
    using Cons.IH[of seen] Cons.IH[of "seen(key y := True)"] by (auto simp only: loop_Cons set_simps split: if_splits)
qed

lemma loop_distinct: "distinct (map key (loop seen xs))"
proof (induction xs arbitrary: seen)
  case Nil
  show ?case by (simp add: loop_Nil)
next
  case (Cons x xs)
  have "key x \<notin> key ` set (loop (seen(key x := True)) xs)"
    by (simp add: loop_keys)
  with Cons.IH show ?case by (simp add: loop_Cons)
qed

lemma loop_length: "length (loop seen xs) = card {k \<in> key ` set xs. \<not> seen k}"
proof -
  have "length (loop seen xs) = card (set (map key (loop seen xs)))"
    using distinct_card[OF loop_distinct, of seen xs] by simp
  then show ?thesis by (simp add: loop_keys)
qed

lemma loop_cong: "(\<And>x. x \<in> set xs \<Longrightarrow> seen (key x) = seen' (key x)) \<Longrightarrow> loop seen xs = loop seen' xs"
proof (induction xs arbitrary: seen seen')
  case Nil
  show ?case by (simp add: loop_Nil)
next
  case (Cons x xs)
  have "loop seen xs = loop seen' xs"
    by (rule Cons.IH) (simp add: Cons.prems)
  moreover have "loop (seen(key x := True)) xs = loop (seen'(key x := True)) xs"
    by (rule Cons.IH) (simp add: Cons.prems)
  ultimately show ?case using Cons.prems[of x] by (simp add: loop_Cons)
qed

lemma loop_append: "loop seen (xs @ ys) = loop seen xs @ loop (\<lambda>k. seen k \<or> k \<in> key ` set xs) ys"
proof (induction xs arbitrary: seen)
  case Nil
  show ?case by (simp add: loop_Nil)
next
  case (Cons x xs)
  have "loop (\<lambda>k. (seen(key x := True)) k \<or> k \<in> key ` set xs) ys
      = loop (\<lambda>k. seen k \<or> k \<in> key ` set (x # xs)) ys"
    by (rule loop_cong) auto
  moreover have "loop (\<lambda>k. seen k \<or> k \<in> key ` set xs) ys
      = loop (\<lambda>k. seen k \<or> k \<in> key ` set (x # xs)) ys" if "seen (key x)"
    by (rule loop_cong) (use that in auto)
  ultimately show ?case
    using Cons.IH[of seen] Cons.IH[of "seen(key x := True)"] by (simp only: append_Cons loop_Cons if_distrib) auto
qed

lemma loop_fixed:
  assumes "distinct (map key xs)" and "\<And>x. x \<in> set xs \<Longrightarrow> \<not> seen (key x)"
  shows "loop seen xs = xs"
  using assms
proof (induction xs arbitrary: seen)
  case Nil
  show ?case by (simp add: loop_Nil)
next
  case (Cons x xs)
  have "loop (seen(key x := True)) xs = xs"
    by (rule Cons.IH) (use Cons.prems in \<open>auto simp: image_iff\<close>)
  with Cons.prems show ?case by (simp add: loop_Cons)
qed

text \<open>Running the loop on its own output changes nothing.\<close>

lemma loop_idem: "loop (\<lambda>_. False) (loop (\<lambda>_. False) xs) = loop (\<lambda>_. False) xs"
  by (rule loop_fixed) (simp_all add: loop_distinct)

end

subsection \<open>Lists and maps\<close>

lemma map_of_map_fst [simp]: "map_of (map (\<lambda>x. (f x, g x)) xs) k = map_option g (find (\<lambda>x. f x = k) xs)"
  by (induction xs) auto

lemma sorted_map_sort_key [simp]: "sorted (map f (sort_key f xs))"
  by simp

end
