(* ===== verification/Go_Strings.thy ===== *)
theory Go_Strings
  imports Prelude
begin

text \<open>
  The part of Go's \<^verbatim>\<open>strings\<close>, \<^verbatim>\<open>strconv\<close> and \<^verbatim>\<open>fmt\<close> packages the operator uses. A Go string is
  a sequence of bytes, as a HOL \<open>string\<close> is: a non-ASCII rune is its UTF-8 bytes. White space
  is Unicode's \<^verbatim>\<open>White_Space\<close>, recognised on its UTF-8 encoding; a space rune starts with a
  lead byte, which never occurs inside another rune, so a scan from the left that looks for
  these sequences finds exactly the runes Go's decoder finds. Case mapping and quoting are
  those of ASCII text, which is what the operator applies them to.
\<close>

subsection \<open>Prefixes, suffixes, substrings\<close>

fun HasPrefix :: "string \<Rightarrow> string \<Rightarrow> bool" where
  "HasPrefix s [] = True"
| "HasPrefix [] (c # p) = False"
| "HasPrefix (d # s) (c # p) = (c = d \<and> HasPrefix s p)"

definition HasSuffix :: "string \<Rightarrow> string \<Rightarrow> bool" where
  "HasSuffix s p = HasPrefix (rev s) (rev p)"

fun Contains :: "string \<Rightarrow> string \<Rightarrow> bool" where
  "Contains [] p = HasPrefix [] p"
| "Contains (c # s) p = (HasPrefix (c # s) p \<or> Contains s p)"

lemma HasPrefix_iff: "HasPrefix s p \<longleftrightarrow> (\<exists>t. s = p @ t)"
  by (induction s p rule: HasPrefix.induct) auto

lemma HasSuffix_iff: "HasSuffix s p \<longleftrightarrow> (\<exists>t. s = t @ p)"
  by (metis HasPrefix_iff HasSuffix_def rev_append rev_rev_ident)

lemma Contains_iff: "Contains s p \<longleftrightarrow> (\<exists>a b. s = a @ p @ b)"
proof (induction s)
  case Nil
  show ?case by (auto simp: HasPrefix_iff)
next
  case (Cons c s)
  show ?case
  proof
    assume "Contains (c # s) p"
    then show "\<exists>a b. c # s = a @ p @ b"
      using Cons.IH by (auto simp: HasPrefix_iff) (metis append_Cons append_Nil)+
  next
    assume "\<exists>a b. c # s = a @ p @ b"
    then obtain a b where "c # s = a @ p @ b" by blast
    then show "Contains (c # s) p"
    proof (cases a)
      case Nil
      with \<open>c # s = a @ p @ b\<close> have "HasPrefix (c # s) p" by (simp only: HasPrefix_iff) auto
      then show ?thesis by simp
    next
      case (Cons x a')
      with \<open>c # s = a @ p @ b\<close> Cons.IH show ?thesis by auto
    qed
  qed
qed

lemma HasPrefix_append [simp]: "HasPrefix (p @ t) p"
  by (auto simp: HasPrefix_iff)

lemma HasSuffix_append [simp]: "HasSuffix (t @ p) p"
  by (auto simp: HasSuffix_iff)

text \<open>\<^verbatim>\<open>strings.LastIndex\<close> for a one-byte separator, as the text before and after it.\<close>

fun cut_last :: "char \<Rightarrow> string \<Rightarrow> (string \<times> string) option" where
  "cut_last c [] = None"
| "cut_last c (x # xs) =
     (case cut_last c xs of
        Some (a, b) \<Rightarrow> Some (x # a, b)
      | None \<Rightarrow> if x = c then Some ([], xs) else None)"

lemma cut_last_None_iff: "cut_last c s = None \<longleftrightarrow> c \<notin> set s"
  by (induction s) (auto split: option.split)

lemma cut_last_Some: "cut_last c s = Some (a, b) \<Longrightarrow> s = a @ c # b \<and> c \<notin> set b"
  by (induction s arbitrary: a b) (auto simp: cut_last_None_iff split: option.splits if_splits)

lemma cut_last_append [simp]: "c \<notin> set b \<Longrightarrow> cut_last c (a @ c # b) = Some (a, b)"
proof (induction a)
  case Nil
  then have "cut_last c b = None" by (simp add: cut_last_None_iff)
  then show ?case by simp
next
  case (Cons x a)
  then show ?case by simp
qed

text \<open>\<^verbatim>\<open>strings.Split\<close> on a one-byte separator, and \<^verbatim>\<open>strings.Join\<close>.\<close>

fun Split :: "string \<Rightarrow> char \<Rightarrow> string list" where
  "Split [] c = [[]]"
| "Split (x # xs) c =
     (if x = c then [] # Split xs c
      else (case Split xs c of [] \<Rightarrow> [[x]] | y # ys \<Rightarrow> (x # y) # ys))"

fun Join :: "string list \<Rightarrow> string \<Rightarrow> string" where
  "Join [] sep = []"
| "Join [x] sep = x"
| "Join (x # y # ys) sep = x @ sep @ Join (y # ys) sep"

lemma Split_not_Nil [simp]: "Split s c \<noteq> []"
  by (cases s) (auto split: list.split)

lemma Join_Split [simp]: "Join (Split s c) [c] = s"
proof (induction s)
  case Nil
  show ?case by simp
next
  case (Cons x s)
  obtain y ys where y: "Split s c = y # ys"
    using Split_not_Nil[of s c] by (cases "Split s c") auto
  with Cons show ?case by (cases ys) auto
qed

lemma Split_no_sep: "c \<notin> set s \<Longrightarrow> Split s c = [s]"
  by (induction s) auto

lemma Split_append: "c \<notin> set a \<Longrightarrow> Split (a @ c # s) c = a # Split s c"
  by (induction a) auto

lemma Split_Join: "xs \<noteq> [] \<Longrightarrow> \<forall>x \<in> set xs. c \<notin> set x \<Longrightarrow> Split (Join xs [c]) c = xs"
  by (induction xs "[c]" rule: Join.induct) (auto simp: Split_no_sep Split_append)

lemma Split_elem_no_sep: "x \<in> set (Split s c) \<Longrightarrow> c \<notin> set x"
  by (induction s arbitrary: x) (auto split: if_splits list.splits)

subsection \<open>White space\<close>

definition ascii_space :: "char \<Rightarrow> bool" where
  "ascii_space c \<longleftrightarrow> c \<in> {CHR 0x09, CHR 0x0A, CHR 0x0B, CHR 0x0C, CHR 0x0D, CHR 0x20}"

text \<open>The length of the space rune at the head of a byte sequence, 0 when there is none.\<close>

fun space_len :: "string \<Rightarrow> nat" where
  "space_len [] = 0"
| "space_len (a # s) =
     (if ascii_space a then 1
      else if a = CHR 0xC2 then
        (case s of b # _ \<Rightarrow> if b = CHR 0x85 \<or> b = CHR 0xA0 then 2 else 0 | _ \<Rightarrow> 0)
      else if a = CHR 0xE1 then
        (case s of b # c # _ \<Rightarrow> if b = CHR 0x9A \<and> c = CHR 0x80 then 3 else 0 | _ \<Rightarrow> 0)
      else if a = CHR 0xE2 then
        (case s of b # c # _ \<Rightarrow>
           if b = CHR 0x80 \<and> (CHR 0x80 \<le> c \<and> c \<le> CHR 0x8A \<or>
                c = CHR 0xA8 \<or> c = CHR 0xA9 \<or> c = CHR 0xAF) \<or>
              b = CHR 0x81 \<and> c = CHR 0x9F then 3 else 0
         | _ \<Rightarrow> 0)
      else if a = CHR 0xE3 then
        (case s of b # c # _ \<Rightarrow> if b = CHR 0x80 \<and> c = CHR 0x80 then 3 else 0 | _ \<Rightarrow> 0)
      else 0)"

text \<open>A byte sequence cut into its space runes and its other bytes.\<close>

function chunks :: "string \<Rightarrow> (bool \<times> string) list" where
  "chunks [] = []"
| "chunks (c # s) =
     (let n = space_len (c # s)
      in if n = 0 then (False, [c]) # chunks s
         else (True, take n (c # s)) # chunks (drop (n - 1) s))"
  by pat_completeness auto
termination
  by (relation "measure length") auto

definition TrimSpace :: "string \<Rightarrow> string" where
  "TrimSpace s = concat (map snd (rev (dropWhile fst (rev (dropWhile fst (chunks s))))))"

fun group_fields :: "(bool \<times> string) list \<Rightarrow> string \<Rightarrow> string list" where
  "group_fields [] acc = (if acc = [] then [] else [acc])"
| "group_fields ((sp, b) # cs) acc =
     (if sp then (if acc = [] then group_fields cs [] else acc # group_fields cs [])
      else group_fields cs (acc @ b))"

definition Fields :: "string \<Rightarrow> string list" where
  "Fields s = group_fields (chunks s) []"

text \<open>Text whose bytes are ASCII and not white space: a word.\<close>

definition wordc :: "char \<Rightarrow> bool" where
  "wordc c \<longleftrightarrow> \<not> ascii_space c \<and> (of_char c :: nat) < 128"

definition is_word :: "string \<Rightarrow> bool" where
  "is_word s \<longleftrightarrow> s \<noteq> [] \<and> list_all wordc s"

lemma wordc_neq_lead:
  "wordc c \<Longrightarrow> c \<noteq> CHR 0xC2 \<and> c \<noteq> CHR 0xE1 \<and> c \<noteq> CHR 0xE2 \<and> c \<noteq> CHR 0xE3"
  by (auto simp: wordc_def)

lemma wordc_not_space: "wordc c \<Longrightarrow> \<not> ascii_space c"
  by (simp add: wordc_def)

lemma space_len_wordc [simp]: "wordc c \<Longrightarrow> space_len (c # s) = 0"
  using wordc_neq_lead[of c] wordc_not_space[of c] by (simp only: space_len.simps) simp

lemma space_len_space [simp]: "ascii_space c \<Longrightarrow> space_len (c # s) = 1"
  by simp

declare space_len.simps(2) [simp del]

lemma chunks_wordc [simp]: "wordc c \<Longrightarrow> chunks (c # s) = (False, [c]) # chunks s"
  by (simp add: Let_def)

lemma chunks_space [simp]: "ascii_space c \<Longrightarrow> chunks (c # s) = (True, [c]) # chunks s"
  by (simp add: Let_def)

declare chunks.simps(2) [simp del]

lemma concat_chunks [simp]: "concat (map snd (chunks s)) = s"
proof (induction s rule: chunks.induct)
  case 1
  show ?case by simp
next
  case (2 c s)
  show ?case
  proof (cases "space_len (c # s) = 0")
    case True
    with 2 show ?thesis by (simp add: chunks.simps(2))
  next
    case False
    then obtain n where n: "space_len (c # s) = Suc n" by (cases "space_len (c # s)") auto
    with 2 show ?thesis by (simp add: chunks.simps(2))
  qed
qed

lemma chunks_word_append:
  "list_all wordc w \<Longrightarrow> chunks (w @ s) = map (\<lambda>c. (False, [c])) w @ chunks s"
  by (induction w) auto

lemma chunks_spaces_append:
  "list_all ascii_space w \<Longrightarrow> chunks (w @ s) = map (\<lambda>c. (True, [c])) w @ chunks s"
  by (induction w) auto

lemma group_fields_word:
  "group_fields (map (\<lambda>c. (False, [c])) w @ cs) acc = group_fields cs (acc @ w)"
  by (induction w arbitrary: acc) auto

lemma group_fields_spaces:
  "group_fields (map (\<lambda>c. (True, [c])) w @ cs) [] = group_fields cs []"
  by (induction w) auto

lemma group_fields_word_space:
  assumes "is_word w" and "list_all ascii_space sp" and "sp \<noteq> []"
  shows "group_fields (chunks (w @ sp @ s)) [] = w # group_fields (chunks s) []"
proof -
  from assms obtain c sp' where "sp = c # sp'" "ascii_space c" "list_all ascii_space sp'"
    by (cases sp) auto
  with assms show ?thesis
    by (simp add: is_word_def chunks_word_append chunks_spaces_append group_fields_word
        group_fields_spaces)
qed

lemma Fields_Nil [simp]: "Fields [] = []"
  by (simp add: Fields_def)

lemma Fields_spaces [simp]: "list_all ascii_space sp \<Longrightarrow> Fields (sp @ s) = Fields s"
  by (simp add: Fields_def chunks_spaces_append group_fields_spaces)

lemma Fields_word_spaces:
  "is_word w \<Longrightarrow> list_all ascii_space sp \<Longrightarrow> sp \<noteq> [] \<Longrightarrow> Fields (w @ sp @ s) = w # Fields s"
  by (simp add: Fields_def group_fields_word_space)

lemma Fields_word: "is_word w \<Longrightarrow> Fields w = [w]"
  using chunks_word_append[of w "[]"] group_fields_word[of w "[]" "[]"]
  by (simp add: Fields_def is_word_def)

lemma group_fields_nonempty:
  "(\<And>sp b. (sp, b) \<in> set cs \<Longrightarrow> b \<noteq> []) \<Longrightarrow> w \<in> set (group_fields cs acc) \<Longrightarrow> w \<noteq> []"
  by (induction cs acc rule: group_fields.induct) (auto split: if_splits)

lemma chunks_nonempty: "(sp, b) \<in> set (chunks s) \<Longrightarrow> b \<noteq> []"
  by (induction s rule: chunks.induct) (auto simp: chunks.simps(2) Let_def split: if_splits)

lemma Fields_nonempty: "w \<in> set (Fields s) \<Longrightarrow> w \<noteq> []"
  unfolding Fields_def by (rule group_fields_nonempty[OF chunks_nonempty])

lemma TrimSpace_Nil [simp]: "TrimSpace [] = []"
  by (simp add: TrimSpace_def)

lemma dropWhile_map_const:
  "dropWhile fst (map (\<lambda>c. (True, [c])) w @ cs) = dropWhile fst cs"
  by (induction w) auto

lemma TrimSpace_word:
  assumes "is_word w" and "list_all ascii_space sp" and "list_all ascii_space sp'"
  shows "TrimSpace (sp @ w @ sp') = w"
proof -
  have c: "chunks (sp @ w @ sp') = map (\<lambda>c. (True, [c])) sp @ map (\<lambda>c. (False, [c])) w
      @ map (\<lambda>c. (True, [c])) sp'"
    using assms chunks_spaces_append[of sp' "[]"]
    by (simp add: chunks_spaces_append chunks_word_append is_word_def)
  have w: "dropWhile fst (map (\<lambda>c. (False, [c])) w @ cs) = map (\<lambda>c. (False, [c])) w @ cs"
    "dropWhile fst (map (\<lambda>c. (False, [c])) (rev w)) = map (\<lambda>c. (False, [c])) (rev w)" for cs
    using assms(1) by (cases w; cases "rev w"; auto simp: is_word_def)+
  show ?thesis
    unfolding TrimSpace_def c
    by (simp add: dropWhile_map_const w rev_map o_def concat_map_singleton)
qed

lemma set_TrimSpace: "set (TrimSpace s) \<subseteq> set s"
proof
  fix x assume "x \<in> set (TrimSpace s)"
  then obtain b where "b \<in> set (map snd (rev (dropWhile fst (rev (dropWhile fst (chunks s))))))" "x \<in> set b"
    unfolding TrimSpace_def by auto
  then have "b \<in> set (map snd (chunks s))"
    by (auto dest!: set_dropWhileD)
  with \<open>x \<in> set b\<close> have "x \<in> set (concat (map snd (chunks s)))"
    by (metis UN_I set_concat)
  then show "x \<in> set s" by simp
qed

lemma chunks_word_bytes: "(False, b) \<in> set (chunks s) \<Longrightarrow> c \<in> set b \<Longrightarrow> \<not> ascii_space c"
proof (induction s rule: chunks.induct)
  case 1
  then show ?case by simp
next
  case (2 x s)
  show ?case
  proof (cases "space_len (x # s) = 0")
    case True
    then have "\<not> ascii_space x" by (auto simp: space_len.simps(2))
    with True 2 show ?thesis by (auto simp: chunks.simps(2))
  next
    case False
    with 2 show ?thesis by (auto simp: chunks.simps(2) Let_def)
  qed
qed

lemma group_fields_bytes:
  "w \<in> set (group_fields cs acc) \<Longrightarrow> c \<in> set w \<Longrightarrow> c \<in> set acc \<or> (\<exists>b. (False, b) \<in> set cs \<and> c \<in> set b)"
  by (induction cs acc rule: group_fields.induct) (fastforce split: if_splits)+

lemma Fields_no_space: "w \<in> set (Fields s) \<Longrightarrow> c \<in> set w \<Longrightarrow> \<not> ascii_space c"
  unfolding Fields_def using group_fields_bytes chunks_word_bytes by fastforce

lemma Fields_no_blank: "w \<in> set (Fields s) \<Longrightarrow> CHR '' '' \<notin> set w"
  using Fields_no_space by (auto simp: ascii_space_def)

subsection \<open>Trimming, case, replacement\<close>

text \<open>\<^verbatim>\<open>strings.Trim(s, cutset)\<close> for a one-byte cutset.\<close>

definition Trim :: "string \<Rightarrow> char \<Rightarrow> string" where
  "Trim s c = rev (dropWhile (\<lambda>x. x = c) (rev (dropWhile (\<lambda>x. x = c) s)))"

definition lower_char :: "char \<Rightarrow> char" where
  "lower_char c = (if CHR ''A'' \<le> c \<and> c \<le> CHR ''Z'' then char_of ((of_char c :: nat) + 32) else c)"

definition upper_char :: "char \<Rightarrow> char" where
  "upper_char c = (if CHR ''a'' \<le> c \<and> c \<le> CHR ''z'' then char_of ((of_char c :: nat) - 32) else c)"

definition ToLower :: "string \<Rightarrow> string" where
  "ToLower s = map lower_char s"

definition ToUpper :: "string \<Rightarrow> string" where
  "ToUpper s = map upper_char s"

text \<open>\<^verbatim>\<open>strings.ReplaceAll(s, old, new)\<close> for a one-byte \<^verbatim>\<open>old\<close>.\<close>

definition ReplaceAll :: "string \<Rightarrow> char \<Rightarrow> string \<Rightarrow> string" where
  "ReplaceAll s c r = concat (map (\<lambda>x. if x = c then r else [x]) s)"

subsection \<open>Numbers\<close>

definition digit_char :: "nat \<Rightarrow> char" where
  "digit_char d = char_of (48 + d)"

fun show_nat :: "nat \<Rightarrow> string" where
  "show_nat n = (if n < 10 then [digit_char n] else show_nat (n div 10) @ [digit_char (n mod 10)])"

declare show_nat.simps [simp del]

text \<open>\<^verbatim>\<open>strconv.Itoa\<close> and the \<^verbatim>\<open>%d\<close> of \<^verbatim>\<open>fmt\<close>.\<close>

definition Itoa :: "int \<Rightarrow> string" where
  "Itoa n = (if n < 0 then CHR ''-'' # show_nat (nat (- n)) else show_nat (nat n))"

definition digit_val :: "char \<Rightarrow> nat option" where
  "digit_val c = (if CHR ''0'' \<le> c \<and> c \<le> CHR ''9'' then Some (of_char c - 48) else None)"

fun parse_digits :: "nat \<Rightarrow> string \<Rightarrow> nat option" where
  "parse_digits n [] = Some n"
| "parse_digits n (c # s) =
     (case digit_val c of None \<Rightarrow> None | Some d \<Rightarrow> parse_digits (10 * n + d) s)"

text \<open>
  \<^verbatim>\<open>strconv.ParseInt(s, 10, bits)\<close>: an optional sign, at least one digit, and a value that fits
  in the given number of bits; anything else is an error (\<open>None\<close>).
\<close>

definition ParseInt :: "string \<Rightarrow> nat \<Rightarrow> int option" where
  "ParseInt s bits =
     (let (neg, ds) = (case s of
          c # t \<Rightarrow> if c = CHR ''-'' then (True, t) else if c = CHR ''+'' then (False, t) else (False, s)
        | [] \<Rightarrow> (False, s))
      in if ds = [] then None
         else (case parse_digits 0 ds of
             None \<Rightarrow> None
           | Some n \<Rightarrow>
               if neg then (if int n \<le> 2 ^ (bits - 1) then Some (- int n) else None)
               else (if int n < 2 ^ (bits - 1) then Some (int n) else None)))"

lemma digit_val_digit_char [simp]: "d < 10 \<Longrightarrow> digit_val (digit_char d) = Some d"
  by (auto simp: digit_val_def digit_char_def less_eq_char_def)

lemma parse_digits_append:
  "parse_digits n (s @ t) = (case parse_digits n s of None \<Rightarrow> None | Some m \<Rightarrow> parse_digits m t)"
  by (induction s arbitrary: n) (auto split: option.split)

lemma parse_digits_show_nat: "parse_digits 0 (show_nat n) = Some n"
proof (induction n rule: show_nat.induct)
  case (1 n)
  show ?case
  proof (cases "n < 10")
    case True
    then show ?thesis by (simp add: show_nat.simps[of n])
  next
    case False
    with 1 have "parse_digits 0 (show_nat (n div 10)) = Some (n div 10)" by simp
    with False show ?thesis
      by (simp add: show_nat.simps[of n] parse_digits_append)
  qed
qed

lemma show_nat_not_Nil [simp]: "show_nat n \<noteq> []"
  by (subst show_nat.simps) simp

lemma set_show_nat: "set (show_nat n) \<subseteq> digit_char ` {..<10}"
proof (induction n rule: show_nat.induct)
  case (1 n)
  then show ?case
    by (cases "n < 10") (auto simp: show_nat.simps[of n])
qed

lemma digit_char_neq_sign [simp]:
  "d < 10 \<Longrightarrow> digit_char d \<noteq> CHR ''-''" "d < 10 \<Longrightarrow> digit_char d \<noteq> CHR ''+''"
  by (auto simp: digit_char_def dest!: arg_cong[where f = "of_char :: char \<Rightarrow> nat"])

lemma show_nat_no_sign: "CHR ''-'' \<notin> set (show_nat n)" "CHR ''+'' \<notin> set (show_nat n)"
  using set_show_nat[of n] digit_char_neq_sign by fastforce+

lemma ParseInt_show_nat: "int n < 2 ^ (bits - 1) \<Longrightarrow> ParseInt (show_nat n) bits = Some (int n)"
proof -
  assume n: "int n < 2 ^ (bits - 1)"
  obtain c t where s: "show_nat n = c # t" by (cases "show_nat n") auto
  then have "c \<noteq> CHR ''-''" "c \<noteq> CHR ''+''" using show_nat_no_sign[of n] by auto
  with n parse_digits_show_nat[of n] show ?thesis
    unfolding s by (simp add: ParseInt_def del: parse_digits.simps)
qed

lemma ParseInt_bounds:
  "ParseInt s bits = Some n \<Longrightarrow> - (2 ^ (bits - 1)) \<le> n \<and> n < 2 ^ (bits - 1)"
proof -
  assume "ParseInt s bits = Some n"
  then obtain m where "n = - int m \<and> int m \<le> 2 ^ (bits - 1) \<or> n = int m \<and> int m < 2 ^ (bits - 1)"
    by (auto simp: ParseInt_def Let_def split: if_splits option.splits prod.splits)
  moreover have "(0::int) < 2 ^ (bits - 1)" by simp
  ultimately show ?thesis by linarith
qed

text \<open>\<^verbatim>\<open>strconv.Quote\<close> (the \<^verbatim>\<open>%q\<close> of \<^verbatim>\<open>fmt\<close>) on printable ASCII text.\<close>

definition Quote :: "string \<Rightarrow> string" where
  "Quote s = [CHR 0x22] @
     concat (map (\<lambda>c. if c = CHR 0x22 \<or> c = CHR 0x5C then [CHR 0x5C, c] else [c]) s) @ [CHR 0x22]"

end
