(* ===== verification/K8s_Types.thy ===== *)
theory K8s_Types
  imports Go_Strings
begin

text \<open>
  The Kubernetes objects the operator reads and writes, with the fields it uses. The types
  come from the Kubernetes API; a Go map is an association list in the order an iteration
  visits it (arbitrary, but fixed for one value) with distinct keys, and a pointer field is an
  option. Points in time and durations are nanoseconds.
\<close>

type_synonym gomap = "(string \<times> string) list"
type_synonym time = int
type_synonym duration = int

definition Second :: duration where "Second = 1000000000"
definition Minute :: duration where "Minute = 60 * Second"

definition wf_map :: "('k \<times> 'v) list \<Rightarrow> bool" where
  "wf_map m \<longleftrightarrow> distinct (map fst m)"

text \<open>Go's map read \<^verbatim>\<open>m[k]\<close> of a string map: the zero value when the key is absent.\<close>

definition map_get :: "gomap \<Rightarrow> string \<Rightarrow> string" where
  "map_get m k = (case map_of m k of None \<Rightarrow> [] | Some v \<Rightarrow> v)"

text \<open>Go's map write \<^verbatim>\<open>m[k] = v\<close>.\<close>

fun map_put :: "('k \<times> 'v) list \<Rightarrow> 'k \<Rightarrow> 'v \<Rightarrow> ('k \<times> 'v) list" where
  "map_put [] k v = [(k, v)]"
| "map_put ((k', v') # m) k v = (if k' = k then (k, v) # m else (k', v') # map_put m k v)"

lemma map_of_map_put [simp]: "map_of (map_put m k v) = (map_of m)(k \<mapsto> v)"
  by (induction m k v rule: map_put.induct) (auto simp: fun_upd_twist)

lemma fst_set_map_put [simp]: "fst ` set (map_put m k v) = insert k (fst ` set m)"
  by (induction m k v rule: map_put.induct) auto

lemma wf_map_put [simp]: "wf_map m \<Longrightarrow> wf_map (map_put m k v)"
  by (induction m k v rule: map_put.induct) (auto simp: wf_map_def)

lemma map_get_map_put [simp]: "map_get (map_put m k v) k' = (if k' = k then v else map_get m k')"
  by (simp add: map_get_def)

subsection \<open>Metadata, conditions, unstructured objects\<close>

record ObjectMeta =
  m_Name :: string
  m_Namespace :: string
  m_UID :: string
  m_Generation :: int
  m_DeletionTimestamp :: "time option"
  m_Finalizers :: "string list"
  m_Labels :: gomap
  m_OwnerReferences :: "string list"

definition new_meta :: "string \<Rightarrow> string \<Rightarrow> ObjectMeta" where
  "new_meta name ns = \<lparr>m_Name = name, m_Namespace = ns, m_UID = [], m_Generation = 0,
     m_DeletionTimestamp = None, m_Finalizers = [], m_Labels = [], m_OwnerReferences = []\<rparr>"

record Condition =
  c_Type :: string
  c_Status :: string
  c_ObservedGeneration :: int
  c_LastTransitionTime :: time
  c_Reason :: string
  c_Message :: string

text \<open>The contents of an \<^verbatim>\<open>unstructured.Unstructured\<close>: decoded JSON.\<close>

datatype uval = UStr string | UMap "(string \<times> uval) list" | UList "uval list" | UOther

text \<open>\<^verbatim>\<open>m[k].(string)\<close> with the comma-ok form: the empty string unless a string is there.\<close>

definition u_string :: "(string \<times> uval) list \<Rightarrow> string \<Rightarrow> string" where
  "u_string m k = (case map_of m k of Some (UStr s) \<Rightarrow> s | _ \<Rightarrow> [])"

text \<open>A \<^verbatim>\<open>resource.Quantity\<close>, through the two observations the program makes of it.\<close>

datatype Quantity = Quantity (q_Value: int) (q_String: string)

type_synonym ResourceList = "(string \<times> Quantity) list"

record ResourceRequirements =
  rr_Requests :: ResourceList
  rr_Limits :: ResourceList

subsection \<open>Pods\<close>

record PodCondition =
  pc_Type :: string
  pc_Status :: string

record ContainerStatus =
  cs_Name :: string
  cs_Ready :: bool
  cs_Waiting :: "string option"     \<comment> \<open>\<^verbatim>\<open>State.Waiting\<close>, its \<^verbatim>\<open>Reason\<close>\<close>
  cs_Terminated :: "string option"  \<comment> \<open>\<^verbatim>\<open>State.Terminated\<close>, its \<^verbatim>\<open>Reason\<close>\<close>

record Pod =
  p_Meta :: ObjectMeta
  p_Phase :: string
  p_Conditions :: "PodCondition list"
  p_ContainerStatuses :: "ContainerStatus list"

abbreviation p_Name :: "Pod \<Rightarrow> string" where
  "p_Name p \<equiv> m_Name (p_Meta p)"

record SecurityContext =
  sc_AllowPrivilegeEscalation :: "bool option"
  sc_CapabilitiesDrop :: "string list"
  sc_ReadOnlyRootFilesystem :: "bool option"

record PodSecurityContext =
  psc_RunAsUser :: "int option"
  psc_RunAsGroup :: "int option"
  psc_FSGroup :: "int option"
  psc_SeccompProfile :: "string option"

datatype EnvSource = Value string | FieldRef string

record EnvVar =
  ev_Name :: string
  ev_Source :: EnvSource

record KeyToPath =
  kp_Key :: string
  kp_Path :: string

datatype VolumeSource =
    SecretVolume string
  | ProjectedVolume "(string \<times> KeyToPath list) list"   \<comment> \<open>secret name and items, in order\<close>
  | ConfigMapVolume string "KeyToPath list"
  | EmptyDir

record Volume =
  v_Name :: string
  v_Source :: VolumeSource

record VolumeMount =
  vm_Name :: string
  vm_MountPath :: string
  vm_ReadOnly :: bool

datatype IntOrString = FromString string | FromInt32 int

record Probe =
  pr_TCPPort :: IntOrString
  pr_InitialDelaySeconds :: int
  pr_PeriodSeconds :: int
  pr_TimeoutSeconds :: int
  pr_FailureThreshold :: int

record ContainerPort =
  cp_Name :: string
  cp_ContainerPort :: int
  cp_Protocol :: string

record Container =
  ct_Name :: string
  ct_Image :: string
  ct_ImagePullPolicy :: string
  ct_Command :: "string list"
  ct_Args :: "string list"
  ct_Stdin :: bool
  ct_TTY :: bool
  ct_Ports :: "ContainerPort list"
  ct_Env :: "EnvVar list"
  ct_Resources :: ResourceRequirements
  ct_VolumeMounts :: "VolumeMount list"
  ct_SecurityContext :: "SecurityContext option"
  ct_LivenessProbe :: "Probe option"
  ct_ReadinessProbe :: "Probe option"

definition empty_container :: Container where
  "empty_container = \<lparr>ct_Name = [], ct_Image = [], ct_ImagePullPolicy = [], ct_Command = [],
     ct_Args = [], ct_Stdin = False, ct_TTY = False, ct_Ports = [], ct_Env = [],
     ct_Resources = \<lparr>rr_Requests = [], rr_Limits = []\<rparr>, ct_VolumeMounts = [],
     ct_SecurityContext = None, ct_LivenessProbe = None, ct_ReadinessProbe = None\<rparr>"

record PodAffinityTerm =
  pat_MatchLabels :: gomap
  pat_TopologyKey :: string

record PodAntiAffinity =
  paa_Preferred :: "(int \<times> PodAffinityTerm) list"
  paa_Required :: "PodAffinityTerm list"

record PodSpec =
  ps_NodeSelector :: gomap
  ps_SecurityContext :: PodSecurityContext
  ps_Volumes :: "Volume list"
  ps_InitContainers :: "Container list"
  ps_Containers :: "Container list"
  ps_TerminationGracePeriodSeconds :: int
  ps_Affinity :: "PodAntiAffinity option"

record PodTemplate =
  pt_Labels :: gomap
  pt_Spec :: PodSpec

subsection \<open>Workloads, services, configuration\<close>

record PersistentVolumeClaim =
  pvc_Name :: string
  pvc_AccessModes :: "string list"
  pvc_StorageClassName :: string
  pvc_Requests :: ResourceList
  pvc_Phase :: string

record StatefulSetSpec =
  ss_UpdateStrategyType :: string
  ss_Partition :: "int option"   \<comment> \<open>\<^verbatim>\<open>UpdateStrategy.RollingUpdate\<close> set, its \<^verbatim>\<open>Partition\<close> set\<close>
  ss_ServiceName :: string
  ss_Replicas :: int
  ss_MatchLabels :: gomap
  ss_Template :: "PodTemplate option"
  ss_VolumeClaimTemplates :: "PersistentVolumeClaim list"

record StatefulSet =
  s_Meta :: ObjectMeta
  s_Spec :: StatefulSetSpec
  s_CurrentRevision :: string    \<comment> \<open>\<^verbatim>\<open>Status.CurrentRevision\<close>\<close>
  s_UpdateRevision :: string     \<comment> \<open>\<^verbatim>\<open>Status.UpdateRevision\<close>\<close>

record ServicePort =
  sp_Name :: string
  sp_Port :: int
  sp_TargetPort :: IntOrString

record ServiceSpec =
  sv_Type :: string
  sv_ClusterIP :: string
  sv_Selector :: gomap
  sv_Ports :: "ServicePort list"
  sv_PublishNotReadyAddresses :: bool

record Service =
  svc_Meta :: ObjectMeta
  svc_Spec :: ServiceSpec

record PodDisruptionBudget =
  pdb_Meta :: ObjectMeta
  pdb_MaxUnavailable :: "IntOrString option"
  pdb_MatchLabels :: gomap

record ConfigMap =
  cm_Meta :: ObjectMeta
  cm_Data :: gomap
  cm_BinaryData :: gomap

record Secret =
  sec_Meta :: ObjectMeta
  sec_Data :: gomap

text \<open>A PodMonitor or ServiceMonitor: an unstructured object with its metadata read out.\<close>

record Monitor =
  mon_Meta :: ObjectMeta
  mon_Spec :: uval

end
