(* ===== verification/Api_Types.thy ===== *)
theory Api_Types
  imports K8s_Types
begin

text \<open>
  The custom resources of the operator (\<^verbatim>\<open>api/v1\<close>): RiakCluster, RiakUser and RiakBucket, with
  the source's fields under a prefix per type. Optional pointers are options, enumerations kept
  as strings in the source are strings here.
\<close>

subsection \<open>RiakCluster\<close>

record RolloutConfig =
  ro_WaitForTransfers :: "bool option"
  ro_Paused :: bool
  ro_StallTimeout :: "duration option"

record PodDisruptionBudgetConfig =
  pdbc_Enabled :: "bool option"

record KeySelector =
  ks_Name :: string
  ks_Key :: string

record MetricsConfigSource =
  mcs_ConfigMapKeyRef :: KeySelector

record MonitoringConfig =
  mc_Enabled :: bool
  mc_ExporterImage :: string
  mc_MetricsConfig :: "MetricsConfigSource option"
  mc_ScrapeKind :: string

definition ScrapeKindPodMonitor :: string where "ScrapeKindPodMonitor = ''PodMonitor''"
definition ScrapeKindServiceMonitor :: string where "ScrapeKindServiceMonitor = ''ServiceMonitor''"
definition ScrapeKindNone :: string where "ScrapeKindNone = ''None''"

definition PodAntiAffinityRequired :: string where "PodAntiAffinityRequired = ''Required''"
definition PodAntiAffinityPreferred :: string where "PodAntiAffinityPreferred = ''Preferred''"
definition PodAntiAffinityNone :: string where "PodAntiAffinityNone = ''None''"

record CertManagerConfig =
  cmc_IssuerName :: string
  cmc_IssuerKind :: string

record TrustedCASource =
  ca_SecretRef :: "KeySelector option"
  ca_ConfigMapRef :: "KeySelector option"

record TLSConfig =
  tls_Enabled :: bool
  tls_CertManager :: "CertManagerConfig option"
  tls_AdditionalClientCAs :: "TrustedCASource list"

record RiakClusterSpec =
  cls_Size :: int
  cls_Image :: string
  cls_ImagePullPolicy :: string
  cls_Resources :: "ResourceRequirements option"
  cls_StorageClassName :: string
  cls_StorageSize :: "Quantity option"
  cls_EphemeralStorage :: bool
  cls_RiakConfig :: gomap
  cls_TLS :: "TLSConfig option"
  cls_Monitoring :: "MonitoringConfig option"
  cls_ServicePort :: int
  cls_NodeSelector :: gomap
  cls_PodAntiAffinity :: string
  cls_PodSecurityContext :: "PodSecurityContext option"
  cls_ReadOnlyRootFilesystem :: bool
  cls_Rollout :: "RolloutConfig option"
  cls_TerminationGracePeriodSeconds :: "int option"
  cls_PodDisruptionBudget :: "PodDisruptionBudgetConfig option"

definition PhaseCreating :: string where "PhaseCreating = ''Creating''"
definition PhaseReady :: string where "PhaseReady = ''Ready''"
definition PhaseUpdating :: string where "PhaseUpdating = ''Updating''"
definition PhaseFailed :: string where "PhaseFailed = ''Failed''"

definition NodeHealthy :: string where "NodeHealthy = ''Healthy''"
definition NodeUnhealthy :: string where "NodeUnhealthy = ''Unhealthy''"
definition NodeHealthUnknown :: string where "NodeHealthUnknown = ''Unknown''"

record TLSStatus =
  ts_Enabled :: bool
  ts_CertManagerReady :: bool
  ts_CertManagerError :: string
  ts_InterNodeReady :: bool
  ts_ClientReady :: bool
  ts_TrustedClientCAs :: int
  ts_TrustBundleError :: string

definition empty_TLSStatus :: TLSStatus where
  "empty_TLSStatus = \<lparr>ts_Enabled = False, ts_CertManagerReady = False, ts_CertManagerError = [],
     ts_InterNodeReady = False, ts_ClientReady = False, ts_TrustedClientCAs = 0,
     ts_TrustBundleError = []\<rparr>"

record MonitoringStatus =
  ms_Enabled :: bool
  ms_ExporterReady :: bool
  ms_ScrapeKind :: string
  ms_ScrapeObjectReady :: bool
  ms_ServiceMonitorReady :: bool
  ms_ExporterError :: string

definition empty_MonitoringStatus :: MonitoringStatus where
  "empty_MonitoringStatus = \<lparr>ms_Enabled = False, ms_ExporterReady = False, ms_ScrapeKind = [],
     ms_ScrapeObjectReady = False, ms_ServiceMonitorReady = False, ms_ExporterError = []\<rparr>"

record RiakBucketRef =
  br_Name :: string
  br_Ready :: bool

record RiakUserRef =
  ur_Name :: string
  ur_Ready :: bool

record NodeCondition =
  nc_Name :: string
  nc_Ready :: bool
  nc_Health :: string
  nc_Phase :: string
  nc_PodName :: string
  nc_StorageReady :: bool
  nc_StorageClassName :: string
  nc_StorageSize :: string
  nc_Conditions :: "Condition list"

record RiakNodeMember =
  nm_Name :: string
  nm_Pod :: string
  nm_Ready :: bool
  nm_Health :: string
  nm_Phase :: string
  nm_StorageReady :: bool
  nm_Conditions :: "Condition list"

record RiakClusterStatus =
  clt_Phase :: string
  clt_ReadyNodes :: int
  clt_TotalNodes :: int
  clt_Conditions :: "Condition list"
  clt_LastUpdateTime :: "time option"
  clt_Members :: "RiakNodeMember list"
  clt_SecurityEnabled :: bool
  clt_StorageClassName :: string
  clt_StorageSize :: string
  clt_EphemeralStorage :: bool
  clt_TLSStatus :: TLSStatus
  clt_MonitoringStatus :: MonitoringStatus
  clt_Buckets :: "RiakBucketRef list"
  clt_Users :: "RiakUserRef list"
  clt_NodeConditions :: "NodeCondition list"

record RiakCluster =
  cl_Meta :: ObjectMeta
  cl_Spec :: RiakClusterSpec
  cl_Status :: RiakClusterStatus

abbreviation cl_Name :: "RiakCluster \<Rightarrow> string" where "cl_Name c \<equiv> m_Name (cl_Meta c)"
abbreviation cl_Namespace :: "RiakCluster \<Rightarrow> string" where "cl_Namespace c \<equiv> m_Namespace (cl_Meta c)"

definition cl_set_conditions :: "Condition list \<Rightarrow> RiakCluster \<Rightarrow> RiakCluster" where
  "cl_set_conditions cs c = c\<lparr>cl_Status := (cl_Status c)\<lparr>clt_Conditions := cs\<rparr>\<rparr>"

definition cl_set_phase :: "string \<Rightarrow> RiakCluster \<Rightarrow> RiakCluster" where
  "cl_set_phase p c = c\<lparr>cl_Status := (cl_Status c)\<lparr>clt_Phase := p\<rparr>\<rparr>"

subsection \<open>RiakUser\<close>

record Grant =
  g_Resource :: string
  g_BucketName :: string
  g_Permission :: string

record CertIssuerRef =
  ir_Name :: string
  ir_Kind :: string

record UserCertificateRef =
  ucr_IssuerRef :: "CertIssuerRef option"
  ucr_SecretName :: string
  ucr_ExternalSecretName :: string

record RiakUserSpec =
  us_ClusterName :: string
  us_Username :: string
  us_Grants :: "Grant list"
  us_CertificateRef :: "UserCertificateRef option"

record RiakUserStatus =
  ut_Phase :: string
  ut_Created :: bool
  ut_LastUpdateTime :: "time option"
  ut_Error :: string
  ut_Username :: string
  ut_CertificateReady :: bool
  ut_CertificateError :: string
  ut_ClusterName :: string
  ut_Grants :: "Grant list"
  ut_Conditions :: "Condition list"

definition UserPhaseCreating :: string where "UserPhaseCreating = ''Creating''"
definition UserPhaseReady :: string where "UserPhaseReady = ''Ready''"
definition UserPhaseFailed :: string where "UserPhaseFailed = ''Failed''"

record RiakUser =
  u_Meta :: ObjectMeta
  u_Spec :: RiakUserSpec
  u_Status :: RiakUserStatus

abbreviation u_Name :: "RiakUser \<Rightarrow> string" where "u_Name u \<equiv> m_Name (u_Meta u)"
abbreviation u_Namespace :: "RiakUser \<Rightarrow> string" where "u_Namespace u \<equiv> m_Namespace (u_Meta u)"

subsection \<open>RiakBucket\<close>

record RiakBucketSpec =
  bs_ClusterName :: string
  bs_BucketName :: string
  bs_BucketType :: string
  bs_ReplicationFactor :: int
  bs_AllowMulti :: bool
  bs_NVal :: int
  bs_Properties :: gomap

record BucketNodeRef =
  bn_Name :: string
  bn_Pod :: string
  bn_Ready :: bool
  bn_Health :: string

record RiakBucketStatus =
  bt_Phase :: string
  bt_Created :: bool
  bt_LastUpdateTime :: "time option"
  bt_Error :: string
  bt_BucketName :: string
  bt_BucketType :: string
  bt_ReplicationFactor :: int
  bt_NVal :: int
  bt_Properties :: gomap
  bt_Nodes :: "BucketNodeRef list"
  bt_Conditions :: "Condition list"

definition BucketPhaseCreating :: string where "BucketPhaseCreating = ''Creating''"
definition BucketPhaseReady :: string where "BucketPhaseReady = ''Ready''"
definition BucketPhaseFailed :: string where "BucketPhaseFailed = ''Failed''"

record RiakBucket =
  b_Meta :: ObjectMeta
  b_Spec :: RiakBucketSpec
  b_Status :: RiakBucketStatus

abbreviation b_Name :: "RiakBucket \<Rightarrow> string" where "b_Name b \<equiv> m_Name (b_Meta b)"
abbreviation b_Namespace :: "RiakBucket \<Rightarrow> string" where "b_Namespace b \<equiv> m_Namespace (b_Meta b)"

lemmas phase_defs =
  PhaseCreating_def PhaseReady_def PhaseUpdating_def PhaseFailed_def
  UserPhaseCreating_def UserPhaseReady_def UserPhaseFailed_def
  BucketPhaseCreating_def BucketPhaseReady_def BucketPhaseFailed_def

end
