(* ===== verification/World.thy ===== *)
theory World
  imports Api_Types
begin

text \<open>
  What the operator talks to. The Kubernetes API server, the \<^verbatim>\<open>kubectl exec\<close> runner, the clock and
  the third-party helper functions (\<^verbatim>\<open>apimachinery\<close>, \<^verbatim>\<open>controller-runtime\<close>, the cryptographic
  library) are parameters: the record \<open>env\<close> holds one function per operation the operator
  calls, over an unconstrained type \<open>'w\<close> for the state of the outside world. Every call that can
  change or query the outside world goes through \<open>effect\<close>, which also appends an event
  to the trace, with the reply where a later decision rests on it, so that theorems can speak
  about what was done, in which order and on the strength of which replies.
\<close>

subsection \<open>Errors of the API server, object kinds, events\<close>

datatype api_error = NotFound string | NoMatch string | Conflict string | OtherError string

fun api_msg :: "api_error \<Rightarrow> error" where
  "api_msg (NotFound m) = m"
| "api_msg (NoMatch m) = m"
| "api_msg (Conflict m) = m"
| "api_msg (OtherError m) = m"

fun IsNotFound :: "api_error \<Rightarrow> bool" where
  "IsNotFound (NotFound m) = True"
| "IsNotFound _ = False"

fun IsNoMatchError :: "api_error \<Rightarrow> bool" where
  "IsNoMatchError (NoMatch m) = True"
| "IsNoMatchError _ = False"

text \<open>\<^verbatim>\<open>client.IgnoreNotFound\<close>.\<close>

definition IgnoreNotFound :: "api_error \<Rightarrow> error option" where
  "IgnoreNotFound e = (if IsNotFound e then None else Some (api_msg e))"

datatype kind =
  KCluster | KUser | KBucket | KPod | KPVC | KStatefulSet | KService | KPDB | KConfigMap | KSecret |
  KCertificate | KServiceMonitor | KPodMonitor

datatype event =
    Exec "string list" "string res"       \<comment> \<open>one run of \<^verbatim>\<open>kubectl\<close> with these arguments, and its reply\<close>
  | GetCluster string string "api_error + RiakCluster"   \<comment> \<open>namespace, name and the reply\<close>
  | GetSts string string "api_error + StatefulSet"
  | ListPods string gomap "api_error + Pod list"
  | Get kind string string                \<comment> \<open>kind, namespace, name\<close>
  | ListKind kind string
  | Create kind string string
  | Update kind string string
  | CreateOrUpdate kind string string
  | Delete kind string string
  | Patch string string StatefulSet       \<comment> \<open>a StatefulSet patched to this object\<close>
  | ClusterStatus RiakCluster             \<comment> \<open>\<^verbatim>\<open>Status().Update\<close> with this object\<close>
  | UserStatus RiakUser
  | BucketStatus RiakBucket

fun is_exec :: "event \<Rightarrow> bool" where
  "is_exec (Exec a r) = True"
| "is_exec _ = False"

fun is_read :: "event \<Rightarrow> bool" where
  "is_read (Get k ns n) = True"
| "is_read (GetCluster ns n r) = True"
| "is_read (GetSts ns n r) = True"
| "is_read (ListPods ns ls r) = True"
| "is_read (ListKind k ns) = True"
| "is_read _ = False"

record 'w world =
  outside :: 'w
  trace :: "event list"

type_synonym ('w, 'a) eff = "'w \<Rightarrow> 'a \<times> 'w"
type_synonym ('w, 'a) action = "('w world, 'a) prog"

subsection \<open>The environment\<close>

record x509 =
  crt_Raw :: string
  crt_CommonName :: string
  crt_NotAfter :: time

text \<open>A JSON value as \<^verbatim>\<open>encoding/json\<close> decodes it into an \<^verbatim>\<open>any\<close>; a number by its text.\<close>

datatype json =
    JNull | JBool bool | JNumber string | JString string | JArray "json list" | JObject "(string \<times> json) list"

record PemBlock =
  pb_Type :: string
  pb_Headers :: gomap
  pb_Bytes :: string

record 'w env =
  \<comment> \<open>the runner of \<^verbatim>\<open>kubectl\<close> and the clock\<close>
  run_kubectl :: "string list \<Rightarrow> ('w, string res) eff"
  time_now :: "('w, time) eff"
  \<comment> \<open>reads\<close>
  get_cluster :: "string \<Rightarrow> string \<Rightarrow> ('w, api_error + RiakCluster) eff"
  get_user :: "string \<Rightarrow> string \<Rightarrow> ('w, api_error + RiakUser) eff"
  get_bucket :: "string \<Rightarrow> string \<Rightarrow> ('w, api_error + RiakBucket) eff"
  get_sts :: "string \<Rightarrow> string \<Rightarrow> ('w, api_error + StatefulSet) eff"
  get_pvc :: "string \<Rightarrow> string \<Rightarrow> ('w, api_error + PersistentVolumeClaim) eff"
  get_cert :: "string \<Rightarrow> string \<Rightarrow> ('w, api_error + uval) eff"
  get_secret :: "string \<Rightarrow> string \<Rightarrow> ('w, api_error + Secret) eff"
  get_configmap :: "string \<Rightarrow> string \<Rightarrow> ('w, api_error + ConfigMap) eff"
  get_monitor :: "kind \<Rightarrow> string \<Rightarrow> string \<Rightarrow> ('w, api_error + Monitor) eff"
  list_pods :: "string \<Rightarrow> gomap \<Rightarrow> ('w, api_error + Pod list) eff"
  list_buckets :: "string \<Rightarrow> ('w, api_error + RiakBucket list) eff"
  list_users :: "string \<Rightarrow> ('w, api_error + RiakUser list) eff"
  \<comment> \<open>writes; a write of an object returns the object as the server stored it\<close>
  create_cert :: "uval \<Rightarrow> ('w, api_error option) eff"
  create_secret :: "Secret \<Rightarrow> ('w, api_error option) eff"
  update_secret :: "Secret \<Rightarrow> ('w, api_error option) eff"
  update_cluster :: "RiakCluster \<Rightarrow> ('w, api_error + RiakCluster) eff"
  update_user :: "RiakUser \<Rightarrow> ('w, api_error + RiakUser) eff"
  update_bucket :: "RiakBucket \<Rightarrow> ('w, api_error + RiakBucket) eff"
  status_cluster :: "RiakCluster \<Rightarrow> ('w, api_error + RiakCluster) eff"
  status_user :: "RiakUser \<Rightarrow> ('w, api_error + RiakUser) eff"
  status_bucket :: "RiakBucket \<Rightarrow> ('w, api_error + RiakBucket) eff"
  patch_sts :: "StatefulSet \<Rightarrow> StatefulSet \<Rightarrow> ('w, api_error option) eff"
  delete_obj :: "kind \<Rightarrow> string \<Rightarrow> string \<Rightarrow> ('w, api_error option) eff"
  \<comment> \<open>\<^verbatim>\<open>controllerutil.CreateOrUpdate\<close>: the object's key and the mutate function\<close>
  cou_sts :: "StatefulSet \<Rightarrow> (StatefulSet \<Rightarrow> StatefulSet res) \<Rightarrow> ('w, api_error option) eff"
  cou_service :: "Service \<Rightarrow> (Service \<Rightarrow> Service res) \<Rightarrow> ('w, api_error option) eff"
  cou_pdb :: "PodDisruptionBudget \<Rightarrow> (PodDisruptionBudget \<Rightarrow> PodDisruptionBudget res) \<Rightarrow>
    ('w, api_error option) eff"
  cou_configmap :: "ConfigMap \<Rightarrow> (ConfigMap \<Rightarrow> ConfigMap res) \<Rightarrow> ('w, api_error option) eff"
  cou_monitor :: "kind \<Rightarrow> Monitor \<Rightarrow> (Monitor \<Rightarrow> Monitor res) \<Rightarrow> ('w, api_error option) eff"
  \<comment> \<open>third-party helpers without effects\<close>
  SetStatusCondition :: "time \<Rightarrow> Condition list \<Rightarrow> Condition \<Rightarrow> Condition list \<times> bool"
  RemoveStatusCondition :: "Condition list \<Rightarrow> string \<Rightarrow> Condition list"
  FindStatusCondition :: "Condition list \<Rightarrow> string \<Rightarrow> Condition option"
  ContainsFinalizer :: "ObjectMeta \<Rightarrow> string \<Rightarrow> bool"
  AddFinalizer :: "ObjectMeta \<Rightarrow> string \<Rightarrow> ObjectMeta"
  RemoveFinalizer :: "ObjectMeta \<Rightarrow> string \<Rightarrow> ObjectMeta"
  SetControllerReference :: "ObjectMeta \<Rightarrow> ObjectMeta \<Rightarrow> ObjectMeta res"
  SetControllerReferenceU :: "ObjectMeta \<Rightarrow> uval \<Rightarrow> uval res"
  NestedSlice :: "uval \<Rightarrow> string list \<Rightarrow> (error + uval list option)"
  MustParse :: "string \<Rightarrow> Quantity"
  \<comment> \<open>encoding and cryptography\<close>
  json_Unmarshal :: "string \<Rightarrow> json res"
  json_Marshal :: "json \<Rightarrow> string res"
  pem_Decode :: "string \<Rightarrow> (PemBlock \<times> string) option"
  pem_Encode :: "PemBlock \<Rightarrow> string res"
  x509_Parse :: "string \<Rightarrow> x509 res"
  x509_Verify :: "x509 \<Rightarrow> x509 list \<Rightarrow> x509 list \<Rightarrow> time \<Rightarrow> error option"

subsection \<open>Effects\<close>

definition effect :: "('a \<Rightarrow> event) \<Rightarrow> ('w, 'a) eff \<Rightarrow> ('w, 'a) action" where
  "effect e f = State (\<lambda>w. case f (outside w) of
     (a, w') \<Rightarrow> (a, w\<lparr>outside := w', trace := trace w @ [e a]\<rparr>))"

text \<open>The clock is read without leaving an event.\<close>

definition Now :: "'w env \<Rightarrow> ('w, time) action" where
  "Now env = State (\<lambda>w. case time_now env (outside w) of (a, w') \<Rightarrow> (a, w\<lparr>outside := w'\<rparr>))"

text \<open>The events an action adds, for a given start world.\<close>

definition emitted :: "('w, 'a) action \<Rightarrow> 'w world \<Rightarrow> event list" where
  "emitted m w = drop (length (trace w)) (trace (snd (run_state m w)))"

text \<open>An action only ever adds events satisfying \<open>P\<close>.\<close>

definition emits :: "(event \<Rightarrow> bool) \<Rightarrow> ('w, 'a) action \<Rightarrow> bool" where
  "emits P m \<longleftrightarrow> (\<forall>w. \<exists>es. trace (snd (run_state m w)) = trace w @ es \<and> list_all P es)"

lemma emitsI:
  "(\<And>w. \<exists>es. trace (snd (run_state m w)) = trace w @ es \<and> list_all P es) \<Longrightarrow> emits P m"
  by (simp add: emits_def)

lemma emitsD:
  assumes "emits P m" and "run_state m w = (a, w')"
  obtains es where "trace w' = trace w @ es" and "list_all P es"
  using assms by (auto simp: emits_def) (metis snd_conv)

lemma emits_return [simp, emits_rules]: "emits P (return a)"
  by (simp add: emits_def)

lemma emits_Now [simp, emits_rules]: "emits P (Now env)"
  by (simp add: emits_def Now_def split: prod.split)

lemma emits_effect [emits_rules]: "(\<And>r. P (e r)) \<Longrightarrow> emits P (effect e f)"
  by (auto simp: emits_def effect_def split: prod.split)

lemma emits_bind [emits_rules]:
  assumes "emits P m" and "\<And>a. emits P (f a)"
  shows "emits P (State_Monad.bind m f)"
proof (rule emitsI)
  fix w
  obtain a w' where m: "run_state m w = (a, w')" by fastforce
  from assms(1) m obtain es where es: "trace w' = trace w @ es" "list_all P es"
    by (rule emitsD)
  obtain b w'' where f: "run_state (f a) w' = (b, w'')" by fastforce
  from assms(2) f obtain es' where "trace w'' = trace w' @ es'" "list_all P es'"
    by (rule emitsD)
  with es m f show "\<exists>es. trace (snd (run_state (State_Monad.bind m f) w)) = trace w @ es \<and> list_all P es"
    by (intro exI[of _ "es @ es'"]) simp
qed

lemma emits_if [emits_rules]: "emits P m \<Longrightarrow> emits P n \<Longrightarrow> emits P (if b then m else n)"
  by simp

lemma emits_case_sum [emits_rules]:
  "(\<And>a. emits P (f a)) \<Longrightarrow> (\<And>b. emits P (g b)) \<Longrightarrow> emits P (case x of Inl a \<Rightarrow> f a | Inr b \<Rightarrow> g b)"
  by (simp split: sum.split)

lemma emits_case_option [emits_rules]:
  "emits P f \<Longrightarrow> (\<And>b. emits P (g b)) \<Longrightarrow> emits P (case x of None \<Rightarrow> f | Some b \<Rightarrow> g b)"
  by (simp split: option.split)

lemma emits_case_prod [emits_rules]:
  "(\<And>a b. emits P (f a b)) \<Longrightarrow> emits P (case x of (a, b) \<Rightarrow> f a b)"
  by (simp split: prod.split)

lemma emits_Let [emits_rules]: "emits P (f x) \<Longrightarrow> emits P (Let x f)"
  by simp

lemma emits_for_each [emits_rules]:
  assumes "\<And>x v. emits P (body x v)"
  shows "emits P (for_each body xs v)"
  by (induction xs arbitrary: v) (auto intro!: emits_bind assms split: sum.split)

lemma emits_mono: "emits P m \<Longrightarrow> (\<And>e. P e \<Longrightarrow> Q e) \<Longrightarrow> emits Q m"
  unfolding emits_def by (metis list.pred_mono_strong)

lemma emits_emitted: "emits P m \<Longrightarrow> e \<in> set (emitted m w) \<Longrightarrow> P e"
  unfolding emits_def emitted_def
  by (metis append_eq_conv_conj list_all_iff)

lemma wp_effect [wp_simps]:
  "wp (effect e f) Q w = (case f (outside w) of (a, w') \<Rightarrow> Q a (w\<lparr>outside := w', trace := trace w @ [e a]\<rparr>))"
  by (simp add: wp_def effect_def split: prod.split)

lemma wp_Now [wp_simps]:
  "wp (Now env) Q w = (case time_now env (outside w) of (a, w') \<Rightarrow> Q a (w\<lparr>outside := w'\<rparr>))"
  by (simp add: wp_def Now_def split: prod.split)

lemma trace_effect [simp]:
  "trace (snd (run_state (effect e f) w)) = trace w @ [e (fst (f (outside w)))]"
  by (simp add: effect_def split: prod.split)

lemma trace_Now [simp]: "trace (snd (run_state (Now env) w)) = trace w"
  by (simp add: Now_def split: prod.split)

lemma emitted_return [simp]: "emitted (return a) w = []"
  by (simp add: emitted_def)

text \<open>A trace-extending action and its continuation: the events of both, in order.\<close>

lemma emits_True_trace: "emits (\<lambda>_. True) m \<Longrightarrow> trace (snd (run_state m w)) = trace w @ emitted m w"
  unfolding emits_def emitted_def by (metis append_eq_conv_conj)

lemma emitted_bind:
  assumes "emits (\<lambda>_. True) m" and "\<And>a. emits (\<lambda>_. True) (f a)"
  shows "emitted (State_Monad.bind m f) w =
    (case run_state m w of (a, w') \<Rightarrow> emitted m w @ emitted (f a) w')"
proof -
  obtain a w' where m: "run_state m w = (a, w')" by fastforce
  have "trace w' = trace w @ emitted m w"
    using emits_True_trace[OF assms(1), of w] m by simp
  moreover have "trace (snd (run_state (f a) w')) = trace w' @ emitted (f a) w'"
    by (rule emits_True_trace[OF assms(2)])
  ultimately have "trace (snd (run_state (State_Monad.bind m f) w)) = trace w @ emitted m w @ emitted (f a) w'"
    using m by simp
  then show ?thesis using m by (simp add: emitted_def[of "State_Monad.bind m f"])
qed


subsection \<open>Justified events\<close>

text \<open>
  Every event of a run is justified by the events before it: \<open>J pre e\<close> says that \<open>e\<close> may
  follow \<open>pre\<close>. This is how "the operator only does this after it has seen that" is stated.
\<close>

definition justified :: "(event list \<Rightarrow> event \<Rightarrow> bool) \<Rightarrow> event list \<Rightarrow> bool" where
  "justified J es \<longleftrightarrow> (\<forall>pre e post. es = pre @ e # post \<longrightarrow> J pre e)"

lemma justified_Nil [simp]: "justified J []"
  by (simp add: justified_def)

lemma justified_snoc [simp]: "justified J (es @ [e]) \<longleftrightarrow> justified J es \<and> J es e"
proof
  assume J: "justified J (es @ [e])"
  have "J pre d" if "es = pre @ d # post" for pre d post
    using J that by (auto simp: justified_def)
  moreover have "J es e" using J by (auto simp: justified_def)
  ultimately show "justified J es \<and> J es e" by (auto simp: justified_def)
next
  assume "justified J es \<and> J es e"
  then show "justified J (es @ [e])"
    by (auto simp: justified_def append_eq_append_conv2 append_eq_Cons_conv Cons_eq_append_conv)
qed

lemma justified_single [simp]: "justified J [e] \<longleftrightarrow> J [] e"
  using justified_snoc[of J "[]" e] by simp

lemma justifiedD: "justified J (pre @ e # post) \<Longrightarrow> J pre e"
  by (simp add: justified_def)

text \<open>A world reached from \<open>w0\<close> whose new events satisfy a property of event lists.\<close>

definition reached :: "'w world \<Rightarrow> (event list \<Rightarrow> bool) \<Rightarrow> 'w world \<Rightarrow> bool" where
  "reached w0 P w \<longleftrightarrow> (\<exists>es. trace w = trace w0 @ es \<and> P es)"

lemma reached_self [simp]: "P [] \<Longrightarrow> reached w P w"
  by (simp add: reached_def)

lemma reached_outside [simp]: "reached w0 P (w\<lparr>outside := o'\<rparr>) = reached w0 P w"
  by (simp add: reached_def)

lemma reached_trace: "trace w' = trace w \<Longrightarrow> reached w0 P w' = reached w0 P w"
  by (simp add: reached_def)

lemma reached_step:
  "reached w0 P w \<Longrightarrow> trace w' = trace w @ [e] \<Longrightarrow> (\<And>es. P es \<Longrightarrow> Q (es @ [e])) \<Longrightarrow> reached w0 Q w'"
  by (auto simp: reached_def)

lemma reached_mono: "reached w0 P w \<Longrightarrow> (\<And>es. P es \<Longrightarrow> Q es) \<Longrightarrow> reached w0 Q w"
  by (auto simp: reached_def)

lemma reached_emitted: "reached w0 P (snd (run_state m w0)) \<longleftrightarrow>
    P (emitted m w0) \<and> trace (snd (run_state m w0)) = trace w0 @ emitted m w0"
  by (auto simp: reached_def emitted_def)

lemma wp_emitted:
  assumes "wp m (\<lambda>r w. reached w0 (P r) w) w0" and "run_state m w0 = (r, w')"
  shows "P r (emitted m w0)" and "trace w' = trace w0 @ emitted m w0"
  using assms reached_emitted[of w0 "P r" m] by (simp_all add: wp_def)

lemma wp_emits_reached:
  assumes "emits P m" and "reached w0 Q w" and "\<And>es fs. Q es \<Longrightarrow> Q (es @ fs)"
  shows "wp m (\<lambda>_. reached w0 Q) w"
proof (rule wpI)
  fix a w' assume "run_state m w = (a, w')"
  with assms(1) obtain fs where "trace w' = trace w @ fs" by (rule emitsD)
  with assms(2,3) show "reached w0 Q w'" by (auto simp: reached_def)
qed

lemma wp_silent:
  assumes "\<And>P. emits P m" and "reached w0 Q w" shows "wp m (\<lambda>_. reached w0 Q) w"
proof (rule wpI)
  fix a w' assume run: "run_state m w = (a, w')"
  from assms(1)[of "\<lambda>_. False"] run obtain es where "trace w' = trace w @ es" "list_all (\<lambda>_. False) es"
    by (rule emitsD)
  then have "trace w' = trace w" by (cases es) auto
  with assms(2) show "reached w0 Q w'" by (simp add: reached_def)
qed

lemma wp_effect_any:
  "(\<And>a w'. trace w' = trace w @ [e a] \<Longrightarrow> Q a w') \<Longrightarrow> wp (effect e f) Q w"
  by (simp add: wp_effect split: prod.split)

lemma wp_Now_any: "(\<And>t w'. trace w' = trace w \<Longrightarrow> Q t w') \<Longrightarrow> wp (Now env) Q w"
  by (auto simp: wp_Now split: prod.split)

lemma wp_all: "(\<And>a w'. Q a w') \<Longrightarrow> wp m Q w"
  by (simp add: wp_def split: prod.split)

lemma wp_justified_emits:
  assumes "emits P m" and "\<And>pre e. P e \<Longrightarrow> J pre e" and "reached w0 (justified J) w"
  shows "wp m (\<lambda>_. reached w0 (justified J)) w"
proof (rule wpI)
  fix a w' assume "run_state m w = (a, w')"
  with assms(1) obtain es where es: "trace w' = trace w @ es" "list_all P es" by (rule emitsD)
  from assms(3) obtain fs where fs: "trace w = trace w0 @ fs" "justified J fs" by (auto simp: reached_def)
  have "justified J (fs @ es)"
    using es(2) by (induction es rule: rev_induct) (auto simp: fs(2) assms(2) simp flip: append_assoc)
  with es fs show "reached w0 (justified J) w'" by (auto simp: reached_def)
qed

lemma reached_more:
  assumes "reached w0 (justified J) w" and "trace w' = trace w @ es" and "list_all (\<lambda>e. \<forall>pre. J pre e) es"
  shows "reached w0 (justified J) w'"
proof -
  from assms(1) obtain fs where fs: "trace w = trace w0 @ fs" "justified J fs" by (auto simp: reached_def)
  have "justified J (fs @ es)"
    using assms(3) by (induction es rule: rev_induct) (auto simp: fs(2) simp flip: append_assoc)
  with assms(2) fs show ?thesis by (auto simp: reached_def)
qed

text \<open>
  The interface of a safety argument about a run: which event may follow which, and which events may happen at any
  time. The parts of a reconcile that only emit events of the second kind keep every safety argument.
\<close>

locale justification =
  fixes J :: "event list \<Rightarrow> event \<Rightarrow> bool" and calm :: "event \<Rightarrow> bool"
  assumes anytime: "calm e \<Longrightarrow> J pre e"
begin

lemma calm_run:
  assumes "emits calm m" and "reached w0 (justified J) w"
  shows "wp m (\<lambda>_. reached w0 (justified J)) w"
  by (rule wp_justified_emits[OF assms(1) _ assms(2)]) (rule anytime)

lemma calm_then:
  assumes "emits calm m" and "reached w0 (justified J) w" and "\<And>a w'. reached w0 (justified J) w' \<Longrightarrow> Q a w'"
  shows "wp m Q w"
  by (rule wp_mono[OF calm_run[OF assms(1,2)]]) (rule assms(3))

lemma calm_more:
  assumes "reached w0 (justified J) w" and "trace w' = trace w @ es" and "list_all calm es"
  shows "reached w0 (justified J) w'"
  by (rule reached_more[OF assms(1,2)]) (use assms(3) in \<open>auto simp: list_all_iff anytime\<close>)

end

text \<open>Where evidence stays evidence whatever happened before it, a run and a part of it compose.\<close>

locale composable = justification +
  assumes more: "J pre e \<Longrightarrow> J (a @ pre) e"
begin

lemma justified_append:
  assumes "justified J es" "justified J fs" shows "justified J (es @ fs)"
  using assms(2)
proof (induction fs rule: rev_induct)
  case (snoc e fs)
  then show ?case using assms(1) more by (simp flip: append_assoc)
qed (simp add: assms(1))

lemma reached_append:
  assumes "reached w0 (justified J) w1" and "reached w1 (justified J) w2" shows "reached w0 (justified J) w2"
  using assms justified_append unfolding reached_def by (metis append_assoc)

end

subsection \<open>A concrete environment\<close>

text \<open>
  An environment to evaluate the model in: an API server with nothing in it that accepts every
  write, a \<^verbatim>\<open>kubectl\<close> that prints \<^verbatim>\<open>ok\<close>, a clock that stands still, and the helper functions as
  their documentation describes them. Witnesses override the fields they are about.
\<close>

definition set_condition :: "time \<Rightarrow> Condition list \<Rightarrow> Condition \<Rightarrow> Condition list \<times> bool" where
  "set_condition now cs c =
     (case find (\<lambda>d. c_Type d = c_Type c) cs of
        None \<Rightarrow> (cs @ [c\<lparr>c_LastTransitionTime := now\<rparr>], True)
      | Some d \<Rightarrow>
          (let d' = c\<lparr>c_LastTransitionTime :=
                 (if c_Status d = c_Status c then c_LastTransitionTime d else now)\<rparr>
           in (map (\<lambda>e. if c_Type e = c_Type c then d' else e) cs, d' \<noteq> d)))"

definition sample_env :: "'w env" where
  "sample_env = \<lparr>
     run_kubectl = (\<lambda>args w. (Inr ''ok'', w)),
     time_now = (\<lambda>w. (0, w)),
     get_cluster = (\<lambda>ns n w. (Inl (NotFound ''not found''), w)),
     get_user = (\<lambda>ns n w. (Inl (NotFound ''not found''), w)),
     get_bucket = (\<lambda>ns n w. (Inl (NotFound ''not found''), w)),
     get_sts = (\<lambda>ns n w. (Inl (NotFound ''not found''), w)),
     get_pvc = (\<lambda>ns n w. (Inl (NotFound ''not found''), w)),
     get_cert = (\<lambda>ns n w. (Inl (NotFound ''not found''), w)),
     get_secret = (\<lambda>ns n w. (Inl (NotFound ''not found''), w)),
     get_configmap = (\<lambda>ns n w. (Inl (NotFound ''not found''), w)),
     get_monitor = (\<lambda>k ns n w. (Inl (NotFound ''not found''), w)),
     list_pods = (\<lambda>ns ls w. (Inr [], w)),
     list_buckets = (\<lambda>ns w. (Inr [], w)),
     list_users = (\<lambda>ns w. (Inr [], w)),
     create_cert = (\<lambda>c w. (None, w)),
     create_secret = (\<lambda>c w. (None, w)),
     update_secret = (\<lambda>c w. (None, w)),
     update_cluster = (\<lambda>c w. (Inr c, w)),
     update_user = (\<lambda>c w. (Inr c, w)),
     update_bucket = (\<lambda>c w. (Inr c, w)),
     status_cluster = (\<lambda>c w. (Inr c, w)),
     status_user = (\<lambda>c w. (Inr c, w)),
     status_bucket = (\<lambda>c w. (Inr c, w)),
     patch_sts = (\<lambda>old new w. (None, w)),
     delete_obj = (\<lambda>k ns n w. (None, w)),
     cou_sts = (\<lambda>s f w. (None, w)),
     cou_service = (\<lambda>s f w. (None, w)),
     cou_pdb = (\<lambda>s f w. (None, w)),
     cou_configmap = (\<lambda>s f w. (None, w)),
     cou_monitor = (\<lambda>k s f w. (None, w)),
     SetStatusCondition = set_condition,
     RemoveStatusCondition = (\<lambda>cs t. filter (\<lambda>c. c_Type c \<noteq> t) cs),
     FindStatusCondition = (\<lambda>cs t. find (\<lambda>c. c_Type c = t) cs),
     ContainsFinalizer = (\<lambda>m f. f \<in> set (m_Finalizers m)),
     AddFinalizer = (\<lambda>m f. if f \<in> set (m_Finalizers m) then m else m\<lparr>m_Finalizers := m_Finalizers m @ [f]\<rparr>),
     RemoveFinalizer = (\<lambda>m f. m\<lparr>m_Finalizers := filter (\<lambda>g. g \<noteq> f) (m_Finalizers m)\<rparr>),
     SetControllerReference = (\<lambda>own m. Inr (m\<lparr>m_OwnerReferences := [m_UID own]\<rparr>)),
     SetControllerReferenceU = (\<lambda>own u. Inr u),
     NestedSlice = (\<lambda>u path. Inr None),
     MustParse = (\<lambda>s. Quantity 0 s),
     json_Unmarshal = (\<lambda>s. Inl ''invalid character''),
     json_Marshal = (\<lambda>j. Inr ''{}''),
     pem_Decode = (\<lambda>s. None),
     pem_Encode = (\<lambda>b. Inr (pb_Bytes b)),
     x509_Parse = (\<lambda>b. Inr \<lparr>crt_Raw = b, crt_CommonName = b, crt_NotAfter = 0\<rparr>),
     x509_Verify = (\<lambda>leaf roots inter now. None)\<rparr>"

definition start :: "'w \<Rightarrow> 'w world" where
  "start w = \<lparr>outside = w, trace = []\<rparr>"

lemma start_simps [simp]: "outside (start w) = w" "trace (start w) = []"
  by (simp_all add: start_def)

text \<open>A cluster of a given size with every optional part left out.\<close>

definition sample_spec :: "int \<Rightarrow> RiakClusterSpec" where
  "sample_spec n = \<lparr>cls_Size = n, cls_Image = [], cls_ImagePullPolicy = [], cls_Resources = None,
     cls_StorageClassName = [], cls_StorageSize = None, cls_EphemeralStorage = False, cls_RiakConfig = [],
     cls_TLS = None, cls_Monitoring = None, cls_ServicePort = 0, cls_NodeSelector = [],
     cls_PodAntiAffinity = [], cls_PodSecurityContext = None, cls_ReadOnlyRootFilesystem = False,
     cls_Rollout = None, cls_TerminationGracePeriodSeconds = None, cls_PodDisruptionBudget = None\<rparr>"

definition sample_status :: RiakClusterStatus where
  "sample_status = \<lparr>clt_Phase = [], clt_ReadyNodes = 0, clt_TotalNodes = 0, clt_Conditions = [],
     clt_LastUpdateTime = None, clt_Members = [], clt_SecurityEnabled = False, clt_StorageClassName = [],
     clt_StorageSize = [], clt_EphemeralStorage = False, clt_TLSStatus = empty_TLSStatus,
     clt_MonitoringStatus = empty_MonitoringStatus, clt_Buckets = [], clt_Users = [], clt_NodeConditions = []\<rparr>"

definition sample_cluster :: "int \<Rightarrow> RiakCluster" where
  "sample_cluster n = \<lparr>cl_Meta = new_meta ''c'' ''ns'', cl_Spec = sample_spec n, cl_Status = sample_status\<rparr>"

definition sample_member :: "string \<Rightarrow> RiakNodeMember" where
  "sample_member pod = \<lparr>nm_Name = pod, nm_Pod = pod, nm_Ready = True, nm_Health = NodeHealthy, nm_Phase = ''Running'',
     nm_StorageReady = True, nm_Conditions = []\<rparr>"

end
