(* ===== verification/Executor.thy ===== *)
theory Executor
  imports World
begin

text \<open>
  The executor (\<^verbatim>\<open>internal/riak/executor.go\<close>): running \<^verbatim>\<open>riak-admin\<close> inside a pod through
  \<^verbatim>\<open>kubectl exec\<close>, recognising failures in its output, parsing its tables and composing the
  security and bucket-type commands. Logging and the 30 second timeout of the call are not
  modelled: a timeout is one of the errors the runner may return.
\<close>

definition NL :: char where "NL = CHR 0x0A"

definition riakContainer :: string where "riakContainer = ''riak''"

subsection \<open>Failures in the output\<close>

definition nodeNotResponding :: "string \<Rightarrow> bool" where
  "nodeNotResponding line \<longleftrightarrow> HasPrefix line ''Node '' \<and> HasSuffix line '' is not responding to pings''"

text \<open>The loop of \<^verbatim>\<open>riakAdminFailed\<close> over the lines, with the last non-empty line so far.\<close>

fun failed_loop :: "string list \<Rightarrow> string \<Rightarrow> bool" where
  "failed_loop [] lst = (lst = ''error'')"
| "failed_loop (l # ls) lst =
     (let line = TrimSpace l
      in if line = [] then failed_loop ls lst
         else if HasPrefix line ''{error,'' \<or> nodeNotResponding line then True
         else failed_loop ls line)"

definition riakAdminFailed :: "string \<Rightarrow> bool" where
  "riakAdminFailed out = failed_loop (Split out NL) []"

definition subcommand :: "string list \<Rightarrow> string list" where
  "subcommand args = (if length args > 2 then take 2 args else args)"

definition compactOutput :: "string \<Rightarrow> string" where
  "compactOutput out =
     (let s = Join (Fields out) '' ''
      in if length s > 300 then take 300 s @ ''...'' else s)"

subsection \<open>Running a command\<close>

definition vmargsScript :: string where
  "vmargsScript = ''VMARGS_PATH=$(ls -1 /var/lib/riak/generated.conf/vm.*.args 2>/dev/null | tail -1) exec riak-admin '' @
     [CHR 0x22] @ ''$@'' @ [CHR 0x22]"

definition execBase :: "string \<Rightarrow> string \<Rightarrow> string \<Rightarrow> string list" where
  "execBase namespace podName containerName =
     [''exec'', ''-n'', namespace, podName, ''-c'', containerName, ''--'',
      ''sh'', ''-c'', vmargsScript, ''riak-admin'']"

text \<open>
  The result is Go's pair: the output and the error (\<open>None\<close> for \<^verbatim>\<open>nil\<close>). A failure reported in
  the output comes back with the output.
\<close>

definition ExecuteRiakAdmin ::
  "'w env \<Rightarrow> string \<Rightarrow> string \<Rightarrow> string \<Rightarrow> string list \<Rightarrow> ('w, string \<times> error option) action" where
  "ExecuteRiakAdmin env namespace podName containerName args = do {
     let cmdArgs = execBase namespace podName containerName @ args;
     r \<leftarrow> effect (Exec cmdArgs) (run_kubectl env cmdArgs);
     return (case r of
         Inl err \<Rightarrow> ([], Some (''riak-admin failed: '' @ err))
       | Inr out \<Rightarrow>
           if riakAdminFailed out
           then (out, Some (''riak-admin '' @ Join (subcommand args) '' '' @ '' failed: '' @ compactOutput out))
           else (out, None))
   }"

subsection \<open>Ring membership\<close>

definition memberStatusValid :: string where "memberStatusValid = ''valid''"

record ClusterMember =
  cm_Status :: string
  cm_Node :: string

fun member_lines :: "string list \<Rightarrow> string list" where
  "member_lines [] = []"
| "member_lines (l # ls) =
     (let line = TrimSpace l
      in if line = [] \<or> HasPrefix line ''---'' \<or> Contains line ''Status'' then member_lines ls
         else (case Fields line of [] \<Rightarrow> member_lines ls | f # _ \<Rightarrow> f # member_lines ls))"

definition GetClusterMembers ::
  "'w env \<Rightarrow> string \<Rightarrow> string \<Rightarrow> string \<Rightarrow> ('w, string list res) action" where
  "GetClusterMembers env namespace podName containerName = do {
     (output, err) \<leftarrow> ExecuteRiakAdmin env namespace podName containerName [''member-status''];
     (case err of
        Some e \<Rightarrow> return (Inl e)
      | None \<Rightarrow> return (Inr (member_lines (Split output NL))))
   }"

definition member_of_fields :: "string list \<Rightarrow> ClusterMember option" where
  "member_of_fields f =
     (if length f \<noteq> 4 \<or> \<not> HasPrefix (f ! 3) ''riak@'' then None
      else if f ! 0 \<in> set [memberStatusValid, ''joining'', ''leaving'', ''exiting'', ''down'']
      then Some \<lparr>cm_Status = f ! 0, cm_Node = f ! 3\<rparr>
      else None)"

definition parseMemberStatus :: "string \<Rightarrow> ClusterMember list" where
  "parseMemberStatus output = List.map_filter (\<lambda>line. member_of_fields (Fields line)) (Split output NL)"

definition MemberStatus ::
  "'w env \<Rightarrow> string \<Rightarrow> string \<Rightarrow> string \<Rightarrow> ('w, ClusterMember list res) action" where
  "MemberStatus env namespace podName containerName = do {
     (out, err) \<leftarrow> ExecuteRiakAdmin env namespace podName containerName [''member-status''];
     (case err of
        Some e \<Rightarrow> return (Inl e)
      | None \<Rightarrow> return (Inr (parseMemberStatus out)))
   }"

subsection \<open>Transfers\<close>

fun transfers_loop :: "string list \<Rightarrow> bool \<Rightarrow> bool" where
  "transfers_loop [] inActive = True"
| "transfers_loop (l # ls) inActive =
     (let line = TrimSpace l
      in if line = ''active transfers:'' then transfers_loop ls True
         else if inActive \<and> line \<noteq> [] \<and> line \<noteq> ''ok'' then False
         else transfers_loop ls inActive)"

definition parseTransfersIdle :: "string \<Rightarrow> bool" where
  "parseTransfersIdle out =
     (let lower = ToLower out
      in if Contains lower ''waiting to handoff'' \<or> \<not> Contains lower ''no transfers active'' then False
         else transfers_loop (Split lower NL) False)"

definition TransfersIdle ::
  "'w env \<Rightarrow> string \<Rightarrow> string \<Rightarrow> string \<Rightarrow> ('w, (bool \<times> string) res) action" where
  "TransfersIdle env namespace podName containerName = do {
     (out, err) \<leftarrow> ExecuteRiakAdmin env namespace podName containerName [''transfers''];
     (case err of
        Some e \<Rightarrow> return (Inl e)
      | None \<Rightarrow> return (Inr (parseTransfersIdle out, compactOutput out)))
   }"

subsection \<open>Cluster commands\<close>

definition JoinCluster ::
  "'w env \<Rightarrow> string \<Rightarrow> string \<Rightarrow> string \<Rightarrow> string \<Rightarrow> ('w, error option) action" where
  "JoinCluster env namespace podName containerName targetNode = do {
     (_, err) \<leftarrow> ExecuteRiakAdmin env namespace podName containerName [''cluster'', ''join'', targetNode];
     return err
   }"

definition PlanCluster ::
  "'w env \<Rightarrow> string \<Rightarrow> string \<Rightarrow> string \<Rightarrow> string \<Rightarrow> ('w, string \<times> error option) action" where
  "PlanCluster env namespace podName containerName act =
     ExecuteRiakAdmin env namespace podName containerName [''cluster'', act]"

definition CommitCluster ::
  "'w env \<Rightarrow> string \<Rightarrow> string \<Rightarrow> string \<Rightarrow> ('w, string \<times> error option) action" where
  "CommitCluster env namespace podName containerName =
     ExecuteRiakAdmin env namespace podName containerName [''cluster'', ''commit'']"

definition GetStatus ::
  "'w env \<Rightarrow> string \<Rightarrow> string \<Rightarrow> string \<Rightarrow> ('w, string \<times> error option) action" where
  "GetStatus env namespace podName containerName =
     ExecuteRiakAdmin env namespace podName containerName [''status'']"

subsection \<open>Bucket types\<close>

text \<open>A property whose value parses as JSON is sent as that value, any other as a string.\<close>

definition bucketProps :: "'w env \<Rightarrow> gomap \<Rightarrow> (string \<times> json) list" where
  "bucketProps env properties =
     map (\<lambda>(k, v). (k, case json_Unmarshal env v of Inr parsed \<Rightarrow> parsed | Inl _ \<Rightarrow> JString v)) properties"

definition CreateBucket ::
  "'w env \<Rightarrow> string \<Rightarrow> string \<Rightarrow> string \<Rightarrow> string \<Rightarrow> gomap \<Rightarrow> ('w, error option) action" where
  "CreateBucket env namespace podName containerName bucketType properties =
     (case json_Marshal env (JObject [(''props'', JObject (bucketProps env properties))]) of
        Inl e \<Rightarrow> return (Some (''failed to marshal bucket properties: '' @ e))
      | Inr propsJSON \<Rightarrow> do {
          (_, err) \<leftarrow> ExecuteRiakAdmin env namespace podName containerName
            [''bucket-type'', ''create'', bucketType, propsJSON];
          (case err of
             None \<Rightarrow> do {
               (_, err') \<leftarrow> ExecuteRiakAdmin env namespace podName containerName
                 [''bucket-type'', ''activate'', bucketType];
               return (case err' of
                   Some e \<Rightarrow> if Contains e ''already'' then None else Some e
                 | None \<Rightarrow> None)
             }
           | Some e \<Rightarrow>
               if Contains e ''already_active'' \<or> Contains e ''default_type'' then
                 (if bucketProps env properties = [] then return None
                  else do {
                    (_, err') \<leftarrow> ExecuteRiakAdmin env namespace podName containerName
                      [''bucket-type'', ''update'', bucketType, propsJSON];
                    return err'
                  })
               else return (Some e))
        })"

subsection \<open>Security commands\<close>

definition CreateUserForCert ::
  "'w env \<Rightarrow> string \<Rightarrow> string \<Rightarrow> string \<Rightarrow> string \<Rightarrow> ('w, error option) action" where
  "CreateUserForCert env namespace podName containerName username = do {
     (_, err) \<leftarrow> ExecuteRiakAdmin env namespace podName containerName [''security'', ''add-user'', username];
     return (case err of
         Some e \<Rightarrow> if Contains e ''role_exists'' then None else Some e
       | None \<Rightarrow> None)
   }"

definition EnableSecurity ::
  "'w env \<Rightarrow> string \<Rightarrow> string \<Rightarrow> string \<Rightarrow> ('w, error option) action" where
  "EnableSecurity env namespace podName containerName = do {
     (_, err) \<leftarrow> ExecuteRiakAdmin env namespace podName containerName [''security'', ''enable''];
     return (case err of
         Some e \<Rightarrow> if Contains e ''already'' then None else Some e
       | None \<Rightarrow> None)
   }"

definition AddSecuritySource ::
  "'w env \<Rightarrow> string \<Rightarrow> string \<Rightarrow> string \<Rightarrow> string \<Rightarrow> ('w, error option) action" where
  "AddSecuritySource env namespace podName containerName username = do {
     (_, err) \<leftarrow> ExecuteRiakAdmin env namespace podName containerName
       [''security'', ''add-source'', username, ''0.0.0.0/0'', ''certificate''];
     return err
   }"

definition riakKVPermissions :: "string \<Rightarrow> string" where
  "riakKVPermissions permission =
     (if permission = ''read'' then ''riak_kv.get''
      else if permission = ''write'' then ''riak_kv.put''
      else if permission = ''delete'' then ''riak_kv.delete''
      else if permission = ''list'' then ''riak_kv.list_keys,riak_kv.list_buckets''
      else if permission = ''admin''
        then ''riak_kv.get,riak_kv.put,riak_kv.delete,riak_kv.list_keys,riak_kv.list_buckets''
      else permission)"

definition resourceAny :: string where "resourceAny = ''any''"

definition grantTarget :: "string \<Rightarrow> string \<Rightarrow> string list res" where
  "grantTarget resource bucket =
     (if resource = resourceAny then Inr [resourceAny]
      else if resource = ''bucket'' then
        (let target = Fields bucket
         in if target = [] then Inl ''bucket grant requires a bucket target'' else Inr target)
      else Inl (''unknown grant resource '' @ Quote resource))"

text \<open>The inner loop of \<^verbatim>\<open>permissionTokens\<close>: tokens in first-seen order.\<close>

fun token_loop :: "(string \<Rightarrow> bool) \<Rightarrow> string list \<Rightarrow> string list" where
  "token_loop seen [] = []"
| "token_loop seen (t # ts) =
     (if seen t then token_loop seen ts else t # token_loop (seen(t := True)) ts)"

definition permissionTokens :: "string list \<Rightarrow> string list" where
  "permissionTokens permissions =
     token_loop (\<lambda>_. False) (concat (map (\<lambda>p. Split (riakKVPermissions p) (CHR '','')) permissions))"

definition GrantPermissions ::
  "'w env \<Rightarrow> string \<Rightarrow> string \<Rightarrow> string \<Rightarrow> string \<Rightarrow> string \<Rightarrow> string \<Rightarrow> string list \<Rightarrow>
    ('w, error option) action" where
  "GrantPermissions env namespace podName containerName username resource bucket permissions =
     (case grantTarget resource bucket of
        Inl e \<Rightarrow> return (Some e)
      | Inr target \<Rightarrow> do {
          let args = [''security'', ''grant'', Join (permissionTokens permissions) '','', ''on''] @
            target @ [''to'', username];
          (_, err) \<leftarrow> ExecuteRiakAdmin env namespace podName containerName args;
          return err
        })"

definition GrantPermission ::
  "'w env \<Rightarrow> string \<Rightarrow> string \<Rightarrow> string \<Rightarrow> string \<Rightarrow> string \<Rightarrow> string \<Rightarrow> string \<Rightarrow>
    ('w, error option) action" where
  "GrantPermission env namespace podName containerName username resource permission bucket =
     GrantPermissions env namespace podName containerName username resource bucket [permission]"

definition RevokePermissions ::
  "'w env \<Rightarrow> string \<Rightarrow> string \<Rightarrow> string \<Rightarrow> string \<Rightarrow> string \<Rightarrow> string \<Rightarrow> string list \<Rightarrow>
    ('w, error option) action" where
  "RevokePermissions env namespace podName containerName username resource bucket tokens =
     (case grantTarget resource bucket of
        Inl e \<Rightarrow> return (Some e)
      | Inr target \<Rightarrow> do {
          let args = [''security'', ''revoke'', Join tokens '','', ''on''] @ target @ [''from'', username];
          (_, err) \<leftarrow> ExecuteRiakAdmin env namespace podName containerName args;
          return err
        })"

definition DeleteUser ::
  "'w env \<Rightarrow> string \<Rightarrow> string \<Rightarrow> string \<Rightarrow> string \<Rightarrow> ('w, error option) action" where
  "DeleteUser env namespace podName containerName username = do {
     (_, err) \<leftarrow> ExecuteRiakAdmin env namespace podName containerName [''security'', ''del-user'', username];
     return (case err of
         Some e \<Rightarrow> if Contains e ''unknown_user'' then None else Some e
       | None \<Rightarrow> None)
   }"

subsection \<open>The grants Riak reports\<close>

record GrantEntry =
  ge_Type :: string
  ge_Bucket :: string
  ge_Tokens :: "string list"

definition row_tokens :: "string \<Rightarrow> string list" where
  "row_tokens col = filter (\<lambda>t. t \<noteq> []) (map TrimSpace (Split col (CHR '','')))"

definition append_to_last :: "GrantEntry list \<Rightarrow> string list \<Rightarrow> GrantEntry list" where
  "append_to_last entries tokens =
     butlast entries @ [(last entries)\<lparr>ge_Tokens := ge_Tokens (last entries) @ tokens\<rparr>]"

text \<open>One table row below the section header; the entries are kept in order.\<close>

definition grant_row :: "string \<Rightarrow> GrantEntry list \<Rightarrow> GrantEntry list" where
  "grant_row line entries =
     (case Split (Trim line (CHR ''|'')) (CHR ''|'') of
        [c0, c1, c2] \<Rightarrow>
          (let typ = TrimSpace c0; bucket = TrimSpace c1
           in if typ = ''type'' then entries
              else if typ = [] \<and> entries \<noteq> [] then append_to_last entries (row_tokens c2)
              else entries @ [\<lparr>ge_Type = typ, ge_Bucket = bucket, ge_Tokens = row_tokens c2\<rparr>])
      | _ \<Rightarrow> entries)"

fun grants_loop :: "string list \<Rightarrow> bool \<Rightarrow> GrantEntry list \<Rightarrow> GrantEntry list" where
  "grants_loop [] inSection entries = entries"
| "grants_loop (line # ls) inSection entries =
     (if HasPrefix line ''Dedicated permissions'' then grants_loop ls True entries
      else if HasPrefix line ''Cumulative permissions'' then entries
      else if \<not> inSection \<or> \<not> HasPrefix line ''|'' then grants_loop ls inSection entries
      else grants_loop ls inSection (grant_row line entries))"

definition parseDedicatedGrants :: "string \<Rightarrow> GrantEntry list" where
  "parseDedicatedGrants output = grants_loop (Split output NL) False []"

definition GetUserGrants ::
  "'w env \<Rightarrow> string \<Rightarrow> string \<Rightarrow> string \<Rightarrow> string \<Rightarrow> ('w, GrantEntry list res) action" where
  "GetUserGrants env namespace podName containerName username = do {
     (out, err) \<leftarrow> ExecuteRiakAdmin env namespace podName containerName
       [''security'', ''print-grants'', username];
     (case err of
        Some e \<Rightarrow> return (Inl e)
      | None \<Rightarrow> return (Inr (parseDedicatedGrants out)))
   }"

subsection \<open>Running a command: what it does and when it succeeds\<close>

abbreviation riak_cmd :: "string \<Rightarrow> string \<Rightarrow> string \<Rightarrow> string list \<Rightarrow> string res \<Rightarrow> event" where
  "riak_cmd namespace podName containerName args r \<equiv>
     Exec (execBase namespace podName containerName @ args) r"

text \<open>The reply \<^verbatim>\<open>kubectl\<close> gives to a command in a world.\<close>

definition reply :: "'w env \<Rightarrow> string \<Rightarrow> string \<Rightarrow> string \<Rightarrow> string list \<Rightarrow> 'w world \<Rightarrow> string res" where
  "reply env ns pod c args w = fst (run_kubectl env (execBase ns pod c @ args) (outside w))"

lemma emits_ExecuteRiakAdmin [emits_rules]:
  "(\<And>r. P (riak_cmd ns pod c args r)) \<Longrightarrow> emits P (ExecuteRiakAdmin env ns pod c args)"
  unfolding ExecuteRiakAdmin_def by (auto intro!: emits_rules)

definition admin_result :: "string list \<Rightarrow> string res \<Rightarrow> string \<times> error option" where
  "admin_result args r = (case r of
       Inl err \<Rightarrow> ([], Some (''riak-admin failed: '' @ err))
     | Inr out \<Rightarrow>
         if riakAdminFailed out
         then (out, Some (''riak-admin '' @ Join (subcommand args) '' '' @ '' failed: '' @ compactOutput out))
         else (out, None))"

lemma run_ExecuteRiakAdmin:
  "run_state (ExecuteRiakAdmin env ns pod c args) w =
    (case run_kubectl env (execBase ns pod c @ args) (outside w) of
       (r, o') \<Rightarrow> (admin_result args r, w\<lparr>outside := o', trace := trace w @ [riak_cmd ns pod c args r]\<rparr>))"
  by (simp add: ExecuteRiakAdmin_def Let_def effect_def admin_result_def split: prod.split sum.split)

lemma admin_result_ok:
  "admin_result args r = (out, None) \<longleftrightarrow> r = Inr out \<and> \<not> riakAdminFailed out"
  by (auto simp: admin_result_def split: sum.splits if_splits)

lemma ExecuteRiakAdmin_trace:
  "run_state (ExecuteRiakAdmin env ns pod c args) w = (r, w') \<Longrightarrow>
   r = admin_result args (reply env ns pod c args w) \<and>
   trace w' = trace w @ [riak_cmd ns pod c args (reply env ns pod c args w)]"
  by (auto simp: run_ExecuteRiakAdmin reply_def split: prod.splits)

text \<open>Whatever the reply, one command was run: the rule for reasoning about every outcome.\<close>

lemma wp_admin:
  "(\<And>r o'. Q (admin_result args r) (w\<lparr>outside := o', trace := trace w @ [riak_cmd ns pod c args r]\<rparr>)) \<Longrightarrow>
   wp (ExecuteRiakAdmin env ns pod c args) Q w"
  by (auto simp: wp_def run_ExecuteRiakAdmin split: prod.split) metis

lemma execBase_inject [simp]:
  "execBase ns pod c @ args = execBase ns' pod' c' @ args' \<longleftrightarrow> ns = ns' \<and> pod = pod' \<and> c = c' \<and> args = args'"
  by (auto simp: execBase_def)

text \<open>
  The interface of the commands that run one \<^verbatim>\<open>riak-admin\<close> command and turn the errors an
  idempotent caller expects into success.
\<close>

locale single_command =
  fixes cmd :: "'w env \<Rightarrow> string \<Rightarrow> string \<Rightarrow> string \<Rightarrow> ('w, error option) action"
    and args :: "string list"
    and tolerates :: "error \<Rightarrow> bool"
  assumes run_cmd: "run_state (cmd env ns pod c) w =
    (case run_state (ExecuteRiakAdmin env ns pod c args) w of
       ((out, err), w') \<Rightarrow> (Option.bind err (\<lambda>e. if tolerates e then None else Some e), w'))"
begin

lemma cmd_trace:
  "trace (snd (run_state (cmd env ns pod c) w)) = trace w @ [riak_cmd ns pod c args (reply env ns pod c args w)]"
  by (simp add: run_cmd run_ExecuteRiakAdmin reply_def split: prod.split)

lemma emits_cmd: "(\<And>r. P (riak_cmd ns pod c args r)) \<Longrightarrow> emits P (cmd env ns pod c)"
  by (rule emitsI) (simp add: cmd_trace)

lemma cmd_result:
  "fst (run_state (cmd env ns pod c) w) =
    Option.bind (snd (admin_result args (reply env ns pod c args w)))
      (\<lambda>e. if tolerates e then None else Some e)"
  by (simp add: run_cmd run_ExecuteRiakAdmin reply_def split: prod.split)

lemma wp_cmd:
  "(\<And>r o'. Q (Option.bind (snd (admin_result args r)) (\<lambda>e. if tolerates e then None else Some e))
      (w\<lparr>outside := o', trace := trace w @ [riak_cmd ns pod c args r]\<rparr>)) \<Longrightarrow>
   wp (cmd env ns pod c) Q w"
  by (auto simp: wp_def run_cmd run_ExecuteRiakAdmin split: prod.split) (metis snd_conv)

lemma cmd_succeeds_iff:
  "fst (run_state (cmd env ns pod c) w) = None \<longleftrightarrow>
    (case snd (admin_result args (reply env ns pod c args w)) of None \<Rightarrow> True | Some e \<Rightarrow> tolerates e)"
  by (auto simp: cmd_result split: option.split)

end

interpretation enable_security: single_command EnableSecurity "[''security'', ''enable'']"
    "\<lambda>e. Contains e ''already''"
  by unfold_locales (auto simp: EnableSecurity_def split: prod.split option.split)

interpretation add_user: single_command "\<lambda>env ns pod c. CreateUserForCert env ns pod c u"
    "[''security'', ''add-user'', u]" "\<lambda>e. Contains e ''role_exists''" for u
  by unfold_locales (auto simp: CreateUserForCert_def split: prod.split option.split)

interpretation add_source: single_command "\<lambda>env ns pod c. AddSecuritySource env ns pod c u"
    "[''security'', ''add-source'', u, ''0.0.0.0/0'', ''certificate'']" "\<lambda>e. False" for u
  by unfold_locales (auto simp: AddSecuritySource_def split: prod.split option.split bind_splits)

interpretation del_user: single_command "\<lambda>env ns pod c. DeleteUser env ns pod c u"
    "[''security'', ''del-user'', u]" "\<lambda>e. Contains e ''unknown_user''" for u
  by unfold_locales (auto simp: DeleteUser_def split: prod.split option.split)

interpretation join: single_command "\<lambda>env ns pod c. JoinCluster env ns pod c node"
    "[''cluster'', ''join'', node]" "\<lambda>e. False" for node
  by unfold_locales (auto simp: JoinCluster_def split: prod.split option.split bind_splits)

lemmas emits_commands [emits_rules] =
  enable_security.emits_cmd add_user.emits_cmd add_source.emits_cmd del_user.emits_cmd join.emits_cmd

lemma emits_MemberStatus [emits_rules]:
  "(\<And>r. P (riak_cmd ns pod c [''member-status''] r)) \<Longrightarrow> emits P (MemberStatus env ns pod c)"
  unfolding MemberStatus_def by (auto intro!: emits_rules)

lemma emits_TransfersIdle [emits_rules]:
  "(\<And>r. P (riak_cmd ns pod c [''transfers''] r)) \<Longrightarrow> emits P (TransfersIdle env ns pod c)"
  unfolding TransfersIdle_def by (auto intro!: emits_rules)

lemma emits_GetUserGrants [emits_rules]:
  "(\<And>r. P (riak_cmd ns pod c [''security'', ''print-grants'', u] r)) \<Longrightarrow> emits P (GetUserGrants env ns pod c u)"
  unfolding GetUserGrants_def by (auto intro!: emits_rules)

lemma emits_GrantPermissions [emits_rules]:
  "(\<And>args r. P (riak_cmd ns pod c ([''security'', ''grant''] @ args) r)) \<Longrightarrow>
   emits P (GrantPermissions env ns pod c u r b ps)"
  unfolding GrantPermissions_def by (auto intro!: emits_rules)

lemma emits_RevokePermissions [emits_rules]:
  "(\<And>args r. P (riak_cmd ns pod c ([''security'', ''revoke''] @ args) r)) \<Longrightarrow>
   emits P (RevokePermissions env ns pod c u r b ps)"
  unfolding RevokePermissions_def by (auto intro!: emits_rules)

lemma emits_CreateBucket [emits_rules]:
  "(\<And>args r. P (riak_cmd ns pod c (''bucket-type'' # args) r)) \<Longrightarrow>
   emits P (CreateBucket env ns pod c t props)"
  unfolding CreateBucket_def by (auto intro!: emits_rules)

subsection \<open>Reasoning about the commands\<close>

definition riak_args :: "event \<Rightarrow> string list" where
  "riak_args e = (case e of Exec a r \<Rightarrow> drop 11 a | _ \<Rightarrow> [])"

lemma riak_args_cmd [simp]: "riak_args (riak_cmd ns pod c args r) = args"
  by (simp add: riak_args_def execBase_def)

definition cmd_event :: "string \<Rightarrow> string \<Rightarrow> string \<Rightarrow> string list \<Rightarrow> string res \<Rightarrow> 'w world \<Rightarrow> 'w world \<Rightarrow> bool" where
  "cmd_event ns pod c args r w w' \<longleftrightarrow> trace w' = trace w @ [riak_cmd ns pod c args r]"

lemma wp_admin_cases:
  assumes "\<And>out w'. \<not> riakAdminFailed out \<Longrightarrow> cmd_event ns pod c args (Inr out) w w' \<Longrightarrow> Q (out, None) w'"
    and "\<And>r out e w'. snd (admin_result args r) = Some e \<Longrightarrow> cmd_event ns pod c args r w w' \<Longrightarrow> Q (out, Some e) w'"
  shows "wp (ExecuteRiakAdmin env ns pod c args) Q w"
proof (rule wp_admin)
  fix r o'
  let ?w = "w\<lparr>outside := o', trace := trace w @ [riak_cmd ns pod c args r]\<rparr>"
  obtain out err where p: "admin_result args r = (out, err)" by fastforce
  have ev: "cmd_event ns pod c args r w ?w" by (simp add: cmd_event_def)
  show "Q (admin_result args r) ?w"
  proof (cases err)
    case None
    with p have "r = Inr out" "\<not> riakAdminFailed out" by (simp_all add: admin_result_ok)
    with assms(1) ev None show ?thesis unfolding p by simp
  next
    case (Some e)
    with p have "snd (admin_result args r) = Some e" by simp
    with assms(2)[OF _ ev] Some show ?thesis unfolding p by simp
  qed
qed

lemma wp_MemberStatus:
  assumes "\<And>out w'. \<not> riakAdminFailed out \<Longrightarrow> cmd_event ns pod c [''member-status''] (Inr out) w w' \<Longrightarrow>
      Q (Inr (parseMemberStatus out)) w'"
    and "\<And>r e w'. snd (admin_result [''member-status''] r) = Some e \<Longrightarrow>
      cmd_event ns pod c [''member-status''] r w w' \<Longrightarrow> Q (Inl e) w'"
  shows "wp (MemberStatus env ns pod c) Q w"
  by (auto simp: MemberStatus_def intro!: wp_admin_cases assms)

lemma wp_GetUserGrants:
  assumes "\<And>out w'. \<not> riakAdminFailed out \<Longrightarrow> cmd_event ns pod c [''security'', ''print-grants'', u] (Inr out) w w' \<Longrightarrow>
      Q (Inr (parseDedicatedGrants out)) w'"
    and "\<And>r e w'. snd (admin_result [''security'', ''print-grants'', u] r) = Some e \<Longrightarrow>
      cmd_event ns pod c [''security'', ''print-grants'', u] r w w' \<Longrightarrow> Q (Inl e) w'"
  shows "wp (GetUserGrants env ns pod c u) Q w"
  by (auto simp: GetUserGrants_def intro!: wp_admin_cases assms)

lemma wp_JoinCluster:
  assumes "\<And>out w'. \<not> riakAdminFailed out \<Longrightarrow> cmd_event ns pod c [''cluster'', ''join'', node] (Inr out) w w' \<Longrightarrow> Q None w'"
    and "\<And>r e w'. snd (admin_result [''cluster'', ''join'', node] r) = Some e \<Longrightarrow>
      cmd_event ns pod c [''cluster'', ''join'', node] r w w' \<Longrightarrow> Q (Some e) w'"
  shows "wp (JoinCluster env ns pod c node) Q w"
  by (auto simp: JoinCluster_def intro!: wp_admin_cases assms)

lemma wp_GrantPermissions:
  assumes "\<And>target out w'. grantTarget resource bucket = Inr target \<Longrightarrow> \<not> riakAdminFailed out \<Longrightarrow>
      cmd_event ns pod c ([''security'', ''grant'', Join (permissionTokens ps) '','', ''on''] @ target @ [''to'', u])
        (Inr out) w w' \<Longrightarrow> Q None w'"
    and "\<And>e. grantTarget resource bucket = Inl e \<Longrightarrow> Q (Some e) w"
    and "\<And>target r e w'. grantTarget resource bucket = Inr target \<Longrightarrow>
      snd (admin_result ([''security'', ''grant'', Join (permissionTokens ps) '','', ''on''] @ target @ [''to'', u]) r) = Some e \<Longrightarrow>
      cmd_event ns pod c ([''security'', ''grant'', Join (permissionTokens ps) '','', ''on''] @ target @ [''to'', u]) r w w' \<Longrightarrow>
      Q (Some e) w'"
  shows "wp (GrantPermissions env ns pod c u resource bucket ps) Q w"
  using assms(1,3)[simplified] assms(2)
  by (auto simp: GrantPermissions_def Let_def split: sum.split intro!: wp_admin_cases)

lemma wp_RevokePermissions:
  assumes "\<And>target out w'. grantTarget resource bucket = Inr target \<Longrightarrow> \<not> riakAdminFailed out \<Longrightarrow>
      cmd_event ns pod c ([''security'', ''revoke'', Join tokens '','', ''on''] @ target @ [''from'', u])
        (Inr out) w w' \<Longrightarrow> Q None w'"
    and "\<And>e. grantTarget resource bucket = Inl e \<Longrightarrow> Q (Some e) w"
    and "\<And>target r e w'. grantTarget resource bucket = Inr target \<Longrightarrow>
      snd (admin_result ([''security'', ''revoke'', Join tokens '','', ''on''] @ target @ [''from'', u]) r) = Some e \<Longrightarrow>
      cmd_event ns pod c ([''security'', ''revoke'', Join tokens '','', ''on''] @ target @ [''from'', u]) r w w' \<Longrightarrow>
      Q (Some e) w'"
  shows "wp (RevokePermissions env ns pod c u resource bucket tokens) Q w"
  using assms(1,3)[simplified] assms(2)
  by (auto simp: RevokePermissions_def Let_def split: sum.split intro!: wp_admin_cases)

lemma reached_cmd:
  "cmd_event ns pod c args r w w' \<Longrightarrow> reached w0 P w \<Longrightarrow> (\<And>es. P es \<Longrightarrow> Q (es @ [riak_cmd ns pod c args r])) \<Longrightarrow>
   reached w0 Q w'"
  by (auto simp: cmd_event_def intro: reached_step)

subsection \<open>Recognising failures\<close>

definition out_lines :: "string \<Rightarrow> string list" where
  "out_lines out = filter (\<lambda>l. l \<noteq> []) (map TrimSpace (Split out NL))"

definition error_line :: "string \<Rightarrow> bool" where
  "error_line l \<longleftrightarrow> HasPrefix l ''{error,'' \<or> nodeNotResponding l"

lemma failed_loop_iff:
  "failed_loop ls lst \<longleftrightarrow>
    (let ns = filter (\<lambda>l. l \<noteq> []) (map TrimSpace ls)
     in (\<exists>l \<in> set ns. error_line l) \<or> last (lst # ns) = ''error'')"
  by (induction ls lst rule: failed_loop.induct) (auto simp: Let_def error_line_def)


lemma riakAdminFailed_iff:
  "riakAdminFailed out \<longleftrightarrow>
    (\<exists>l \<in> set (out_lines out). error_line l) \<or> (out_lines out \<noteq> [] \<and> last (out_lines out) = ''error'')"
  by (auto simp: riakAdminFailed_def failed_loop_iff out_lines_def Let_def split: if_splits)

text \<open>
  C30: \<open>ExecuteRiakAdmin\<close> runs exactly one \<^verbatim>\<open>kubectl exec\<close> into the given pod and container, and it
  reports success exactly when the runner succeeded and no line of the trimmed output is an
  \<^verbatim>\<open>{error,...}\<close> term or the "not responding to pings" reply and the last non-empty line is not
  \<^verbatim>\<open>error\<close>: although \<^verbatim>\<open>riak-admin\<close> exits 0 on failure, a failed command never looks like a success.
\<close>

theorem ExecuteRiakAdmin_success_iff:
  "run_state (ExecuteRiakAdmin env ns pod c args) w = ((out, None), w') \<longleftrightarrow>
    run_kubectl env (execBase ns pod c @ args) (outside w) = (Inr out, outside w') \<and>
    w' = w\<lparr>outside := outside w', trace := trace w @ [Exec (execBase ns pod c @ args) (Inr out)]\<rparr> \<and>
    (\<forall>l. l \<in> set (out_lines out) \<longrightarrow> \<not> error_line l) \<and>
    (out_lines out = [] \<or> last (out_lines out) \<noteq> ''error'')"
  by (auto simp: run_ExecuteRiakAdmin admin_result_ok riakAdminFailed_iff split: prod.splits)

theorem ExecuteRiakAdmin_success_iff_witness:
  "run_state (ExecuteRiakAdmin sample_env ''ns'' ''c-0'' ''riak'' [''status'']) (start ()) =
    ((''ok'', None), \<lparr>outside = (), trace = [Exec (execBase ''ns'' ''c-0'' ''riak'' @ [''status'']) (Inr ''ok'')]\<rparr>)"
proof -
  have "out_lines ''ok'' = [''ok'']" "\<not> error_line ''ok''" by code_simp+
  then show ?thesis
    by (subst ExecuteRiakAdmin_success_iff) (simp add: sample_env_def start_def)
qed

subsection \<open>The output on one line\<close>



subsection \<open>Ring membership\<close>

definition wf_member :: "ClusterMember \<Rightarrow> bool" where
  "wf_member m \<longleftrightarrow>
     cm_Status m \<in> set [memberStatusValid, ''joining'', ''leaving'', ''exiting'', ''down''] \<and>
     is_word (cm_Node m) \<and> HasPrefix (cm_Node m) ''riak@''"

text \<open>A row of the table as the comment of \<^verbatim>\<open>parseMemberStatus\<close> shows it.\<close>

definition member_row :: "string \<Rightarrow> string \<Rightarrow> ClusterMember \<Rightarrow> string" where
  "member_row pct pending m =
     cm_Status m @ ''     '' @ pct @ ''      '' @ pending @ ''      '' @ cm_Node m"

lemma is_word_status: "wf_member m \<Longrightarrow> is_word (cm_Status m)"
  by (auto simp: wf_member_def memberStatusValid_def is_word_def wordc_def ascii_space_def)

lemma ascii_space_blank [simp]: "ascii_space (CHR '' '')"
  by (simp add: ascii_space_def)

lemma Fields_member_row:
  assumes "wf_member m" and "is_word pct" and "is_word pending"
  shows "Fields (member_row pct pending m) = [cm_Status m, pct, pending, cm_Node m]"
  unfolding member_row_def
  using assms is_word_status[OF assms(1)]
  by (simp add: Fields_word_spaces Fields_word wf_member_def del: append_Cons append.simps)

lemma member_of_fields_row:
  "wf_member m \<Longrightarrow> member_of_fields [cm_Status m, pct, pending, cm_Node m] = Some m"
  by (auto simp: wf_member_def member_of_fields_def)

lemma is_word_no_NL: "is_word w \<Longrightarrow> NL \<notin> set w"
  by (auto simp: is_word_def NL_def wordc_def ascii_space_def list_all_iff)

lemma member_row_no_NL:
  assumes "wf_member m" and "is_word pct" and "is_word pending"
  shows "NL \<notin> set (member_row pct pending m)"
proof -
  have "NL \<notin> set (cm_Node m)" "NL \<notin> set (cm_Status m)" "NL \<notin> set pct" "NL \<notin> set pending"
    using assms is_word_status[OF assms(1)] by (auto simp: wf_member_def dest: is_word_no_NL)
  then show ?thesis by (simp add: member_row_def) (simp add: NL_def)
qed

lemma map_filter_append: "List.map_filter f (xs @ ys) = List.map_filter f xs @ List.map_filter f ys"
  by (simp add: List.map_filter_def)

lemma map_filter_None: "(\<And>x. x \<in> set xs \<Longrightarrow> f x = None) \<Longrightarrow> List.map_filter f xs = []"
  by (simp add: List.map_filter_def filter_empty_conv)

lemma map_filter_map_Some:
  "(\<And>x. x \<in> set xs \<Longrightarrow> f (g x) = Some (h x)) \<Longrightarrow> List.map_filter f (map g xs) = map h xs"
  by (induction xs) (auto simp: List.map_filter_simps)

lemma parseMemberStatus_lines:
  assumes "\<forall>l \<in> set ls. NL \<notin> set l"
  shows "parseMemberStatus (Join ls [NL]) = List.map_filter (\<lambda>l. member_of_fields (Fields l)) ls"
proof (cases "ls = []")
  case True
  then show ?thesis by (simp add: parseMemberStatus_def List.map_filter_simps member_of_fields_def)
next
  case False
  with assms show ?thesis by (simp add: parseMemberStatus_def Split_Join)
qed

text \<open>
  C34: parsing is a left inverse of printing for \<^verbatim>\<open>member-status\<close>: a table of well-formed rows,
  between any header and trailer lines that are not themselves rows, parses to exactly its
  members, in order.
\<close>

theorem parseMemberStatus_roundtrip:
  assumes rows: "\<And>m pct pending. (m, pct, pending) \<in> set rows \<Longrightarrow>
      wf_member m \<and> is_word pct \<and> is_word pending"
    and noise: "\<And>l. l \<in> set (header @ trailer) \<Longrightarrow> NL \<notin> set l \<and> member_of_fields (Fields l) = None"
  shows "parseMemberStatus
      (Join (header @ map (\<lambda>(m, pct, pending). member_row pct pending m) rows @ trailer) [NL]) =
    map fst rows"
proof -
  let ?rows = "map (\<lambda>(m, pct, pending). member_row pct pending m) rows"
  have "\<forall>l \<in> set (header @ ?rows @ trailer). NL \<notin> set l"
    using rows noise member_row_no_NL by fastforce
  then have "parseMemberStatus (Join (header @ ?rows @ trailer) [NL]) =
      List.map_filter (\<lambda>l. member_of_fields (Fields l)) (header @ ?rows @ trailer)"
    by (rule parseMemberStatus_lines)
  also have "\<dots> = List.map_filter (\<lambda>l. member_of_fields (Fields l)) ?rows"
    using noise by (simp add: map_filter_append map_filter_None)
  also have "\<dots> = map fst rows"
    by (rule map_filter_map_Some) (use rows in \<open>auto simp: Fields_member_row member_of_fields_row\<close>)
  finally show ?thesis .
qed

theorem parseMemberStatus_roundtrip_witness:
  "parseMemberStatus (Join ([''Status     Ring    Pending    Node''] @
      map (\<lambda>(m, pct, pending). member_row pct pending m)
        [(\<lparr>cm_Status = ''valid'', cm_Node = ''riak@c-0.c''\<rparr>, ''50.0%'', ''--''),
         (\<lparr>cm_Status = ''joining'', cm_Node = ''riak@c-1.c''\<rparr>, ''50.0%'', ''--'')] @
      [''ok'']) [NL]) =
    map fst
        [(\<lparr>cm_Status = ''valid'', cm_Node = ''riak@c-0.c''\<rparr>, ''50.0%'', ''--''),
         (\<lparr>cm_Status = ''joining'', cm_Node = ''riak@c-1.c''\<rparr>, ''50.0%'', ''--'')]"
  apply (rule parseMemberStatus_roundtrip)
   apply (auto simp: wf_member_def is_word_def wordc_def ascii_space_def memberStatusValid_def)[1]
  apply (auto simp: NL_def)
   apply code_simp
  apply code_simp
  done

subsection \<open>Transfers\<close>

lemma transfers_loop_iff:
  "transfers_loop ls inActive \<longleftrightarrow>
    (\<forall>l \<in> set (if inActive then map TrimSpace ls
             else dropWhile (\<lambda>l. l \<noteq> ''active transfers:'') (map TrimSpace ls)).
       l = ''active transfers:'' \<or> l = [] \<or> l = ''ok'')"
  by (induction ls inActive rule: transfers_loop.induct) (auto simp: Let_def)

text \<open>
  \<open>parseTransfersIdle\<close> answers "idle" for exactly the outputs that say "no transfers active",
  never say "waiting to handoff", and list nothing but blank lines and "ok" from the "Active
  Transfers:" header on. In particular output it does not recognise is never idle, so a rollout
  gated on it cannot proceed on a reply it cannot read.
\<close>

lemma parseTransfersIdle_iff:
  "parseTransfersIdle out \<longleftrightarrow>
    \<not> Contains (ToLower out) ''waiting to handoff'' \<and> Contains (ToLower out) ''no transfers active'' \<and>
    set (dropWhile (\<lambda>l. l \<noteq> ''active transfers:'') (map TrimSpace (Split (ToLower out) NL)))
      \<subseteq> {''active transfers:'', [], ''ok''}"
  by (auto simp: parseTransfersIdle_def Let_def transfers_loop_iff)

subsection \<open>Permissions and targets\<close>

interpretation tokens: first_seen "\<lambda>t. t" token_loop
  by unfold_locales auto

lemma distinct_permissionTokens: "distinct (permissionTokens ps)"
  using tokens.loop_distinct by (simp add: permissionTokens_def)

lemma set_permissionTokens:
  "set (permissionTokens ps) = (\<Union>p \<in> set ps. set (Split (riakKVPermissions p) (CHR '','')))"
  using tokens.loop_keys[of "\<lambda>_. False"] by (simp add: permissionTokens_def)

lemma permissionTokens_eq_Nil [simp]: "permissionTokens ps = [] \<longleftrightarrow> ps = []"
proof
  assume "permissionTokens ps = []"
  then have "set (permissionTokens ps) = {}" by simp
  then show "ps = []" by (simp only: set_permissionTokens) auto
qed (simp add: permissionTokens_def)

text \<open>
  The tokens of a grant command are distinct, are exactly the Riak permissions its CRD
  permissions stand for, and appear in first-seen order: the tokens of a list of permissions
  come before the new tokens of a permission appended to it. The comma-separated argument
  of the command determines them.
\<close>

lemma permissionTokens_correct:
  "distinct (permissionTokens ps) \<and>
   set (permissionTokens ps) = (\<Union>p \<in> set ps. set (Split (riakKVPermissions p) (CHR '',''))) \<and>
   permissionTokens (ps @ [q]) =
     permissionTokens ps @
       token_loop (\<lambda>t. t \<in> set (permissionTokens ps)) (Split (riakKVPermissions q) (CHR '','')) \<and>
   (ps = [] \<or> Split (Join (permissionTokens ps) '','') (CHR '','') = permissionTokens ps)"
proof -
  have "permissionTokens (ps @ [q]) =
     permissionTokens ps @
       token_loop (\<lambda>t. t \<in> set (permissionTokens ps)) (Split (riakKVPermissions q) (CHR '',''))"
    unfolding set_permissionTokens by (simp add: permissionTokens_def tokens.loop_append)
  moreover have "Split (Join (permissionTokens ps) '','') (CHR '','') = permissionTokens ps" if "ps \<noteq> []"
    by (rule Split_Join) (use that Split_elem_no_sep in \<open>auto simp: set_permissionTokens\<close>)
  ultimately show ?thesis by (auto simp: distinct_permissionTokens set_permissionTokens)
qed

text \<open>
  A grant target is never empty, and it is the cluster-wide target \<^verbatim>\<open>any\<close> only when the
  resource is \<^verbatim>\<open>any\<close> or the bucket field itself starts with the word \<^verbatim>\<open>any\<close>: a \<^verbatim>\<open>bucket\<close> grant
  whose bucket is empty or blank is an error, not a cluster-wide grant, and an unknown resource is
  an error.
\<close>

lemma grantTarget_never_widens:
  "(grantTarget resource bucket = Inr target \<longrightarrow>
      target \<noteq> [] \<and> (resource = ''any'' \<and> target = [''any''] \<or> resource = ''bucket'' \<and> target = Fields bucket)) \<and>
   (resource = ''bucket'' \<and> Fields bucket = [] \<longrightarrow>
      grantTarget resource bucket = Inl ''bucket grant requires a bucket target'') \<and>
   (resource \<noteq> ''bucket'' \<and> resource \<noteq> ''any'' \<longrightarrow> (\<exists>e. grantTarget resource bucket = Inl e))"
  by (auto simp: grantTarget_def resourceAny_def Let_def split: if_splits)

subsection \<open>The table of dedicated permissions\<close>

abbreviation bar :: char where "bar \<equiv> CHR ''|''"

definition wf_cell :: "string \<Rightarrow> bool" where
  "wf_cell c \<longleftrightarrow> c \<noteq> [] \<and> bar \<notin> set c \<and> NL \<notin> set c"

definition table_row :: "string \<Rightarrow> string \<Rightarrow> string \<Rightarrow> string" where
  "table_row a b c = bar # a @ bar # b @ bar # c @ [bar]"

text \<open>An entry as it is printed: its type and bucket cells, and its grants, wrapped onto rows.\<close>

type_synonym printed_entry = "string \<times> string \<times> string \<times> string list"

fun entry_rows :: "string \<Rightarrow> printed_entry \<Rightarrow> string list" where
  "entry_rows blank (t, b, c, cs) = table_row t b c # map (table_row blank blank) cs"

fun entry_of :: "printed_entry \<Rightarrow> GrantEntry" where
  "entry_of (t, b, c, cs) =
     \<lparr>ge_Type = TrimSpace t, ge_Bucket = TrimSpace b, ge_Tokens = concat (map row_tokens (c # cs))\<rparr>"

fun wf_printed :: "printed_entry \<Rightarrow> bool" where
  "wf_printed (t, b, c, cs) \<longleftrightarrow> wf_cell t \<and> wf_cell b \<and> wf_cell c \<and> list_all wf_cell cs \<and>
     TrimSpace t \<noteq> [] \<and> TrimSpace t \<noteq> ''type''"

lemma Trim_row: "wf_cell a \<Longrightarrow> wf_cell c \<Longrightarrow> Trim (table_row a b c) bar = a @ bar # b @ bar # c"
proof -
  assume a: "wf_cell a" and c: "wf_cell c"
  from a obtain x a' where a': "a = x # a'" "x \<noteq> bar" by (cases a) (auto simp: wf_cell_def)
  from c obtain y c' where c': "rev c = y # c'" "y \<noteq> bar"
    by (cases "rev c") (auto simp: wf_cell_def)
  then have "c = rev c' @ [y]" by (metis rev_eq_Cons_iff)
  with a' c' show ?thesis by (simp add: Trim_def table_row_def)
qed

lemma Split_row:
  "wf_cell a \<Longrightarrow> wf_cell b \<Longrightarrow> wf_cell c \<Longrightarrow> Split (Trim (table_row a b c) bar) bar = [a, b, c]"
  by (simp add: Trim_row Split_append Split_no_sep wf_cell_def)

lemma grant_row_entry:
  "wf_cell a \<Longrightarrow> wf_cell b \<Longrightarrow> wf_cell c \<Longrightarrow> TrimSpace a \<noteq> [] \<Longrightarrow> TrimSpace a \<noteq> ''type'' \<Longrightarrow>
   grant_row (table_row a b c) es =
     es @ [\<lparr>ge_Type = TrimSpace a, ge_Bucket = TrimSpace b, ge_Tokens = row_tokens c\<rparr>]"
  by (simp add: grant_row_def Split_row)

lemma grant_row_continued:
  "wf_cell blank \<Longrightarrow> TrimSpace blank = [] \<Longrightarrow> wf_cell c \<Longrightarrow>
   grant_row (table_row blank blank c) (es @ [e]) = es @ [e\<lparr>ge_Tokens := ge_Tokens e @ row_tokens c\<rparr>]"
  by (simp add: grant_row_def Split_row append_to_last_def)

lemma grant_row_header:
  "wf_cell a \<Longrightarrow> wf_cell b \<Longrightarrow> wf_cell c \<Longrightarrow> TrimSpace a = ''type'' \<Longrightarrow>
   grant_row (table_row a b c) es = es"
  by (simp add: grant_row_def Split_row)

lemma grants_loop_rows:
  assumes "\<And>l. l \<in> set rows \<Longrightarrow> HasPrefix l ''|''"
  shows "grants_loop (rows @ ls) True es = grants_loop ls True (fold grant_row rows es)"
  using assms
proof (induction rows arbitrary: es)
  case Nil
  show ?case by simp
next
  case (Cons r rows)
  then have "HasPrefix r ''|''" by simp
  then obtain r' where r: "r = bar # r'" by (cases r) auto
  with Cons show ?case by simp
qed

definition is_separator :: "string \<Rightarrow> bool" where
  "is_separator l \<longleftrightarrow> NL \<notin> set l \<and> \<not> HasPrefix l ''|'' \<and>
     \<not> HasPrefix l ''Dedicated permissions'' \<and> \<not> HasPrefix l ''Cumulative permissions''"

lemma grants_loop_separators:
  "list_all is_separator seps \<Longrightarrow> grants_loop (seps @ ls) b es = grants_loop ls b es"
  by (induction seps) (auto simp: is_separator_def)

lemma fold_entry_rows:
  assumes "wf_printed p" and "wf_cell blank" and "TrimSpace blank = []"
  shows "fold grant_row (entry_rows blank p) es = es @ [entry_of p]"
proof -
  obtain t b c cs where p: "p = (t, b, c, cs)" by (cases p)
  have "fold grant_row (map (table_row blank blank) cs) (es @ [e]) =
      es @ [e\<lparr>ge_Tokens := ge_Tokens e @ concat (map row_tokens cs)\<rparr>]"
    if "list_all wf_cell cs" for e cs
    using that assms(2,3)
    by (induction cs arbitrary: e) (auto simp: grant_row_continued)
  with assms(1) show ?thesis
    by (simp add: p grant_row_entry)
qed

lemma fold_all_rows:
  assumes "list_all wf_printed ps" and "wf_cell blank" and "TrimSpace blank = []"
  shows "fold grant_row (concat (map (entry_rows blank) ps)) es = es @ map entry_of ps"
  using assms
proof (induction ps arbitrary: es)
  case Nil
  show ?case by simp
next
  case (Cons p ps)
  then show ?case by (simp add: fold_entry_rows)
qed

definition grants_output ::
  "string list \<Rightarrow> string \<Rightarrow> string \<Rightarrow> printed_entry list \<Rightarrow> string \<Rightarrow> string list \<Rightarrow> string" where
  "grants_output seps header blank ps cumulative rest =
     Join ([''Dedicated permissions''] @ seps @ [header] @ seps @ concat (map (entry_rows blank) ps) @
       seps @ [''Cumulative permissions'' @ cumulative] @ rest) [NL]"

lemma table_row_prefix: "HasPrefix (table_row a b c) ''|''"
  by (simp add: table_row_def)

lemma entry_rows_prefix: "l \<in> set (concat (map (entry_rows blank) ps)) \<Longrightarrow> HasPrefix l ''|''"
  by (auto simp: table_row_prefix)

lemma table_row_no_NL: "wf_cell a \<Longrightarrow> wf_cell b \<Longrightarrow> wf_cell c \<Longrightarrow> NL \<notin> set (table_row a b c)"
  by (auto simp: table_row_def wf_cell_def NL_def)

lemma entry_rows_no_NL:
  "list_all wf_printed ps \<Longrightarrow> wf_cell blank \<Longrightarrow> l \<in> set (concat (map (entry_rows blank) ps)) \<Longrightarrow>
   NL \<notin> set l"
proof -
  assume ps: "list_all wf_printed ps" and blank: "wf_cell blank"
    and "l \<in> set (concat (map (entry_rows blank) ps))"
  then obtain p where p: "p \<in> set ps" "l \<in> set (entry_rows blank p)" by auto
  obtain t b c cs where pe: "p = (t, b, c, cs)" by (cases p)
  from p ps have "wf_printed p" by (simp add: list_all_iff)
  with p(2) blank show ?thesis
    unfolding pe by (auto simp: list_all_iff table_row_no_NL)
qed




subsection \<open>Bucket types\<close>



end
