(* ===== verification/Manager.thy ===== *)
theory Manager
  imports Executor
begin

text \<open>
  The manager (\<^verbatim>\<open>internal/riak/manager.go\<close>): forming the ring from the pods of a cluster, and the
  operations on one cluster's first member (bucket types, users, grants). The manager's methods
  that have the name of an executor method carry the prefix \<open>Manager_\<close>.
\<close>

definition noMembers :: error where "noMembers = ''no cluster members available''"

definition GetClusterStatus :: "'w env \<Rightarrow> RiakCluster \<Rightarrow> ('w, string \<times> error option) action" where
  "GetClusterStatus env cluster =
     (case clt_Members (cl_Status cluster) of
        [] \<Rightarrow> return ([], Some noMembers)
      | m # _ \<Rightarrow> GetStatus env (cl_Namespace cluster) (nm_Pod m) riakContainer)"

subsection \<open>Ring membership\<close>

definition is_seed_node :: "string \<Rightarrow> string \<Rightarrow> bool" where
  "is_seed_node seed node \<longleftrightarrow> node = ''riak@'' @ seed \<or> HasPrefix node (''riak@'' @ seed @ ''.'')"

text \<open>The scan of the seed's members: the seed's node, the ring's nodes, the valid members.\<close>

record seed_scan =
  sd_seedNode :: string
  sd_inRing :: "string \<Rightarrow> bool"
  sd_valid :: nat

definition scan_step :: "string \<Rightarrow> ClusterMember \<Rightarrow> seed_scan \<Rightarrow> seed_scan" where
  "scan_step seed mem sc =
     \<lparr>sd_seedNode = (if is_seed_node seed (cm_Node mem) then cm_Node mem else sd_seedNode sc),
      sd_inRing = (sd_inRing sc)(cm_Node mem := True),
      sd_valid = (if cm_Status mem = memberStatusValid then sd_valid sc + 1 else sd_valid sc)\<rparr>"

definition scan_seed :: "string \<Rightarrow> ClusterMember list \<Rightarrow> seed_scan" where
  "scan_seed seed members =
     fold (scan_step seed) members \<lparr>sd_seedNode = [], sd_inRing = (\<lambda>_. False), sd_valid = 0\<rparr>"

text \<open>One pod of the join loop; the loop's variable is the number of pods joined.\<close>

definition join_body ::
  "'w env \<Rightarrow> string \<Rightarrow> string \<Rightarrow> seed_scan \<Rightarrow> string \<Rightarrow> nat \<Rightarrow> ('w, error + nat) action" where
  "join_body env ns seed sc pod joined =
     (if pod = seed then return (Inr joined)
      else do {
        r \<leftarrow> MemberStatus env ns pod riakContainer;
        (case r of
           Inl e \<Rightarrow> return (Inl (''member-status on '' @ pod @ '': '' @ e))
         | Inr members \<Rightarrow>
             (case members of
                [m] \<Rightarrow>
                  if sd_inRing sc (cm_Node m) then return (Inr joined)
                  else do {
                    err \<leftarrow> JoinCluster env ns pod riakContainer (sd_seedNode sc);
                    (case err of
                       Some e \<Rightarrow> return (Inl (''join '' @ pod @ '': '' @ e))
                     | None \<Rightarrow> return (Inr (joined + 1)))
                  }
              | _ \<Rightarrow> return (Inr joined)))
      })"

definition plan_and_commit :: "'w env \<Rightarrow> string \<Rightarrow> string \<Rightarrow> ('w, bool res) action" where
  "plan_and_commit env ns seed = do {
     (_, err) \<leftarrow> ExecuteRiakAdmin env ns seed riakContainer [''cluster'', ''plan''];
     (case err of
        Some e \<Rightarrow> return (Inl (''cluster plan: '' @ e))
      | None \<Rightarrow> do {
          (_, err') \<leftarrow> ExecuteRiakAdmin env ns seed riakContainer [''cluster'', ''commit''];
          (case err' of
             Some e \<Rightarrow> return (Inl (''cluster commit: '' @ e))
           | None \<Rightarrow> return (Inr False))
        })
   }"

definition ReconcileMembership :: "'w env \<Rightarrow> RiakCluster \<Rightarrow> string list \<Rightarrow> ('w, bool res) action" where
  "ReconcileMembership env cluster podNames = do {
     let seed = cl_Name cluster @ ''-0'';
     r \<leftarrow> MemberStatus env (cl_Namespace cluster) seed riakContainer;
     (case r of
        Inl e \<Rightarrow> return (Inl (''member-status on seed '' @ seed @ '': '' @ e))
      | Inr seedMembers \<Rightarrow> do {
          let sc = scan_seed seed seedMembers;
          (if sd_seedNode sc = [] then
             return (Inl (''seed node for '' @ seed @ '' not found in member-status (members: ['' @
               Join (map (\<lambda>mem. cm_Status mem @ '' '' @ cm_Node mem) seedMembers) '', '' @ ''])''))
           else do {
             j \<leftarrow> for_each (join_body env (cl_Namespace cluster) seed sc) podNames 0;
             (case j of
                Inl e \<Rightarrow> return (Inl e)
              | Inr joined \<Rightarrow>
                  if joined > 0 then plan_and_commit env (cl_Namespace cluster) seed
                  else return (Inr (sd_valid sc = length podNames)))
           })
        })
   }"

text \<open>The errors of the individual commands are logged, not returned.\<close>

definition ConfigureNode :: "'w env \<Rightarrow> string \<Rightarrow> string \<Rightarrow> gomap \<Rightarrow> ('w, error option) action" where
  "ConfigureNode env ns podName config = do {
     _ \<leftarrow> for_each (\<lambda>(k, v) _. do {
         _ \<leftarrow> ExecuteRiakAdmin env ns podName riakContainer [''config'', ''set'', k, v];
         return (Inr () :: unit + unit)
       }) config ();
     return None
   }"

subsection \<open>Bucket types, users, grants\<close>

text \<open>The guard shared by the operations on one cluster's first member.\<close>

definition on_first_member ::
  "RiakCluster \<Rightarrow> (string \<Rightarrow> string \<Rightarrow> ('w, error option) action) \<Rightarrow> ('w, error option) action" where
  "on_first_member cluster f =
     (case clt_Members (cl_Status cluster) of
        [] \<Rightarrow> return (Some noMembers)
      | m # _ \<Rightarrow> f (cl_Namespace cluster) (nm_Pod m))"

definition CreateBucketType :: "'w env \<Rightarrow> RiakCluster \<Rightarrow> string \<Rightarrow> gomap \<Rightarrow> ('w, error option) action" where
  "CreateBucketType env cluster bucketType properties =
     on_first_member cluster (\<lambda>ns pod. CreateBucket env ns pod riakContainer bucketType properties)"

definition Manager_DeleteUser :: "'w env \<Rightarrow> RiakCluster \<Rightarrow> string \<Rightarrow> ('w, error option) action" where
  "Manager_DeleteUser env cluster username =
     on_first_member cluster (\<lambda>ns pod. DeleteUser env ns pod riakContainer username)"

definition Manager_CreateUserForCert :: "'w env \<Rightarrow> RiakCluster \<Rightarrow> string \<Rightarrow> ('w, error option) action" where
  "Manager_CreateUserForCert env cluster username =
     on_first_member cluster (\<lambda>ns pod. CreateUserForCert env ns pod riakContainer username)"

definition Manager_EnableSecurity :: "'w env \<Rightarrow> RiakCluster \<Rightarrow> ('w, error option) action" where
  "Manager_EnableSecurity env cluster =
     on_first_member cluster (\<lambda>ns pod. EnableSecurity env ns pod riakContainer)"

definition Manager_AddSecuritySource :: "'w env \<Rightarrow> RiakCluster \<Rightarrow> string \<Rightarrow> ('w, error option) action" where
  "Manager_AddSecuritySource env cluster username =
     on_first_member cluster (\<lambda>ns pod. AddSecuritySource env ns pod riakContainer username)"

definition grantKey :: "string \<Rightarrow> string \<Rightarrow> string res" where
  "grantKey resource bucket =
     (case grantTarget resource bucket of
        Inl e \<Rightarrow> Inl e
      | Inr target \<Rightarrow>
          if target ! 0 = resourceAny then Inr ''* *''
          else if length target = 1 then Inr (target ! 0 @ '' *'')
          else Inr (target ! 0 @ '' '' @ target ! 1))"

type_synonym target = "string \<times> string"

text \<open>The first loop: the targets in first-seen order and the permissions of each.\<close>

definition add_grant :: "Grant \<Rightarrow> target list \<times> (target \<times> string list) list \<Rightarrow>
    target list \<times> (target \<times> string list) list" where
  "add_grant g acc = (case acc of (order, perms) \<Rightarrow>
     (let t = (g_Resource g, g_BucketName g)
      in case map_of perms t of
           None \<Rightarrow> (order @ [t], map_put perms t [g_Permission g])
         | Some ps \<Rightarrow> (order, map_put perms t (ps @ [g_Permission g]))))"

definition group_grants :: "Grant list \<Rightarrow> target list \<times> (target \<times> string list) list" where
  "group_grants grants = fold add_grant grants ([], [])"

text \<open>The desired state: the permission tokens of each grant key, a map of sets in the source.\<close>

type_synonym desired = "string \<Rightarrow> string \<Rightarrow> bool"

definition grant_body ::
  "'w env \<Rightarrow> string \<Rightarrow> string \<Rightarrow> string \<Rightarrow> (target \<times> string list) list \<Rightarrow> target \<Rightarrow> desired \<Rightarrow>
    ('w, error + desired) action" where
  "grant_body env ns pod username perms t desired = do {
     let ps = (case map_of perms t of None \<Rightarrow> [] | Some ps \<Rightarrow> ps);
     err \<leftarrow> GrantPermissions env ns pod riakContainer username (fst t) (snd t) ps;
     (case err of
        Some e \<Rightarrow> return (Inl e)
      | None \<Rightarrow>
          (case grantKey (fst t) (snd t) of
             Inl e \<Rightarrow> return (Inl e)
           | Inr key \<Rightarrow>
               return (Inr (\<lambda>k tok. desired k tok \<or> k = key \<and> tok \<in> set (permissionTokens ps)))))
   }"

definition revoke_target :: "GrantEntry \<Rightarrow> target" where
  "revoke_target entry =
     (if ge_Type entry = ''*'' then (resourceAny, [])
      else if ge_Bucket entry \<noteq> ''*'' then (''bucket'', ge_Type entry @ '' '' @ ge_Bucket entry)
      else (''bucket'', ge_Type entry))"

definition stale_tokens :: "desired \<Rightarrow> GrantEntry \<Rightarrow> string list" where
  "stale_tokens desired entry =
     filter (\<lambda>tok. \<not> desired (ge_Type entry @ '' '' @ ge_Bucket entry) tok) (ge_Tokens entry)"

definition revoke_body ::
  "'w env \<Rightarrow> string \<Rightarrow> string \<Rightarrow> string \<Rightarrow> desired \<Rightarrow> GrantEntry \<Rightarrow> unit \<Rightarrow> ('w, error + unit) action" where
  "revoke_body env ns pod username desired entry u =
     (let stale = stale_tokens desired entry
      in if stale = [] then return (Inr ())
         else do {
           err \<leftarrow> RevokePermissions env ns pod riakContainer username
             (fst (revoke_target entry)) (snd (revoke_target entry)) stale;
           (case err of
              Some e \<Rightarrow> return (Inl e)
            | None \<Rightarrow> return (Inr ()))
         })"

definition GrantUserPermissions ::
  "'w env \<Rightarrow> RiakCluster \<Rightarrow> string \<Rightarrow> Grant list \<Rightarrow> ('w, error option) action" where
  "GrantUserPermissions env cluster username grants =
     on_first_member cluster (\<lambda>ns pod. do {
       let (order, perms) = group_grants grants;
       g \<leftarrow> for_each (grant_body env ns pod username perms) order (\<lambda>_ _. False);
       (case g of
          Inl e \<Rightarrow> return (Some e)
        | Inr desired \<Rightarrow> do {
            c \<leftarrow> GetUserGrants env ns pod riakContainer username;
            (case c of
               Inl e \<Rightarrow> return (Some (''read current grants: '' @ e))
             | Inr current \<Rightarrow> do {
                 r \<leftarrow> for_each (revoke_body env ns pod username desired) current ();
                 return (case r of Inl e \<Rightarrow> Some e | Inr _ \<Rightarrow> None)
               })
          })
     })"

subsection \<open>The seed's view of the ring\<close>

lemma scan_seed_fold:
  "sd_inRing (fold (scan_step seed) ms sc) node \<longleftrightarrow> sd_inRing sc node \<or> node \<in> cm_Node ` set ms"
  "sd_valid (fold (scan_step seed) ms sc) = sd_valid sc + length (filter (\<lambda>m. cm_Status m = memberStatusValid) ms)"
  "sd_seedNode (fold (scan_step seed) ms sc) = sd_seedNode sc \<or>
     is_seed_node seed (sd_seedNode (fold (scan_step seed) ms sc)) \<and>
     sd_seedNode (fold (scan_step seed) ms sc) \<in> cm_Node ` set ms"
  by (induction ms rule: rev_induct) (auto simp: scan_step_def)

lemma scan_seed:
  "sd_inRing (scan_seed seed ms) node \<longleftrightarrow> node \<in> cm_Node ` set ms"
  "sd_valid (scan_seed seed ms) = length (filter (\<lambda>m. cm_Status m = memberStatusValid) ms)"
  "sd_seedNode (scan_seed seed ms) \<noteq> [] \<Longrightarrow>
     is_seed_node seed (sd_seedNode (scan_seed seed ms)) \<and> sd_seedNode (scan_seed seed ms) \<in> cm_Node ` set ms"
  using scan_seed_fold[of seed ms "\<lparr>sd_seedNode = [], sd_inRing = (\<lambda>_. False), sd_valid = 0\<rparr>"]
  by (auto simp: scan_seed_def)


subsection \<open>Forming the ring\<close>

abbreviation status_cmd :: "string \<Rightarrow> string \<Rightarrow> string \<Rightarrow> event" where
  "status_cmd ns pod out \<equiv> riak_cmd ns pod riakContainer [''member-status''] (Inr out)"

abbreviation join_cmd :: "string \<Rightarrow> string \<Rightarrow> string \<Rightarrow> string res \<Rightarrow> event" where
  "join_cmd ns pod node r \<equiv> riak_cmd ns pod riakContainer [''cluster'', ''join'', node] r"

definition ring_nodes :: "string \<Rightarrow> string set" where
  "ring_nodes out = cm_Node ` set (parseMemberStatus out)"

definition valid_members :: "string \<Rightarrow> nat" where
  "valid_members out = length (filter (\<lambda>m. cm_Status m = memberStatusValid) (parseMemberStatus out))"

text \<open>What must have been seen before a join is run.\<close>

definition join_ok :: "string \<Rightarrow> string \<Rightarrow> string list \<Rightarrow> event list \<Rightarrow> event \<Rightarrow> bool" where
  "join_ok ns seed podNames pre e \<longleftrightarrow>
     (\<forall>pod node r. e = join_cmd ns pod node r \<longrightarrow>
        pod \<in> set podNames \<and> pod \<noteq> seed \<and> is_seed_node seed node \<and>
        (\<exists>out0 out m. status_cmd ns seed out0 \<in> set pre \<and> node \<in> ring_nodes out0 \<and>
           status_cmd ns pod out \<in> set pre \<and> parseMemberStatus out = [m] \<and> cm_Node m \<notin> ring_nodes out0))"

lemma join_ok_other:
  "take 2 args \<noteq> [''cluster'', ''join''] \<Longrightarrow> join_ok ns seed podNames pre (riak_cmd ns' pod c args r)"
  by (auto simp: join_ok_def)

lemma wp_join_body:
  assumes pod: "pod \<in> set podNames"
    and node: "is_seed_node seed (sd_seedNode sc)" "sd_seedNode sc \<in> ring_nodes out0"
    and ring: "\<And>n. sd_inRing sc n \<longleftrightarrow> n \<in> ring_nodes out0"
    and w: "reached w0 (\<lambda>es. justified (join_ok ns seed podNames) es \<and> status_cmd ns seed out0 \<in> set es) w"
  shows "wp (join_body env ns seed sc pod joined)
    (\<lambda>r. reached w0 (\<lambda>es. justified (join_ok ns seed podNames) es \<and> status_cmd ns seed out0 \<in> set es)) w"
    (is "wp _ (\<lambda>r. reached w0 ?P) w")
proof -
  have join: "wp (JoinCluster env ns pod riakContainer (sd_seedNode sc)) (\<lambda>err. reached w0 ?P) w'"
    if "pod \<noteq> seed" "\<not> sd_inRing sc (cm_Node m)" "parseMemberStatus out = [m]"
      "cmd_event ns pod riakContainer [''member-status''] (Inr out) w w'" for m out w'
  proof -
    have w': "reached w0 (\<lambda>es. ?P es \<and> status_cmd ns pod out \<in> set es) w'"
      by (rule reached_cmd[OF that(4) w]) (simp add: join_ok_other)
    have "join_ok ns seed podNames es (join_cmd ns pod (sd_seedNode sc) r)"
      if "?P es \<and> status_cmd ns pod out \<in> set es" for es r
      using that pod node ring \<open>pod \<noteq> seed\<close> \<open>\<not> sd_inRing sc (cm_Node m)\<close> \<open>parseMemberStatus out = [m]\<close>
      by (auto simp: join_ok_def)
    then show ?thesis
      by (intro wp_JoinCluster; elim reached_cmd[OF _ w']) auto
  qed
  have other: "reached w0 ?P w'" if "cmd_event ns pod riakContainer [''member-status''] r w w'" for r w'
    by (rule reached_cmd[OF that w]) (simp add: join_ok_other)
  show ?thesis
    using w other
    by (auto simp: join_body_def wp_simps split: list.split option.split intro!: wp_MemberStatus
        wp_mono[OF join])
qed

lemma wp_plan_and_commit:
  assumes w: "reached w0 (justified (join_ok ns seed podNames)) w"
  shows "wp (plan_and_commit env ns seed) (\<lambda>r. reached w0 (justified (join_ok ns seed podNames))) w"
proof -
  have step: "reached w0 (justified (join_ok ns seed podNames)) w''"
    if "cmd_event ns seed riakContainer [''cluster'', x] r w' w''"
      "x \<noteq> ''join''" "reached w0 (justified (join_ok ns seed podNames)) w'" for x r w' w''
    by (rule reached_cmd[OF that(1,3)]) (use that(2) in \<open>simp add: join_ok_other\<close>)
  show ?thesis using w
    by (auto simp: plan_and_commit_def wp_simps split: option.split intro!: wp_admin_cases
        elim!: step)
qed


lemma ReconcileMembership_justified:
  "wp (ReconcileMembership env cluster podNames)
    (\<lambda>r. reached w0 (justified (join_ok (cl_Namespace cluster) (cl_Name cluster @ ''-0'') podNames))) w0"
proof -
  let ?ns = "cl_Namespace cluster" and ?seed = "cl_Name cluster @ ''-0''"
  let ?J = "justified (join_ok ?ns ?seed podNames)"
  have first: "reached w0 (\<lambda>es. ?J es \<and> (\<forall>out. r = Inr out \<longrightarrow> status_cmd ?ns ?seed out \<in> set es)) w"
    if "cmd_event ?ns ?seed riakContainer [''member-status''] r w0 w" for r w
    by (rule reached_cmd[OF that, of w0 "\<lambda>es. es = []"]) (simp_all add: join_ok_other)
  have loop: "wp (for_each (join_body env ?ns ?seed (scan_seed ?seed (parseMemberStatus out0))) podNames 0)
      (\<lambda>r. wp (case r of Inl e \<Rightarrow> return (Inl e)
          | Inr joined \<Rightarrow> if joined > 0 then plan_and_commit env ?ns ?seed else return (Inr (f joined)))
        (\<lambda>r. reached w0 ?J)) w"
    if seed: "sd_seedNode (scan_seed ?seed (parseMemberStatus out0)) \<noteq> []"
      and w: "reached w0 (\<lambda>es. ?J es \<and> status_cmd ?ns ?seed out0 \<in> set es) w" for out0 w f
  proof (rule wp_for_each_post[where I = "\<lambda>_ w. reached w0 (\<lambda>es. ?J es \<and> status_cmd ?ns ?seed out0 \<in> set es) w"])
    show "reached w0 (\<lambda>es. ?J es \<and> status_cmd ?ns ?seed out0 \<in> set es) w" by (rule w)
  next
    fix pod :: string and joined :: nat and w
    assume "pod \<in> set podNames" and "reached w0 (\<lambda>es. ?J es \<and> status_cmd ?ns ?seed out0 \<in> set es) w"
    from wp_join_body[OF this(1) _ _ _ this(2), of "scan_seed ?seed (parseMemberStatus out0)" env joined]
      scan_seed(3)[OF seed] scan_seed(1)
    have "wp (join_body env ?ns ?seed (scan_seed ?seed (parseMemberStatus out0)) pod joined)
      (\<lambda>r. reached w0 (\<lambda>es. ?J es \<and> status_cmd ?ns ?seed out0 \<in> set es)) w"
      by (auto simp: ring_nodes_def)
    then show "wp (join_body env ?ns ?seed (scan_seed ?seed (parseMemberStatus out0)) pod joined)
      (\<lambda>r t. case r of
          Inl e \<Rightarrow> wp (case Inl e of Inl e \<Rightarrow> return (Inl e)
            | Inr joined \<Rightarrow> if joined > 0 then plan_and_commit env ?ns ?seed else return (Inr (f joined)))
            (\<lambda>r. reached w0 ?J) t
        | Inr v' \<Rightarrow> reached w0 (\<lambda>es. ?J es \<and> status_cmd ?ns ?seed out0 \<in> set es) t) w"
      by (rule wp_mono) (auto split: sum.split elim: reached_mono)
  next
    fix joined :: nat and w
    assume "reached w0 (\<lambda>es. ?J es \<and> status_cmd ?ns ?seed out0 \<in> set es) w"
    then have "reached w0 ?J w" by (rule reached_mono) simp
    then show "wp (case Inr joined of Inl e \<Rightarrow> return (Inl e)
            | Inr joined \<Rightarrow> if joined > 0 then plan_and_commit env ?ns ?seed else return (Inr (f joined)))
            (\<lambda>r. reached w0 ?J) w"
      using wp_plan_and_commit[of w0 ?ns ?seed podNames w env] by simp
  qed
  show ?thesis
    unfolding ReconcileMembership_def Let_def wp_bind
    by (rule wp_MemberStatus; simp add: wp_simps; drule first)
      (auto intro!: loop elim: reached_mono)
qed

text \<open>
  C3: \<open>ReconcileMembership\<close> joins only standalone nodes that are not yet in the seed's ring. On every
  run, whatever the nodes reply: a \<^verbatim>\<open>cluster join\<close> is only ever run on one of the given pods other
  than the seed, its target is a node of the seed pod that the seed itself listed, and it
  comes after a \<^verbatim>\<open>member-status\<close> reply of that pod that lists exactly one member, which the seed
  did not list. A node that sees any other member is never re-joined.
\<close>

theorem ReconcileMembership_joins_only_standalone:
  assumes "emitted (ReconcileMembership env cluster podNames) w =
      pre @ riak_cmd (cl_Namespace cluster) pod riakContainer [''cluster'', ''join'', node] r # post"
  shows "pod \<in> set podNames \<and> pod \<noteq> cl_Name cluster @ ''-0'' \<and> is_seed_node (cl_Name cluster @ ''-0'') node \<and>
    (\<exists>out0 out m.
       riak_cmd (cl_Namespace cluster) (cl_Name cluster @ ''-0'') riakContainer [''member-status''] (Inr out0) \<in> set pre \<and>
       riak_cmd (cl_Namespace cluster) pod riakContainer [''member-status''] (Inr out) \<in> set pre \<and>
       node \<in> cm_Node ` set (parseMemberStatus out0) \<and>
       parseMemberStatus out = [m] \<and> cm_Node m \<notin> cm_Node ` set (parseMemberStatus out0))"
proof -
  have "justified (join_ok (cl_Namespace cluster) (cl_Name cluster @ ''-0'') podNames)
      (emitted (ReconcileMembership env cluster podNames) w)"
    using wp_emitted(1)[OF ReconcileMembership_justified] by (metis prod.collapse)
  from justifiedD[OF this[unfolded assms]] show ?thesis
    by (auto simp: join_ok_def ring_nodes_def)
qed


definition cluster_cmd :: "string \<Rightarrow> event \<Rightarrow> bool" where
  "cluster_cmd a e \<longleftrightarrow> take 2 (riak_args e) = [''cluster'', a]"

text \<open>The pod needs no join, or a join was run on it.\<close>

definition settled_pod :: "string \<Rightarrow> string \<Rightarrow> string \<Rightarrow> event list \<Rightarrow> string \<Rightarrow> bool" where
  "settled_pod ns seed out0 es pod \<longleftrightarrow> pod = seed \<or>
     (\<exists>out. status_cmd ns pod out \<in> set es \<and>
        (length (parseMemberStatus out) \<noteq> 1 \<or> cm_Node (hd (parseMemberStatus out)) \<in> ring_nodes out0 \<or>
         (\<exists>e \<in> set es. cluster_cmd ''join'' e)))"

definition join_inv :: "string \<Rightarrow> string \<Rightarrow> string \<Rightarrow> string list \<Rightarrow> nat \<Rightarrow> event list \<Rightarrow> bool" where
  "join_inv ns seed out0 pods joined es \<longleftrightarrow>
     es \<noteq> [] \<and> hd es = status_cmd ns seed out0 \<and>
     length (filter (cluster_cmd ''join'') es) = joined \<and>
     list_all (\<lambda>e. \<not> cluster_cmd ''plan'' e \<and> \<not> cluster_cmd ''commit'' e) es \<and>
     list_all (settled_pod ns seed out0 es) pods"

lemma settled_pod_mono: "settled_pod ns seed out0 es pod \<Longrightarrow> settled_pod ns seed out0 (es @ fs) pod"
  by (auto simp: settled_pod_def)

lemma join_inv_snoc:
  assumes "join_inv ns seed out0 pods joined es"
    and "\<not> cluster_cmd ''plan'' e" "\<not> cluster_cmd ''commit'' e"
  shows "join_inv ns seed out0 pods (if cluster_cmd ''join'' e then joined + 1 else joined) (es @ [e])"
  using assms settled_pod_mono unfolding join_inv_def by (auto simp: list_all_iff)

lemma join_inv_pod:
  "join_inv ns seed out0 pods joined es \<Longrightarrow> settled_pod ns seed out0 es pod \<Longrightarrow>
   join_inv ns seed out0 (pods @ [pod]) joined es"
  by (simp add: join_inv_def)

lemma wp_join_body_inv:
  assumes ring: "\<And>n. sd_inRing sc n \<longleftrightarrow> n \<in> ring_nodes out0"
    and w: "reached w0 (join_inv ns seed out0 pods joined) w"
  shows "wp (join_body env ns seed sc pod joined)
    (\<lambda>r w'. \<forall>joined'. r = Inr joined' \<longrightarrow> reached w0 (join_inv ns seed out0 (pods @ [pod]) joined') w') w"
proof (cases "pod = seed")
  case True
  with w show ?thesis
    by (auto simp: join_body_def settled_pod_def elim!: reached_mono intro!: join_inv_pod)
next
  case False
  let ?S = "\<lambda>out es. join_inv ns seed out0 pods joined es \<and> status_cmd ns pod out \<in> set es"
  have status: "reached w0 (?S out) w'"
    if "cmd_event ns pod riakContainer [''member-status''] (Inr out) w w'" for out w'
    by (rule reached_cmd[OF that w], drule join_inv_snoc[where e = "status_cmd ns pod out"])
      (simp_all add: cluster_cmd_def)
  have stay: "reached w0 (join_inv ns seed out0 (pods @ [pod]) joined) w'"
    if "reached w0 (?S out) w'"
      "length (parseMemberStatus out) \<noteq> 1 \<or> cm_Node (hd (parseMemberStatus out)) \<in> ring_nodes out0" for out w'
    using that by (auto simp: settled_pod_def elim!: reached_mono intro!: join_inv_pod)
  have joins: "reached w0 (join_inv ns seed out0 (pods @ [pod]) (Suc joined)) w''"
    if "reached w0 (?S out) w'" "cmd_event ns pod riakContainer [''cluster'', ''join'', node] r w' w''"
    for out w' w'' node r
  proof (rule reached_cmd[OF that(2,1)])
    fix es assume es: "?S out es"
    let ?e = "join_cmd ns pod node r"
    have "join_inv ns seed out0 pods (Suc joined) (es @ [?e])"
      using join_inv_snoc[of ns seed out0 pods joined es ?e] es by (simp add: cluster_cmd_def)
    then show "join_inv ns seed out0 (pods @ [pod]) (Suc joined) (es @ [?e])"
      using es by (intro join_inv_pod) (auto simp: settled_pod_def cluster_cmd_def)
  qed
  have body: "wp (case parseMemberStatus out of
          [m] \<Rightarrow>
            if sd_inRing sc (cm_Node m) then return (Inr joined)
            else do {
              err \<leftarrow> JoinCluster env ns pod riakContainer (sd_seedNode sc);
              (case err of
                 Some e \<Rightarrow> return (Inl (''join '' @ pod @ '': '' @ e))
               | None \<Rightarrow> return (Inr (joined + 1)))
            }
        | _ \<Rightarrow> return (Inr joined))
      (\<lambda>r w'. \<forall>joined'. r = Inr joined' \<longrightarrow> reached w0 (join_inv ns seed out0 (pods @ [pod]) joined') w') w'"
    if "reached w0 (?S out) w'" for out w'
    using that stay[OF that] joins[OF that]
    by (auto simp: ring wp_simps split: list.split intro!: wp_JoinCluster)
  show ?thesis
    using False unfolding join_body_def
    by (simp only: if_False, unfold wp_bind)
      (rule wp_MemberStatus; simp only: sum.case wp_return; (rule body[OF status] | simp))
qed


text \<open>What a run of \<open>ReconcileMembership\<close> that returns without an error has established.\<close>

definition membership_result :: "string \<Rightarrow> string \<Rightarrow> string list \<Rightarrow> bool \<Rightarrow> event list \<Rightarrow> bool" where
  "membership_result ns seed podNames formed es \<longleftrightarrow>
     (\<exists>out0 pre p c.
        hd es = status_cmd ns seed out0 \<and> list_all (settled_pod ns seed out0 es) podNames \<and>
        (if filter (cluster_cmd ''join'') es = []
         then (formed \<longleftrightarrow> valid_members out0 = length podNames) \<and>
           list_all (\<lambda>e. \<not> cluster_cmd ''plan'' e \<and> \<not> cluster_cmd ''commit'' e) es
         else \<not> formed \<and> \<not> riakAdminFailed p \<and> \<not> riakAdminFailed c \<and>
           es = pre @ [riak_cmd ns seed riakContainer [''cluster'', ''plan''] (Inr p),
                       riak_cmd ns seed riakContainer [''cluster'', ''commit''] (Inr c)] \<and>
           list_all (\<lambda>e. \<not> cluster_cmd ''plan'' e \<and> \<not> cluster_cmd ''commit'' e) pre))"

lemma membership_result_no_join:
  "join_inv ns seed out0 podNames 0 es \<Longrightarrow>
   membership_result ns seed podNames (valid_members out0 = length podNames) es"
  unfolding membership_result_def join_inv_def by (auto simp: filter_empty_conv)

lemma membership_result_commit:
  assumes "join_inv ns seed out0 podNames (Suc n) es" "\<not> riakAdminFailed p" "\<not> riakAdminFailed c"
  shows "membership_result ns seed podNames False
    (es @ [riak_cmd ns seed riakContainer [''cluster'', ''plan''] (Inr p),
           riak_cmd ns seed riakContainer [''cluster'', ''commit''] (Inr c)])"
proof -
  have "filter (cluster_cmd ''join'') es \<noteq> []"
    using assms(1) by (auto simp: join_inv_def)
  with assms settled_pod_mono show ?thesis
    unfolding membership_result_def join_inv_def by (auto simp: list_all_iff hd_append)
qed

lemma wp_plan_and_commit_result:
  assumes w: "reached w0 (join_inv ns seed out0 podNames joined) w" and "joined > 0"
  shows "wp (plan_and_commit env ns seed)
    (\<lambda>r w'. \<forall>formed. r = Inr formed \<longrightarrow> reached w0 (membership_result ns seed podNames formed) w') w"
proof -
  obtain n where n: "joined = Suc n" using \<open>joined > 0\<close> by (cases joined) auto
  have "reached w0 (membership_result ns seed podNames False) w''"
    if "cmd_event ns seed riakContainer [''cluster'', ''plan''] (Inr p) w w'" "\<not> riakAdminFailed p"
      "cmd_event ns seed riakContainer [''cluster'', ''commit''] (Inr c) w' w''" "\<not> riakAdminFailed c"
    for p c w' w''
    using w that membership_result_commit unfolding n reached_def cmd_event_def by fastforce
  then show ?thesis
    unfolding plan_and_commit_def by (auto simp: wp_simps split: option.split intro!: wp_admin_cases)
qed

lemma ReconcileMembership_membership_result:
  "wp (ReconcileMembership env cluster podNames)
    (\<lambda>r w'. \<forall>formed. r = Inr formed \<longrightarrow>
       reached w0 (membership_result (cl_Namespace cluster) (cl_Name cluster @ ''-0'') podNames formed) w') w0"
proof -
  let ?ns = "cl_Namespace cluster" and ?seed = "cl_Name cluster @ ''-0''"
  have first: "reached w0 (join_inv ?ns ?seed out0 [] 0) w"
    if "cmd_event ?ns ?seed riakContainer [''member-status''] (Inr out0) w0 w" for out0 w
    by (rule reached_cmd[OF that, of w0 "\<lambda>es. es = []"]) (simp_all add: join_inv_def cluster_cmd_def)
  have loop: "wp (for_each (join_body env ?ns ?seed (scan_seed ?seed (parseMemberStatus out0))) podNames 0)
      (\<lambda>j. wp (case j of Inl e \<Rightarrow> return (Inl e)
          | Inr joined \<Rightarrow> if joined > 0 then plan_and_commit env ?ns ?seed
              else return (Inr (sd_valid (scan_seed ?seed (parseMemberStatus out0)) = length podNames)))
        (\<lambda>r w'. \<forall>formed. r = Inr formed \<longrightarrow> reached w0 (membership_result ?ns ?seed podNames formed) w')) w"
    if "reached w0 (join_inv ?ns ?seed out0 [] 0) w" for out0 w
  proof (rule wp_for_each_prefix_post[where I = "\<lambda>pods joined w. reached w0 (join_inv ?ns ?seed out0 pods joined) w"])
    show "reached w0 (join_inv ?ns ?seed out0 [] 0) w" by (rule that)
  next
    fix pods pod post and joined :: nat and w
    assume "reached w0 (join_inv ?ns ?seed out0 pods joined) w"
    from wp_join_body_inv[OF _ this, of "scan_seed ?seed (parseMemberStatus out0)" env pod]
    show "wp (join_body env ?ns ?seed (scan_seed ?seed (parseMemberStatus out0)) pod joined)
      (\<lambda>r t. case r of
          Inl e \<Rightarrow> wp (case Inl e of Inl e \<Rightarrow> return (Inl e)
            | Inr joined \<Rightarrow> if joined > 0 then plan_and_commit env ?ns ?seed
                else return (Inr (sd_valid (scan_seed ?seed (parseMemberStatus out0)) = length podNames)))
            (\<lambda>r w'. \<forall>formed. r = Inr formed \<longrightarrow> reached w0 (membership_result ?ns ?seed podNames formed) w') t
        | Inr v' \<Rightarrow> reached w0 (join_inv ?ns ?seed out0 (pods @ [pod]) v') t) w"
      by (simp add: scan_seed ring_nodes_def) (elim wp_mono, simp split: sum.split)
  next
    fix joined :: nat and w
    assume w: "reached w0 (join_inv ?ns ?seed out0 podNames joined) w"
    show "wp (case Inr joined of Inl e \<Rightarrow> return (Inl e)
        | Inr joined \<Rightarrow> if joined > 0 then plan_and_commit env ?ns ?seed
            else return (Inr (sd_valid (scan_seed ?seed (parseMemberStatus out0)) = length podNames)))
      (\<lambda>r w'. \<forall>formed. r = Inr formed \<longrightarrow> reached w0 (membership_result ?ns ?seed podNames formed) w') w"
    proof (cases "joined > 0")
      case True
      then show ?thesis using wp_plan_and_commit_result[OF w] by simp
    next
      case False
      then show ?thesis
        using w by (auto simp: scan_seed(2) valid_members_def[symmetric] elim!: reached_mono intro!: membership_result_no_join)
    qed
  qed
  show ?thesis
    unfolding ReconcileMembership_def Let_def wp_bind
    by (rule wp_MemberStatus; simp add: wp_simps) (auto intro!: loop first)
qed

subsection \<open>Replaying the security commands\<close>

text \<open>
  The rights a user holds in Riak: triples of bucket type, bucket and permission, \<^verbatim>\<open>*\<close> standing for
  "any". Replaying the events of a run on them follows the documented meaning of the commands:
  a successful \<^verbatim>\<open>grant\<close> adds its permissions on its target, a successful \<^verbatim>\<open>revoke\<close> removes them, and
  \<^verbatim>\<open>print-grants\<close> prints exactly the rights held, as entries with one-word names; a run in which
  it prints anything else, or that names an undocumented target, has no replay.
\<close>

type_synonym rights = "(string \<times> string \<times> string) set"

definition target_key :: "string list \<Rightarrow> string \<times> string" where
  "target_key target =
     (if target ! 0 = resourceAny then (''*'', ''*'')
      else if length target = 1 then (target ! 0, ''*'')
      else (target ! 0, target ! 1))"

text \<open>\<^verbatim>\<open>any\<close>, a bucket type, or a bucket type and a bucket.\<close>

definition documented_target :: "string list \<Rightarrow> bool" where
  "documented_target target \<longleftrightarrow> target = [resourceAny] \<or>
     (length target = 1 \<or> length target = 2) \<and> target ! 0 \<noteq> resourceAny"

definition on_key :: "string \<times> string \<Rightarrow> string set \<Rightarrow> rights" where
  "on_key k toks = (\<lambda>tok. (fst k, snd k, tok)) ` toks"

definition command_target :: "string list \<Rightarrow> string list" where
  "command_target args = drop 4 (butlast (butlast args))"

definition command_rights :: "string list \<Rightarrow> rights" where
  "command_rights args = on_key (target_key (command_target args)) (set (Split (args ! 2) (CHR '','')))"

definition printed_rights :: "GrantEntry list \<Rightarrow> rights" where
  "printed_rights es = (\<Union>e \<in> set es. on_key (ge_Type e, ge_Bucket e) (set (ge_Tokens e)))"

definition wf_entry :: "GrantEntry \<Rightarrow> bool" where
  "wf_entry e \<longleftrightarrow> is_word (ge_Type e) \<and> is_word (ge_Bucket e) \<and> ge_Type e \<noteq> resourceAny \<and>
     (ge_Type e = ''*'' \<longrightarrow> ge_Bucket e = ''*'')"

definition replay_cmd :: "rights \<Rightarrow> string list \<Rightarrow> string \<Rightarrow> rights option" where
  "replay_cmd s args out =
     (if take 2 args = [''security'', ''grant''] then
        (if documented_target (command_target args) then Some (s \<union> command_rights args) else None)
      else if take 2 args = [''security'', ''revoke''] then
        (if documented_target (command_target args) then Some (s - command_rights args) else None)
      else if take 2 args = [''security'', ''print-grants''] then
        (if printed_rights (parseDedicatedGrants out) = s \<and> list_all wf_entry (parseDedicatedGrants out)
         then Some s else None)
      else Some s)"

definition replay1 :: "event \<Rightarrow> rights \<Rightarrow> rights option" where
  "replay1 e s = (case e of
      Exec a (Inr out) \<Rightarrow> if riakAdminFailed out then Some s else replay_cmd s (drop 11 a) out
    | _ \<Rightarrow> Some s)"

fun replay :: "event list \<Rightarrow> rights \<Rightarrow> rights option" where
  "replay [] s = Some s"
| "replay (e # es) s = Option.bind (replay1 e s) (replay es)"

lemma replay_snoc: "replay (es @ [e]) s = Option.bind (replay es s) (replay1 e)"
  by (induction es arbitrary: s) (auto split: bind_splits)

lemma replay1_cmd:
  "\<not> riakAdminFailed out \<Longrightarrow> replay1 (riak_cmd ns pod c args (Inr out)) s = replay_cmd s args out"
  by (simp add: replay1_def execBase_def)

text \<open>The rights a grant of the specification stands for.\<close>

definition grant_target :: "Grant \<Rightarrow> string list" where
  "grant_target g = (if g_Resource g = resourceAny then [resourceAny] else Fields (g_BucketName g))"

definition spec_rights :: "Grant list \<Rightarrow> rights" where
  "spec_rights gs = (\<Union>g \<in> set gs. on_key (target_key (grant_target g)) (set (permissionTokens [g_Permission g])))"

subsection \<open>Keys\<close>

definition key_string :: "string \<times> string \<Rightarrow> string" where
  "key_string k = fst k @ '' '' @ snd k"

lemma grantKey_key_string:
  "grantKey r b = map_sum id (\<lambda>t. key_string (target_key t)) (grantTarget r b)"
  by (auto simp: grantKey_def key_string_def target_key_def resourceAny_def split: sum.split)

lemma key_string_inject:
  assumes "CHR '' '' \<notin> set (fst k)" "CHR '' '' \<notin> set (snd k)"
  shows "key_string k = t @ '' '' @ b \<longleftrightarrow> k = (t, b)"
proof
  assume eq: "key_string k = t @ '' '' @ b"
  have "count_list (key_string k) (CHR '' '') = 1"
    using assms by (simp add: key_string_def count_list_0_iff)
  with eq have "count_list (t @ '' '' @ b) (CHR '' '') = 1" by simp
  then have "CHR '' '' \<notin> set t" "CHR '' '' \<notin> set b"
    by (auto simp: count_list_0_iff dest: count_notin)
  with assms eq show "k = (t, b)"
    by (cases k) (auto simp: key_string_def append_eq_append_conv2 append_eq_Cons_conv Cons_eq_append_conv)
qed (simp add: key_string_def)

lemma grantTarget_word:
  assumes "grantTarget r b = Inr target" shows "CHR '' '' \<notin> set (fst (target_key target))"
    and "CHR '' '' \<notin> set (snd (target_key target))"
proof -
  have ne: "target \<noteq> []" and all: "x \<in> set target \<Longrightarrow> CHR '' '' \<notin> set x" for x
    using assms Fields_no_blank
    by (auto simp: grantTarget_def resourceAny_def Let_def split: if_splits)
  then have "length target \<noteq> 1 \<Longrightarrow> 1 < length target" by (cases target) auto
  with ne all show "CHR '' '' \<notin> set (fst (target_key target))"
    "CHR '' '' \<notin> set (snd (target_key target))"
    by (auto simp: target_key_def)
qed


subsection \<open>The grants grouped by target\<close>

definition gtarget :: "Grant \<Rightarrow> target" where
  "gtarget g = (g_Resource g, g_BucketName g)"

lemma group_grants_snoc: "group_grants (gs @ [g]) = add_grant g (group_grants gs)"
  by (simp add: group_grants_def)

lemma group_grants_perms:
  "map_of (snd (group_grants gs)) t =
    (let ps = map g_Permission (filter (\<lambda>g. gtarget g = t) gs) in if ps = [] then None else Some ps)"
proof (induction gs arbitrary: t rule: rev_induct)
  case Nil
  show ?case by (simp add: group_grants_def)
next
  case (snoc g gs)
  obtain order perms where p: "group_grants gs = (order, perms)" by fastforce
  show ?case
    using snoc.IH[of t] snoc.IH[of "gtarget g"]
    by (auto simp: group_grants_snoc p add_grant_def gtarget_def Let_def split: option.split if_splits)
qed

lemma group_grants_order:
  "set (fst (group_grants gs)) = gtarget ` set gs \<and> distinct (fst (group_grants gs))"
proof (induction gs rule: rev_induct)
  case Nil
  show ?case by (simp add: group_grants_def)
next
  case (snoc g gs)
  obtain order perms where p: "group_grants gs = (order, perms)" by fastforce
  have "map_of perms (gtarget g) = None \<longleftrightarrow> gtarget g \<notin> gtarget ` set gs"
    using group_grants_perms[of gs "gtarget g"]
    by (auto simp: p Let_def filter_empty_conv split: if_splits) (metis imageI)
  with snoc show ?case
    by (auto simp: group_grants_snoc p add_grant_def gtarget_def Let_def split: option.splits)
qed

subsection \<open>The rights a run leaves\<close>

definition desired_rights :: "desired \<Rightarrow> rights" where
  "desired_rights d = {(t, b, tok). d (t @ '' '' @ b) tok}"

lemma desired_rights_empty [simp]: "desired_rights (\<lambda>_ _. False) = {}"
  by (simp add: desired_rights_def)

lemma desired_rights_add:
  assumes "grantTarget r b = Inr target" and "grantKey r b = Inr key"
  shows "desired_rights (\<lambda>k tok. d k tok \<or> k = key \<and> tok \<in> toks) = desired_rights d \<union> on_key (target_key target) toks"
proof -
  have key: "key = key_string (target_key target)"
    using assms by (simp add: grantKey_key_string)
  have "t @ '' '' @ b' = key \<longleftrightarrow> target_key target = (t, b')" for t b'
    using key_string_inject[OF grantTarget_word[OF assms(1)]] unfolding key by metis
  then show ?thesis
    by (auto simp: desired_rights_def on_key_def)
qed

lemma command_rights_cmd:
  assumes "toks \<noteq> []" and "\<And>tok. tok \<in> set toks \<Longrightarrow> CHR '','' \<notin> set tok"
  shows "command_rights ([''security'', verb, Join toks '','', ''on''] @ target @ [x, u]) =
      on_key (target_key target) (set toks)"
    and "command_target ([''security'', verb, Join toks '','', ''on''] @ target @ [x, u]) = target"
proof -
  have split: "Split (Join toks '','') (CHR '','') = toks"
    by (rule Split_Join) (use assms in auto)
  have "butlast (butlast ([a, b, c', d] @ target @ [x, u])) = [a, b, c', d] @ target" for a b c' d :: string
    by (simp add: butlast_append)
  then show t: "command_target ([''security'', verb, Join toks '','', ''on''] @ target @ [x, u]) = target"
    by (simp add: command_target_def)
  show "command_rights ([''security'', verb, Join toks '','', ''on''] @ target @ [x, u]) =
      on_key (target_key target) (set toks)"
    unfolding command_rights_def t by (simp add: split)
qed

lemma permissionTokens_no_comma: "tok \<in> set (permissionTokens ps) \<Longrightarrow> CHR '','' \<notin> set tok"
  using Split_elem_no_sep by (auto simp: set_permissionTokens)

lemma parseDedicatedGrants_no_comma:
  assumes "e \<in> set (parseDedicatedGrants out)" and "tok \<in> set (ge_Tokens e)"
  shows "CHR '','' \<notin> set tok"
proof -
  let ?ok = "\<lambda>e. \<forall>tok \<in> set (ge_Tokens e). CHR '','' \<notin> set tok"
  have row: "\<forall>tok \<in> set (row_tokens col). CHR '','' \<notin> set tok" for col
    using set_TrimSpace Split_elem_no_sep by (fastforce simp: row_tokens_def)
  have "\<forall>e \<in> set (grant_row line es). ?ok e" if "\<forall>e \<in> set es. ?ok e" for line es
    using that row last_in_set[of es]
    by (auto simp: grant_row_def append_to_last_def Let_def split: list.splits if_splits dest!: in_set_butlastD)
  then have "\<forall>e \<in> set (grants_loop ls b es). ?ok e" if "\<forall>e \<in> set es. ?ok e" for ls b es
    using that by (induction ls b es rule: grants_loop.induct) auto
  from this[of "[]"] assms show ?thesis by (auto simp: parseDedicatedGrants_def)
qed


text \<open>Phase one: every target is granted; the rights wanted so far are held.\<close>

definition granted :: "rights \<Rightarrow> desired \<Rightarrow> event list \<Rightarrow> bool" where
  "granted s0 d es \<longleftrightarrow> (\<forall>s. replay es s0 = Some s \<longrightarrow> desired_rights d \<subseteq> s)"

definition target_rights :: "(target \<times> string list) list \<Rightarrow> target \<Rightarrow> rights" where
  "target_rights perms t =
     (case (grantTarget (fst t) (snd t), map_of perms t) of
        (Inr target, Some ps) \<Rightarrow> on_key (target_key target) (set (permissionTokens ps))
      | _ \<Rightarrow> {})"

lemma wp_grant_body:
  assumes "map_of perms t = Some ps" and "ps \<noteq> []"
    and d: "desired_rights d = R" and w: "reached w0 (granted s0 d) w"
  shows "wp (grant_body env ns pod u perms t d)
    (\<lambda>r w'. \<forall>d'. r = Inr d' \<longrightarrow> (\<exists>target. grantTarget (fst t) (snd t) = Inr target) \<and>
       desired_rights d' = R \<union> target_rights perms t \<and> reached w0 (granted s0 d') w') w"
proof -
  let ?args = "\<lambda>target. [''security'', ''grant'', Join (permissionTokens ps) '','', ''on''] @ target @ [''to'', u]"
  have "desired_rights d' = R \<union> target_rights perms t \<and> reached w0 (granted s0 d') w'"
    if t: "grantTarget (fst t) (snd t) = Inr target" and key: "grantKey (fst t) (snd t) = Inr key"
      and d': "d' = (\<lambda>k tok. d k tok \<or> k = key \<and> tok \<in> set (permissionTokens ps))"
      and ok: "\<not> riakAdminFailed out" and ev: "cmd_event ns pod riakContainer (?args target) (Inr out) w w'"
    for target out key d' w'
  proof
    have rights: "desired_rights d' = desired_rights d \<union> on_key (target_key target) (set (permissionTokens ps))"
      unfolding d' by (rule desired_rights_add[OF t key])
    with d t assms(1) show "desired_rights d' = R \<union> target_rights perms t"
      by (simp add: target_rights_def)
    have cmd: "command_rights (?args target) = on_key (target_key target) (set (permissionTokens ps))"
      by (rule command_rights_cmd) (use \<open>ps \<noteq> []\<close> permissionTokens_no_comma in auto)
    have "granted s0 d' (es @ [riak_cmd ns pod riakContainer (?args target) (Inr out)])" if "granted s0 d es" for es
      unfolding granted_def replay_snoc replay1_cmd[OF ok] replay_cmd_def cmd rights
      using that by (auto simp: granted_def bind_eq_Some_conv split: if_splits)
    then show "reached w0 (granted s0 d') w'" by (rule reached_cmd[OF ev w])
  qed
  then show ?thesis
    unfolding grant_body_def Let_def wp_bind assms(1) option.case
    by (intro wp_GrantPermissions) (auto simp: wp_simps split: sum.split)
qed

text \<open>Phase two: the rights printed, less what has been revoked so far.\<close>

definition pruned :: "rights \<Rightarrow> rights \<Rightarrow> desired \<Rightarrow> GrantEntry list \<Rightarrow> event list \<Rightarrow> bool" where
  "pruned s0 R d done es \<longleftrightarrow>
     (\<forall>s. replay es s0 = Some s \<longrightarrow> s = R - (printed_rights done - desired_rights d))"

lemma stale_rights:
  "on_key (ge_Type e, ge_Bucket e) (set (stale_tokens d e)) =
    on_key (ge_Type e, ge_Bucket e) (set (ge_Tokens e)) - desired_rights d"
  by (auto simp: on_key_def stale_tokens_def desired_rights_def)

lemma printed_rights_snoc:
  "printed_rights (es @ [e]) = printed_rights es \<union> on_key (ge_Type e, ge_Bucket e) (set (ge_Tokens e))"
  by (auto simp: printed_rights_def)

lemma revoke_target_key:
  assumes "wf_entry e" and "grantTarget (fst (revoke_target e)) (snd (revoke_target e)) = Inr target"
  shows "target_key target = (ge_Type e, ge_Bucket e)"
proof -
  have "Fields (ge_Type e @ '' '' @ ge_Bucket e) = [ge_Type e, ge_Bucket e]" "Fields (ge_Type e) = [ge_Type e]"
    using assms(1) Fields_word_spaces[of "ge_Type e" "'' ''" "ge_Bucket e"]
    by (auto simp: wf_entry_def Fields_word)
  with assms show ?thesis
    by (auto simp: revoke_target_def grantTarget_def target_key_def wf_entry_def resourceAny_def split: if_splits)
qed

lemma wp_revoke_body:
  assumes "wf_entry e" and comma: "\<And>tok. tok \<in> set (ge_Tokens e) \<Longrightarrow> CHR '','' \<notin> set tok"
    and w: "reached w0 (pruned s0 R d es) w"
  shows "wp (revoke_body env ns pod u d e x)
    (\<lambda>r w'. \<forall>y. r = Inr y \<longrightarrow> reached w0 (pruned s0 R d (es @ [e])) w') w"
proof (cases "stale_tokens d e = []")
  case True
  then have "on_key (ge_Type e, ge_Bucket e) (set (ge_Tokens e)) \<subseteq> desired_rights d"
    using stale_rights[of e d] by (auto simp: on_key_def)
  then have "pruned s0 R d (es @ [e]) fs" if "pruned s0 R d es fs" for fs
    using that by (auto simp: pruned_def printed_rights_snoc)
  with w True show ?thesis
    by (auto simp: revoke_body_def elim: reached_mono)
next
  case False
  let ?args = "\<lambda>target. [''security'', ''revoke'', Join (stale_tokens d e) '','', ''on''] @ target @ [''from'', u]"
  have "reached w0 (pruned s0 R d (es @ [e])) w'"
    if t: "grantTarget (fst (revoke_target e)) (snd (revoke_target e)) = Inr target"
      and ok: "\<not> riakAdminFailed out" and ev: "cmd_event ns pod riakContainer (?args target) (Inr out) w w'"
    for target out w'
  proof (rule reached_cmd[OF ev w])
    fix fs assume fs: "pruned s0 R d es fs"
    have "command_rights (?args target) = on_key (target_key target) (set (stale_tokens d e))"
      by (rule command_rights_cmd) (use False comma in \<open>auto simp: stale_tokens_def\<close>)
    then have cmd: "command_rights (?args target) = on_key (ge_Type e, ge_Bucket e) (set (ge_Tokens e)) - desired_rights d"
      by (simp add: revoke_target_key[OF assms(1) t] stale_rights)
    show "pruned s0 R d (es @ [e]) (fs @ [riak_cmd ns pod riakContainer (?args target) (Inr out)])"
      unfolding pruned_def replay_snoc replay1_cmd[OF ok] replay_cmd_def cmd printed_rights_snoc
      using fs by (auto simp: pruned_def bind_eq_Some_conv split: if_splits)
  qed
  with False show ?thesis
    unfolding revoke_body_def Let_def
    by (auto intro!: wp_RevokePermissions simp: wp_simps)
qed


lemma replay_None_append: "replay es s = None \<Longrightarrow> replay (es @ fs) s = None"
  by (induction es arbitrary: s) (auto split: bind_splits)

lemma spec_rights_grouped:
  assumes "\<And>g. g \<in> set gs \<Longrightarrow> \<exists>target. grantTarget (g_Resource g) (g_BucketName g) = Inr target"
  shows "(\<Union>t \<in> set (fst (group_grants gs)). target_rights (snd (group_grants gs)) t) = spec_rights gs"
proof -
  have target: "grantTarget (g_Resource g) (g_BucketName g) = Inr (grant_target g)" if "g \<in> set gs" for g
    using assms[OF that] by (auto simp: grantTarget_def grant_target_def Let_def split: if_splits)
  have "target_rights (snd (group_grants gs)) (gtarget g) =
      on_key (target_key (grant_target g)) (\<Union>h \<in> {h \<in> set gs. gtarget h = gtarget g}. set (permissionTokens [g_Permission h]))"
    if "g \<in> set gs" for g
    using that target[OF that]
    by (auto simp: target_rights_def group_grants_perms gtarget_def Let_def filter_empty_conv on_key_def
        set_permissionTokens)
  then have "(\<Union>t \<in> set (fst (group_grants gs)). target_rights (snd (group_grants gs)) t) =
      (\<Union>g \<in> set gs. on_key (target_key (grant_target g))
        (\<Union>h \<in> {h \<in> set gs. gtarget h = gtarget g}. set (permissionTokens [g_Permission h])))"
    by (simp add: group_grants_order)
  also have "\<dots> = spec_rights gs"
  proof -
    have same: "grant_target h = grant_target g" if "h \<in> {h \<in> set gs. gtarget h = gtarget g}" for g h
      using that by (simp add: gtarget_def grant_target_def)
    have part: "on_key (target_key (grant_target g))
          (\<Union>h \<in> {h \<in> set gs. gtarget h = gtarget g}. set (permissionTokens [g_Permission h])) =
        (\<Union>h \<in> {h \<in> set gs. gtarget h = gtarget g}.
          on_key (target_key (grant_target h)) (set (permissionTokens [g_Permission h])))" for g
      unfolding on_key_def image_UN by (intro SUP_cong refl, drule same) (simp only:)
    have "(\<Union>g \<in> set gs. \<Union>h \<in> {h \<in> set gs. gtarget h = gtarget g}. F h) = (\<Union>h \<in> set gs. F h)"
      for F :: "Grant \<Rightarrow> rights"
      by blast
    then show ?thesis unfolding spec_rights_def part .
  qed
  finally show ?thesis .
qed

lemma wp_grant_loop:
  "wp (for_each (grant_body env ns pod u (snd (group_grants gs))) (fst (group_grants gs)) (\<lambda>_ _. False))
    (\<lambda>r w'. \<forall>d. r = Inr d \<longrightarrow> desired_rights d = spec_rights gs \<and> reached w0 (granted s0 d) w') w0"
proof (rule wp_for_each_prefix_post[where I = "\<lambda>pre d w. (\<forall>t \<in> set pre. \<exists>target. grantTarget (fst t) (snd t) = Inr target) \<and>
      desired_rights d = (\<Union>t \<in> set pre. target_rights (snd (group_grants gs)) t) \<and> reached w0 (granted s0 d) w"])
  show "(\<forall>t \<in> set []. \<exists>target. grantTarget (fst t) (snd t) = Inr target) \<and>
      desired_rights (\<lambda>_ _. False) = (\<Union>t \<in> set []. target_rights (snd (group_grants gs)) t) \<and>
      reached w0 (granted s0 (\<lambda>_ _. False)) w0"
    by (simp add: granted_def)
next
  fix pre t post d w
  assume order: "fst (group_grants gs) = pre @ t # post"
    and I: "(\<forall>t \<in> set pre. \<exists>target. grantTarget (fst t) (snd t) = Inr target) \<and>
      desired_rights d = (\<Union>t \<in> set pre. target_rights (snd (group_grants gs)) t) \<and> reached w0 (granted s0 d) w"
  have "t \<in> gtarget ` set gs" using group_grants_order[of gs] order by auto
  then obtain ps where "map_of (snd (group_grants gs)) t = Some ps" "ps \<noteq> []"
    using group_grants_perms[of gs t] by (fastforce simp: Let_def filter_empty_conv split: if_splits)
  from wp_grant_body[OF this conjunct1[OF conjunct2[OF I]] conjunct2[OF conjunct2[OF I]], of env ns pod u] I
  show "wp (grant_body env ns pod u (snd (group_grants gs)) t d)
     (\<lambda>r w'. case r of
         Inl e \<Rightarrow> \<forall>d. Inl e = Inr d \<longrightarrow> desired_rights d = spec_rights gs \<and> reached w0 (granted s0 d) w'
       | Inr d' \<Rightarrow> (\<forall>t \<in> set (pre @ [t]). \<exists>target. grantTarget (fst t) (snd t) = Inr target) \<and>
           desired_rights d' = (\<Union>t \<in> set (pre @ [t]). target_rights (snd (group_grants gs)) t) \<and>
           reached w0 (granted s0 d') w') w"
    by (elim wp_mono) (auto split: sum.split)
next
  fix d w
  assume I: "(\<forall>t \<in> set (fst (group_grants gs)). \<exists>target. grantTarget (fst t) (snd t) = Inr target) \<and>
      desired_rights d = (\<Union>t \<in> set (fst (group_grants gs)). target_rights (snd (group_grants gs)) t) \<and>
      reached w0 (granted s0 d) w"
  then have "\<exists>target. grantTarget (g_Resource g) (g_BucketName g) = Inr target" if "g \<in> set gs" for g
    using that group_grants_order[of gs] by (force simp: gtarget_def)
  from spec_rights_grouped[OF this] I
  show "\<forall>d'. Inr d = Inr d' \<longrightarrow> desired_rights d' = spec_rights gs \<and> reached w0 (granted s0 d') w"
    by simp
qed


lemma emits_revoke_body: "emits (\<lambda>_. True) (revoke_body env ns pod u d e x)"
  unfolding revoke_body_def by (auto intro!: emits_rules)

lemma wp_revoke_loop:
  assumes w: "reached w0 (\<lambda>es. \<exists>es'. es = es' @ [riak_cmd ns pod riakContainer [''security'', ''print-grants'', u] (Inr out)]
      \<and> granted s0 d es') w" and ok: "\<not> riakAdminFailed out"
  shows "wp (for_each (revoke_body env ns pod u d) (parseDedicatedGrants out) ())
    (\<lambda>r w'. \<forall>y. r = Inr y \<longrightarrow> reached w0 (\<lambda>es. \<forall>s. replay es s0 = Some s \<longrightarrow> s = desired_rights d) w') w"
proof -
  let ?cur = "parseDedicatedGrants out"
  show ?thesis
  proof (cases "list_all wf_entry ?cur \<and> desired_rights d \<subseteq> printed_rights ?cur")
    case True
    show ?thesis
    proof (rule wp_for_each_prefix_post[where I = "\<lambda>pre _ w. reached w0 (pruned s0 (printed_rights ?cur) d pre) w"])
      show "reached w0 (pruned s0 (printed_rights ?cur) d []) w"
        using w by (rule reached_mono)
          (auto simp: pruned_def printed_rights_def replay_snoc replay1_cmd[OF ok] replay_cmd_def bind_eq_Some_conv
            split: if_splits)
    next
      fix pre e post x w
      assume cur: "?cur = pre @ e # post" and I: "reached w0 (pruned s0 (printed_rights ?cur) d pre) w"
      then have e: "e \<in> set ?cur" by simp
      with True have "wf_entry e" by (simp add: list_all_iff)
      from wp_revoke_body[OF this parseDedicatedGrants_no_comma[OF e] I, of env ns pod u x]
      show "wp (revoke_body env ns pod u d e x)
        (\<lambda>r w'. case r of
            Inl err \<Rightarrow> \<forall>y. Inl err = Inr y \<longrightarrow>
              reached w0 (\<lambda>es. \<forall>s. replay es s0 = Some s \<longrightarrow> s = desired_rights d) w'
          | Inr v \<Rightarrow> reached w0 (pruned s0 (printed_rights ?cur) d (pre @ [e])) w') w"
        by (simp, elim wp_mono) (auto split: sum.split)
    next
      fix v w assume "reached w0 (pruned s0 (printed_rights ?cur) d ?cur) w"
      then have "reached w0 (\<lambda>es. \<forall>s. replay es s0 = Some s \<longrightarrow> s = desired_rights d) w"
        by (rule reached_mono) (use True in \<open>auto simp: pruned_def\<close>)
      then show "\<forall>y. Inr v = Inr y \<longrightarrow> reached w0 (\<lambda>es. \<forall>s. replay es s0 = Some s \<longrightarrow> s = desired_rights d) w"
        by simp
    qed
  next
    case False
    have "reached w0 (\<lambda>es. replay es s0 = None) w"
    proof (rule reached_mono[OF w])
      fix es
      assume "\<exists>es'. es = es' @ [riak_cmd ns pod riakContainer [''security'', ''print-grants'', u] (Inr out)] \<and> granted s0 d es'"
      then obtain es' where es: "es = es' @ [riak_cmd ns pod riakContainer [''security'', ''print-grants'', u] (Inr out)]"
        and g: "granted s0 d es'" by blast
      show "replay es s0 = None"
        using g False
        by (cases "replay es' s0") (auto simp: es replay_snoc replay1_cmd[OF ok] replay_cmd_def granted_def)
    qed
    then have "wp (for_each (revoke_body env ns pod u d) ?cur ()) (\<lambda>_. reached w0 (\<lambda>es. replay es s0 = None)) w"
      by (rule wp_emits_reached[rotated]) (auto intro!: emits_for_each emits_revoke_body replay_None_append)
    then show ?thesis
      by (rule wp_mono) (auto elim: reached_mono)
  qed
qed

lemma GrantUserPermissions_rights:
  "wp (GrantUserPermissions env cluster u gs)
    (\<lambda>r w'. r = None \<longrightarrow> reached w0 (\<lambda>es. \<forall>s. replay es s0 = Some s \<longrightarrow> s = spec_rights gs) w') w0"
proof (cases "clt_Members (cl_Status cluster)")
  case Nil
  then show ?thesis by (simp add: GrantUserPermissions_def on_first_member_def)
next
  case (Cons m ms)
  let ?ns = "cl_Namespace cluster" and ?pod = "nm_Pod m"
  have after: "wp (do {
            c \<leftarrow> GetUserGrants env ?ns ?pod riakContainer u;
            (case c of
               Inl e \<Rightarrow> return (Some (''read current grants: '' @ e))
             | Inr current \<Rightarrow> do {
                 r \<leftarrow> for_each (revoke_body env ?ns ?pod u d) current ();
                 return (case r of Inl e \<Rightarrow> Some e | Inr _ \<Rightarrow> None)
               })
          })
     (\<lambda>r w'. r = None \<longrightarrow> reached w0 (\<lambda>es. \<forall>s. replay es s0 = Some s \<longrightarrow> s = desired_rights d) w') w"
    if w: "reached w0 (granted s0 d) w" for d w
    unfolding wp_bind
  proof (rule wp_GetUserGrants)
    fix out w'
    assume ok: "\<not> riakAdminFailed out"
      and ev: "cmd_event ?ns ?pod riakContainer [''security'', ''print-grants'', u] (Inr out) w w'"
    have "reached w0 (\<lambda>es. \<exists>es'. es = es' @ [riak_cmd ?ns ?pod riakContainer [''security'', ''print-grants'', u] (Inr out)]
      \<and> granted s0 d es') w'"
      by (rule reached_cmd[OF ev w]) auto
    from wp_revoke_loop[OF this ok, of env]
    show "wp (case Inr (parseDedicatedGrants out) of
        Inl e \<Rightarrow> return (Some (''read current grants: '' @ e))
      | Inr current \<Rightarrow> do {
          r \<leftarrow> for_each (revoke_body env ?ns ?pod u d) current ();
          return (case r of Inl e \<Rightarrow> Some e | Inr _ \<Rightarrow> None)
        })
      (\<lambda>r w'. r = None \<longrightarrow> reached w0 (\<lambda>es. \<forall>s. replay es s0 = Some s \<longrightarrow> s = desired_rights d) w') w'"
      by simp (elim wp_mono, auto split: sum.splits)
  qed simp
  show ?thesis
    unfolding GrantUserPermissions_def on_first_member_def Cons list.case Let_def case_prod_beta wp_bind
    by (rule wp_mono[OF wp_grant_loop[where ?s0.0 = s0]]) (use after in \<open>fastforce simp: wp_simps split: sum.split\<close>)
qed


subsection \<open>Concrete rings\<close>

text \<open>Nodes that answer \<^verbatim>\<open>member-status\<close> with a table per pod and accept every other command.\<close>

definition ring_env :: "(string \<Rightarrow> ClusterMember list) \<Rightarrow> unit env" where
  "ring_env ring = sample_env\<lparr>run_kubectl := (\<lambda>args w.
     (Inr (if drop 11 args = [''member-status'']
           then Join (map (member_row ''50.0%'' ''--'') (ring (args ! 3))) [NL]
           else ''ok''), w))\<rparr>"

definition member :: "string \<Rightarrow> ClusterMember" where
  "member node = \<lparr>cm_Status = ''valid'', cm_Node = node\<rparr>"

text \<open>Two standalone nodes, and two nodes in one ring.\<close>

definition apart :: "string \<Rightarrow> ClusterMember list" where
  "apart pod = [member (''riak@'' @ pod @ ''.c'')]"

lemma apart_run:
  "emitted (ReconcileMembership (ring_env apart) (sample_cluster 2) [''c-0'', ''c-1'']) (start ()) =
    [status_cmd ''ns'' ''c-0'' ''valid     50.0%      --      riak@c-0.c'',
     status_cmd ''ns'' ''c-1'' ''valid     50.0%      --      riak@c-1.c''] @
    join_cmd ''ns'' ''c-1'' ''riak@c-0.c'' (Inr ''ok'') #
    [riak_cmd ''ns'' ''c-0'' riakContainer [''cluster'', ''plan''] (Inr ''ok''),
     riak_cmd ''ns'' ''c-0'' riakContainer [''cluster'', ''commit''] (Inr ''ok'')]"
  by code_simp

theorem ReconcileMembership_joins_only_standalone_witness:
  "\<exists>pre r post. emitted (ReconcileMembership (ring_env apart) (sample_cluster 2) [''c-0'', ''c-1'']) (start ()) =
      pre @ riak_cmd ''ns'' ''c-1'' riakContainer [''cluster'', ''join'', ''riak@c-0.c''] r # post \<and>
    (\<exists>out m. riak_cmd ''ns'' ''c-1'' riakContainer [''member-status''] (Inr out) \<in> set pre \<and>
       parseMemberStatus out = [m])"
proof -
  have "cl_Namespace (sample_cluster 2) = ''ns''" by code_simp
  from ReconcileMembership_joins_only_standalone[of "ring_env apart" "sample_cluster 2", unfolded this, OF apart_run]
    apart_run
  show ?thesis by blast
qed

text \<open>
  C17: what a run of \<open>ReconcileMembership\<close> without an error means. It starts with the seed's
  \<^verbatim>\<open>member-status\<close>. If it joined any pod it ends with exactly one successful \<^verbatim>\<open>cluster plan\<close> and then one
  successful \<^verbatim>\<open>cluster commit\<close> on the seed, and it answers "not formed yet". If it joined none it
  runs neither, every pod other than the seed has shown a ring of more than itself (or one the
  seed lists), and it answers "formed" exactly when the number of valid members the seed lists
  is the number of pods.
\<close>

theorem ReconcileMembership_formed:
  assumes "run_state (ReconcileMembership env cluster podNames) w = (Inr formed, w')"
  shows "membership_result (cl_Namespace cluster) (cl_Name cluster @ ''-0'') podNames formed
    (emitted (ReconcileMembership env cluster podNames) w)"
  using wp_run[OF assms ReconcileMembership_membership_result[of env cluster podNames w]] assms
  by (auto simp: reached_def emitted_def)

definition joined_ring :: "string \<Rightarrow> ClusterMember list" where
  "joined_ring pod = [member ''riak@c-0.c'', member ''riak@c-1.c'']"

theorem ReconcileMembership_formed_witness:
  "\<exists>out0. hd (emitted (ReconcileMembership (ring_env joined_ring) (sample_cluster 2) [''c-0'', ''c-1'']) (start ())) =
      status_cmd ''ns'' ''c-0'' out0 \<and> valid_members out0 = 2"
proof -
  let ?m = "ReconcileMembership (ring_env joined_ring) (sample_cluster 2) [''c-0'', ''c-1'']"
  have res: "fst (run_state ?m (start ())) = Inr True" by code_simp
  then obtain w' where run: "run_state ?m (start ()) = (Inr True, w')" by (metis prod.collapse)
  have none: "filter (cluster_cmd ''join'') (emitted ?m (start ())) = []" by code_simp
  have names: "cl_Namespace (sample_cluster 2) = ''ns''" "cl_Name (sample_cluster 2) @ ''-0'' = ''c-0''" by code_simp+
  show ?thesis
    using ReconcileMembership_formed[OF run] unfolding membership_result_def none names by auto
qed

definition stray_ring :: "string \<Rightarrow> ClusterMember list" where
  "stray_ring pod =
     (if pod = ''c-2'' then [member ''riak@c-2.c'', member ''riak@x-0.x'']
      else [member ''riak@c-0.c'', member ''riak@c-1.c'', member ''riak@c-3.c''])"


subsection \<open>A concrete user\<close>

text \<open>The user may write to the type \<^verbatim>\<open>t1\<close>; the specification wants reads of one bucket of it.\<close>

definition sample_grants :: "Grant list" where
  "sample_grants = [\<lparr>g_Resource = ''bucket'', g_BucketName = ''t1 b1'', g_Permission = ''read''\<rparr>]"

definition grants_env :: "unit env" where
  "grants_env = sample_env\<lparr>run_kubectl := (\<lambda>args w.
     (Inr (if take 2 (drop 11 args) = [''security'', ''print-grants'']
           then grants_output [] (table_row ''type'' ''bucket'' ''grants'') '' ''
             [(''t1'', ''*'', ''riak_kv.put'', []), (''t1'', ''b1'', ''riak_kv.get'', [])] [] []
           else ''ok''), w))\<rparr>"

definition sample_member_cluster :: RiakCluster where
  "sample_member_cluster = (sample_cluster 1)\<lparr>cl_Status := sample_status\<lparr>clt_Members := [sample_member ''c-0'']\<rparr>\<rparr>"


text \<open>
  The grants are batched by target: one command per distinct target, the targets being exactly
  those of the specification, each with all its permissions in the order the specification lists them.
\<close>

lemma group_grants_by_target:
  "distinct (fst (group_grants gs)) \<and> set (fst (group_grants gs)) = gtarget ` set gs \<and>
   map_of (snd (group_grants gs)) t =
     (if t \<in> gtarget ` set gs then Some (map g_Permission (filter (\<lambda>g. gtarget g = t) gs)) else None)"
proof -
  have "filter (\<lambda>g. gtarget g = t) gs = [] \<longleftrightarrow> t \<notin> gtarget ` set gs"
    by (auto simp: filter_empty_conv)
  then show ?thesis using group_grants_order[of gs] group_grants_perms[of gs t] by (simp add: Let_def)
qed

subsection \<open>A bucket called any\<close>

lemma grant_body_any:
  assumes "Fields b = [''any'']"
  shows "grant_body env ns pod u [((''bucket'', b), ps)] (''bucket'', b) = grant_body env ns pod u [((''any'', b'), ps)] (''any'', b')"
proof -
  have "grantTarget ''bucket'' b = grantTarget ''any'' b'"
    using assms by (simp add: grantTarget_def resourceAny_def)
  then show ?thesis by (simp add: grant_body_def GrantPermissions_def grantKey_def fun_eq_iff)
qed

lemma for_each_single: "body x = body' x' \<Longrightarrow> for_each body [x] v = for_each body' [x'] v"
  by (simp only: for_each.simps)

lemma group_grants_single [simp]: "group_grants [g] = ([gtarget g], [(gtarget g, [g_Permission g])])"
  by (simp add: group_grants_def add_grant_def gtarget_def Let_def)

text \<open>
  C37: a \<^verbatim>\<open>bucket\<close> grant whose bucket is the word \<^verbatim>\<open>any\<close> is a grant on the whole cluster: the manager
  runs the same commands for it, with the same result, as for a grant on the resource \<^verbatim>\<open>any\<close>. The guard of
  \<^verbatim>\<open>grantTarget\<close> against widening a bucket grant only looks for an empty bucket.
\<close>

theorem bucket_named_any_widens:
  "GrantUserPermissions env cluster u [\<lparr>g_Resource = ''bucket'', g_BucketName = ''any'', g_Permission = p\<rparr>] =
   GrantUserPermissions env cluster u [\<lparr>g_Resource = ''any'', g_BucketName = [], g_Permission = p\<rparr>]"
proof -
  have "Fields ''any'' = [''any'']" by code_simp
  then have "for_each (grant_body env ns pod u [((''bucket'', ''any''), [p])]) [(''bucket'', ''any'')] d =
      for_each (grant_body env ns pod u [((''any'', []), [p])]) [(''any'', [])] d" for ns pod d
    by (intro for_each_single grant_body_any)
  then show ?thesis by (simp del: for_each.simps add: GrantUserPermissions_def gtarget_def)
qed

end
