(* ===== verification/Status.thy ===== *)
theory Status
  imports Manager
begin

text \<open>
  Status reporting shared by the three controllers (\<^verbatim>\<open>internal/controller/status.go\<close>): conditions,
  the readiness and health of a pod and of its containers, and the readiness of a cert-manager
  certificate.
\<close>

definition conditionReady :: string where "conditionReady = ''Ready''"
definition conditionStorageReady :: string where "conditionStorageReady = ''StorageReady''"
definition conditionCertificateReady :: string where "conditionCertificateReady = ''CertificateReady''"

definition ConditionTrue :: string where "ConditionTrue = ''True''"
definition ConditionFalse :: string where "ConditionFalse = ''False''"

text \<open>
  The clock is read because \<^verbatim>\<open>meta.SetStatusCondition\<close> stamps a transition with the current time.
  The result is the new conditions and whether anything changed.
\<close>

definition setCondition ::
  "'w env \<Rightarrow> Condition list \<Rightarrow> string \<Rightarrow> bool \<Rightarrow> int \<Rightarrow> string \<Rightarrow> string \<Rightarrow> ('w, Condition list \<times> bool) action" where
  "setCondition env conds condType ok generation reason message = do {
     now \<leftarrow> Now env;
     return (SetStatusCondition env now conds
       \<lparr>c_Type = condType, c_Status = (if ok then ConditionTrue else ConditionFalse),
        c_ObservedGeneration = generation, c_LastTransitionTime = 0,
        c_Reason = reason, c_Message = message\<rparr>)
   }"

fun ready_condition :: "PodCondition list \<Rightarrow> bool" where
  "ready_condition [] = False"
| "ready_condition (cond # cs) =
     (if pc_Type cond = ''Ready'' then pc_Status cond = ConditionTrue else ready_condition cs)"

definition podIsReady :: "Pod \<Rightarrow> bool" where
  "podIsReady pod = ready_condition (p_Conditions pod)"

definition podHealth :: "Pod \<Rightarrow> bool \<Rightarrow> string" where
  "podHealth pod ready =
     (if ready then NodeHealthy
      else if p_Phase pod = [] \<or> p_Phase pod = ''Unknown'' then NodeHealthUnknown
      else NodeUnhealthy)"

fun container_ready :: "string \<Rightarrow> string \<Rightarrow> ContainerStatus list \<Rightarrow> bool \<times> string" where
  "container_ready podName name [] = (False, ''container '' @ name @ '' not found in pod '' @ podName)"
| "container_ready podName name (cs # css) =
     (if cs_Name cs \<noteq> name then container_ready podName name css
      else if cs_Ready cs then (True, [])
      else (case cs_Waiting cs of
              Some (c # r) \<Rightarrow> (False, c # r)
            | _ \<Rightarrow>
                (case cs_Terminated cs of
                   Some (c # r) \<Rightarrow> (False, c # r)
                 | _ \<Rightarrow> (False, ''container is not ready''))))"

definition containerReady :: "Pod \<Rightarrow> string \<Rightarrow> bool \<times> string" where
  "containerReady pod name = container_ready (p_Name pod) name (p_ContainerStatuses pod)"

definition notIssued :: string where "notIssued = ''certificate has not been issued yet''"

fun cert_conditions :: "uval list \<Rightarrow> bool \<times> string" where
  "cert_conditions [] = (False, notIssued)"
| "cert_conditions (raw # conds) =
     (case raw of
        UMap cond \<Rightarrow>
          if u_string cond ''type'' \<noteq> ''Ready'' then cert_conditions conds
          else if u_string cond ''status'' = ConditionTrue then (True, [])
          else if u_string cond ''message'' \<noteq> [] then (False, u_string cond ''message'')
          else (False, ''certificate is not ready'')
      | _ \<Rightarrow> cert_conditions conds)"

definition certificateReady :: "'w env \<Rightarrow> uval \<Rightarrow> bool \<times> string" where
  "certificateReady env cert =
     (case NestedSlice env cert [''status'', ''conditions''] of
        Inr (Some conds) \<Rightarrow> cert_conditions conds
      | _ \<Rightarrow> (False, notIssued))"

definition fetchCertificateReadiness ::
  "'w env \<Rightarrow> string \<Rightarrow> string \<Rightarrow> ('w, bool \<times> string) action" where
  "fetchCertificateReadiness env name namespace = do {
     r \<leftarrow> effect (\<lambda>_. Get KCertificate namespace name) (get_cert env namespace name);
     return (case r of
         Inl err \<Rightarrow>
           if IsNotFound err then (False, ''cert-manager Certificate '' @ name @ '' does not exist yet'')
           else if IsNoMatchError err then (False, ''cert-manager CRDs are not installed'')
           else (False, api_msg err)
       | Inr cert \<Rightarrow> certificateReady env cert)
   }"

subsection \<open>The condition helpers of \<^verbatim>\<open>apimachinery\<close>\<close>

text \<open>
  The documented behaviour the operator relies on: setting a condition (without a transition time
  of its own) replaces the one of that type, keeps its transition time when the status has
  not changed and stamps it with the current time otherwise; removing a condition removes its type;
  neither touches the other types.
\<close>

definition condition_laws :: "'w env \<Rightarrow> bool" where
  "condition_laws env \<longleftrightarrow>
     (\<forall>now cs c t. c_LastTransitionTime c = 0 \<longrightarrow>
        FindStatusCondition env (fst (SetStatusCondition env now cs c)) t =
          (if t = c_Type c then
             Some (c\<lparr>c_LastTransitionTime :=
               (case FindStatusCondition env cs t of
                  Some d \<Rightarrow> if c_Status d = c_Status c then c_LastTransitionTime d else now
                | None \<Rightarrow> now)\<rparr>)
           else FindStatusCondition env cs t)) \<and>
     (\<forall>cs t t'. FindStatusCondition env (RemoveStatusCondition env cs t) t' =
        (if t' = t then None else FindStatusCondition env cs t'))"

lemma find_map_replace:
  assumes "find (\<lambda>d. c_Type d = t) cs = Some d0" and "c_Type d = t"
  shows "find (\<lambda>e. c_Type e = t') (map (\<lambda>e. if c_Type e = t then d else e) cs) =
    (if t' = t then Some d else find (\<lambda>e. c_Type e = t') cs)"
  using assms
proof (induction cs)
  case (Cons a cs)
  have "find (\<lambda>e. c_Type e = t') (map (\<lambda>e. if c_Type e = t then d else e) cs) =
      find (\<lambda>e. c_Type e = t') cs" if "t' \<noteq> t" for cs
    using that \<open>c_Type d = t\<close> by (induction cs) auto
  with Cons show ?case by (auto split: if_splits)
qed simp

lemma set_condition_find:
  assumes "c_LastTransitionTime c = 0"
  shows "find (\<lambda>d. c_Type d = t) (fst (set_condition now cs c)) =
    (if t = c_Type c then
       Some (c\<lparr>c_LastTransitionTime :=
         (case find (\<lambda>d. c_Type d = t) cs of
            Some d \<Rightarrow> if c_Status d = c_Status c then c_LastTransitionTime d else now
          | None \<Rightarrow> now)\<rparr>)
     else find (\<lambda>d. c_Type d = t) cs)"
proof (cases "find (\<lambda>d. c_Type d = c_Type c) cs")
  case None
  have "find (\<lambda>d. c_Type d = t) (cs @ [e]) =
      (case find (\<lambda>d. c_Type d = t) cs of None \<Rightarrow> if c_Type e = t then Some e else None | Some x \<Rightarrow> Some x)" for e
    by (induction cs) auto
  with None show ?thesis
    by (auto simp: set_condition_def split: option.split)
next
  case (Some d)
  show ?thesis
    by (simp add: set_condition_def Some Let_def find_map_replace[OF Some])
qed

lemma find_filter_neq:
  "find (\<lambda>c. c_Type c = t') (filter (\<lambda>c. c_Type c \<noteq> t) cs) =
    (if t' = t then None else find (\<lambda>c. c_Type c = t') cs)"
  by (induction cs) auto

lemma condition_lawsI:
  assumes "SetStatusCondition env = set_condition"
    and "RemoveStatusCondition env = (\<lambda>cs t. filter (\<lambda>c. c_Type c \<noteq> t) cs)"
    and "FindStatusCondition env = (\<lambda>cs t. find (\<lambda>c. c_Type c = t) cs)"
  shows "condition_laws env"
  unfolding condition_laws_def by (simp add: assms set_condition_find find_filter_neq)

subsection \<open>What the helpers report\<close>

lemma emits_setCondition [emits_rules]: "emits P (setCondition env cs t ok gen r m)"
  unfolding setCondition_def by (auto intro!: emits_rules)

lemma emits_fetchCertificateReadiness [emits_rules]:
  "P (Get KCertificate ns n) \<Longrightarrow> emits P (fetchCertificateReadiness env n ns)"
  unfolding fetchCertificateReadiness_def by (auto intro!: emits_rules)

lemma wp_setCondition:
  "(\<And>p w'. trace w' = trace w \<Longrightarrow> Q p w') \<Longrightarrow> wp (setCondition env cs t ok gen r m) Q w"
  by (auto simp: setCondition_def wp_Now split: prod.split)

lemma ready_condition_iff:
  "ready_condition cs \<longleftrightarrow>
    (case find (\<lambda>c. pc_Type c = ''Ready'') cs of None \<Rightarrow> False | Some c \<Rightarrow> pc_Status c = ConditionTrue)"
  by (induction cs) auto

lemma podHealth_cases:
  "podHealth pod ready = NodeHealthy \<longleftrightarrow> ready"
  by (simp add: podHealth_def NodeHealthy_def NodeUnhealthy_def NodeHealthUnknown_def)

text \<open>The conditions of a certificate that \<open>cert_conditions\<close> looks at: maps of type \<^verbatim>\<open>Ready\<close>.\<close>

definition ready_maps :: "uval list \<Rightarrow> (string \<times> uval) list list" where
  "ready_maps conds =
     filter (\<lambda>m. u_string m ''type'' = ''Ready'')
       (List.map_filter (\<lambda>v. case v of UMap m \<Rightarrow> Some m | _ \<Rightarrow> None) conds)"

lemma cert_conditions_ready_maps:
  "cert_conditions conds =
    (case ready_maps conds of
       [] \<Rightarrow> (False, notIssued)
     | m # _ \<Rightarrow>
         if u_string m ''status'' = ConditionTrue then (True, [])
         else (False, if u_string m ''message'' = [] then ''certificate is not ready'' else u_string m ''message''))"
  by (induction conds) (auto simp: ready_maps_def List.map_filter_simps split: uval.split)

text \<open>
  A certificate counts as ready exactly when its \<^verbatim>\<open>status.conditions\<close> can be read and the first
  condition of type \<^verbatim>\<open>Ready\<close> among them has status \<^verbatim>\<open>True\<close>; malformed conditions are passed over.
  The explanation is empty exactly when it is ready.
\<close>

lemma certificateReady_iff:
  "(fst (certificateReady env cert) \<longleftrightarrow>
     (\<exists>conds m ms. NestedSlice env cert [''status'', ''conditions''] = Inr (Some conds) \<and>
        ready_maps conds = m # ms \<and> u_string m ''status'' = ''True'')) \<and>
   (snd (certificateReady env cert) = [] \<longleftrightarrow> fst (certificateReady env cert))"
  by (auto simp: certificateReady_def cert_conditions_ready_maps notIssued_def ConditionTrue_def
      split: sum.split option.split list.split)

lemma container_ready_iff:
  "fst (container_ready p n css) \<longleftrightarrow>
    (case find (\<lambda>c. cs_Name c = n) css of None \<Rightarrow> False | Some c \<Rightarrow> cs_Ready c)"
  by (induction css) (auto split: option.split list.split)

lemma container_ready_reason: "snd (container_ready p n css) = [] \<longleftrightarrow> fst (container_ready p n css)"
  by (induction css) (auto split: option.split list.split)

end
