(* ===== verification/Rollout.thy ===== *)
theory Rollout
  imports Status
begin

text \<open>
  The operator-driven rolling restart (\<^verbatim>\<open>internal/controller/rollout.go\<close>): the partition the
  StatefulSet is written with, the decision to restart the next node, the gate that the cluster is
  settled, the conditions that report where the rollout stands, and the PodDisruptionBudget.
  The operations on a cluster return the cluster they were given with the new status, because
  the source mutates it in place.
\<close>

definition conditionUpdateInProgress :: string where "conditionUpdateInProgress = ''UpdateInProgress''"
definition conditionRolloutBlocked :: string where "conditionRolloutBlocked = ''RolloutBlocked''"
definition conditionRolloutStalled :: string where "conditionRolloutStalled = ''RolloutStalled''"
definition statefulSetRevisionLabel :: string where "statefulSetRevisionLabel = ''controller-revision-hash''"
definition defaultRolloutStall :: duration where "defaultRolloutStall = 30 * Minute"

record rolloutPod =
  rp_ordinal :: int
  rp_name :: string
  rp_revision :: string
  rp_ready :: bool

definition rolloutInProgress :: "StatefulSet \<Rightarrow> bool" where
  "rolloutInProgress sts \<longleftrightarrow> s_UpdateRevision sts \<noteq> [] \<and> s_UpdateRevision sts \<noteq> s_CurrentRevision sts"

definition livePartition :: "StatefulSet \<Rightarrow> int" where
  "livePartition sts = (case ss_Partition (s_Spec sts) of Some p \<Rightarrow> p | None \<Rightarrow> 0)"

definition stsPartition :: "StatefulSet \<Rightarrow> int \<Rightarrow> int" where
  "stsPartition existing replicas =
     (if m_UID (s_Meta existing) = [] then 0
      else if rolloutInProgress existing then min (livePartition existing) replicas
      else replicas)"

definition byOrdinal :: "rolloutPod list \<Rightarrow> int \<Rightarrow> rolloutPod option" where
  "byOrdinal pods = fold (\<lambda>p m. m(rp_ordinal p \<mapsto> p)) pods Map.empty"

text \<open>The loop over the ordinals from the partition up: the first reason to wait, if any.\<close>

fun blocked_by :: "(int \<Rightarrow> rolloutPod option) \<Rightarrow> string \<Rightarrow> int list \<Rightarrow> string option" where
  "blocked_by pods updateRevision [] = None"
| "blocked_by pods updateRevision (ord # ords) =
     (case pods ord of
        None \<Rightarrow> Some (''pod '' @ Itoa ord @ '' is not created yet'')
      | Some p \<Rightarrow>
          if rp_revision p \<noteq> updateRevision then Some (''pod '' @ rp_name p @ '' is not yet on the new revision'')
          else if \<not> rp_ready p then Some (''pod '' @ rp_name p @ '' is not Ready'')
          else blocked_by pods updateRevision ords)"

definition rolloutNext :: "int \<Rightarrow> int \<Rightarrow> string \<Rightarrow> rolloutPod list \<Rightarrow> int \<times> string" where
  "rolloutNext part replicas updateRevision pods =
     (if part \<le> 0 then (0, [])
      else case blocked_by (byOrdinal pods) updateRevision [part..replicas - 1] of
             Some why \<Rightarrow> (part, why)
           | None \<Rightarrow> (i32 (part - 1), []))"

definition podOrdinal :: "string \<Rightarrow> int option" where
  "podOrdinal name =
     (case cut_last (CHR ''-'') name of
        None \<Rightarrow> None
      | Some (_, digits) \<Rightarrow>
          (case ParseInt digits 32 of
             None \<Rightarrow> None
           | Some n \<Rightarrow> if n < 0 then None else Some n))"

definition podOrdinalOrMax :: "string \<Rightarrow> int" where
  "podOrdinalOrMax name = (case podOrdinal name of Some o' \<Rightarrow> o' | None \<Rightarrow> max_i32)"

definition rollout_pod :: "Pod \<Rightarrow> rolloutPod option" where
  "rollout_pod pod =
     (case podOrdinal (p_Name pod) of
        None \<Rightarrow> None
      | Some ord \<Rightarrow>
          if m_DeletionTimestamp (p_Meta pod) \<noteq> None then None
          else Some \<lparr>rp_ordinal = ord, rp_name = p_Name pod,
            rp_revision = map_get (m_Labels (p_Meta pod)) statefulSetRevisionLabel,
            rp_ready = podIsReady pod\<rparr>)"

definition rolloutPods :: "'w env \<Rightarrow> RiakCluster \<Rightarrow> ('w, rolloutPod list res) action" where
  "rolloutPods env cluster = do {
     let labels = [(''app'', ''riak''), (''cluster'', cl_Name cluster)];
     r \<leftarrow> effect (ListPods (cl_Namespace cluster) labels) (list_pods env (cl_Namespace cluster) labels);
     return (case r of
         Inl err \<Rightarrow> Inl (api_msg err)
       | Inr items \<Rightarrow> Inr (List.map_filter rollout_pod items))
   }"

text \<open>The loop of \<^verbatim>\<open>clusterSettled\<close> over the pods: \<open>Inl\<close> a reason, or \<open>Inr\<close> the pod to ask.\<close>

fun settle_loop :: "rolloutPod list \<Rightarrow> string \<Rightarrow> string + string" where
  "settle_loop [] probe = Inr probe"
| "settle_loop (p # ps) probe =
     (if \<not> rp_ready p then Inl (''pod '' @ rp_name p @ '' is not Ready'')
      else settle_loop ps
        (if probe = [] \<or> rp_ordinal p < podOrdinalOrMax probe then rp_name p else probe))"

definition waitsForTransfers :: "RiakCluster \<Rightarrow> bool" where
  "waitsForTransfers cluster =
     (case cls_Rollout (cl_Spec cluster) of
        None \<Rightarrow> True
      | Some ro \<Rightarrow> (case ro_WaitForTransfers ro of None \<Rightarrow> True | Some b \<Rightarrow> b))"

definition validCount :: "ClusterMember list \<Rightarrow> int" where
  "validCount members = i32 (int (length (filter (\<lambda>m. cm_Status m = ''valid'') members)))"

definition clusterSettled :: "'w env \<Rightarrow> RiakCluster \<Rightarrow> rolloutPod list \<Rightarrow> ('w, bool \<times> string) action" where
  "clusterSettled env cluster pods =
     (let ns = cl_Namespace cluster; sz = cls_Size (cl_Spec cluster)
      in if i32 (int (length pods)) < sz then
           return (False, Itoa (int (length pods)) @ '' of '' @ Itoa sz @ '' pods exist'')
         else case settle_loop pods [] of
           Inl why \<Rightarrow> return (False, why)
         | Inr probe \<Rightarrow>
             if sz = 1 \<or> probe = [] then return (True, [])
             else do {
               r \<leftarrow> MemberStatus env ns probe riakContainer;
               (case r of
                  Inl e \<Rightarrow> return (False, ''member-status on '' @ probe @ '' failed: '' @ e)
                | Inr members \<Rightarrow>
                    if validCount members \<noteq> sz \<or> i32 (int (length members)) \<noteq> sz then
                      return (False, Itoa (validCount members) @ '' of '' @ Itoa sz @ '' nodes are valid ring members'')
                    else if waitsForTransfers cluster then do {
                      t \<leftarrow> TransfersIdle env ns probe riakContainer;
                      (case t of
                         Inl e \<Rightarrow> return (False, ''riak-admin transfers on '' @ probe @ '' failed: '' @ e)
                       | Inr (idle, detail) \<Rightarrow>
                           if \<not> idle
                           then return (False, ''waiting for handoff and ownership transfers to finish: '' @ detail)
                           else return (True, []))
                    }
                    else return (True, []))
             })"

text \<open>One more condition on a cluster; the \<^verbatim>\<open>changed\<close> result is not used on this path.\<close>

definition setClusterCondition ::
  "'w env \<Rightarrow> RiakCluster \<Rightarrow> string \<Rightarrow> bool \<Rightarrow> string \<Rightarrow> string \<Rightarrow> ('w, RiakCluster) action" where
  "setClusterCondition env cluster condType ok reason message = do {
     (conds, _) \<leftarrow> setCondition env (clt_Conditions (cl_Status cluster)) condType ok
       (m_Generation (cl_Meta cluster)) reason message;
     return (cl_set_conditions conds cluster)
   }"

definition clearBlocked :: "'w env \<Rightarrow> RiakCluster \<Rightarrow> RiakCluster" where
  "clearBlocked env cluster =
     cl_set_conditions
       (RemoveStatusCondition env
         (RemoveStatusCondition env (clt_Conditions (cl_Status cluster)) conditionRolloutBlocked)
         conditionRolloutStalled) cluster"

definition clearRolloutConditions :: "'w env \<Rightarrow> RiakCluster \<Rightarrow> RiakCluster" where
  "clearRolloutConditions env cluster =
     clearBlocked env (cl_set_conditions
       (RemoveStatusCondition env (clt_Conditions (cl_Status cluster)) conditionUpdateInProgress) cluster)"

definition stallTimeout :: "RiakCluster \<Rightarrow> duration" where
  "stallTimeout cluster =
     (case cls_Rollout (cl_Spec cluster) of
        None \<Rightarrow> defaultRolloutStall
      | Some ro \<Rightarrow> (case ro_StallTimeout ro of None \<Rightarrow> defaultRolloutStall | Some d \<Rightarrow> d))"

definition markBlocked ::
  "'w env \<Rightarrow> RiakCluster \<Rightarrow> string \<Rightarrow> string \<Rightarrow> bool \<Rightarrow> ('w, RiakCluster) action" where
  "markBlocked env cluster reason message canStall = do {
     c1 \<leftarrow> setClusterCondition env cluster conditionUpdateInProgress True ''Waiting'' message;
     c2 \<leftarrow> setClusterCondition env c1 conditionRolloutBlocked True reason message;
     stalled \<leftarrow>
       (if canStall then
          (case FindStatusCondition env (clt_Conditions (cl_Status c2)) conditionRolloutBlocked of
             None \<Rightarrow> return False
           | Some c \<Rightarrow> do {
               now \<leftarrow> Now env;
               return (now - c_LastTransitionTime c > stallTimeout cluster)
             })
        else return False);
     (if stalled then
        setClusterCondition env c2 conditionRolloutStalled True ''StallTimeout''
          (''the rollout has been waiting longer than spec.rollout.stallTimeout: '' @ message)
      else setClusterCondition env c2 conditionRolloutStalled False ''Progressing'' [])
   }"

definition rolloutPaused :: "RiakCluster \<Rightarrow> bool" where
  "rolloutPaused cluster = (case cls_Rollout (cl_Spec cluster) of None \<Rightarrow> False | Some ro \<Rightarrow> ro_Paused ro)"

definition with_partition :: "int \<Rightarrow> StatefulSet \<Rightarrow> StatefulSet" where
  "with_partition p sts = sts\<lparr>s_Spec := (s_Spec sts)\<lparr>ss_Partition := Some p\<rparr>\<rparr>"

definition patchPartition ::
  "'w env \<Rightarrow> RiakCluster \<Rightarrow> StatefulSet \<Rightarrow> int \<Rightarrow> ('w, RiakCluster \<times> error option) action" where
  "patchPartition env cluster sts next = do {
     let sts' = with_partition next sts;
     r \<leftarrow> effect (\<lambda>_. Patch (m_Namespace (s_Meta sts)) (m_Name (s_Meta sts)) sts') (patch_sts env sts sts');
     (case r of
        Some err \<Rightarrow> return (cluster, Some (api_msg err))
      | None \<Rightarrow> do {
          c1 \<leftarrow> setClusterCondition env cluster conditionUpdateInProgress True ''Restarting''
            (''restarting '' @ cl_Name cluster @ ''-'' @ Itoa next @ '' ('' @ Itoa (i32 (next + 1)) @ '' of '' @
             Itoa (cls_Size (cl_Spec cluster)) @ '' nodes still on the old revision)'');
          return (clearBlocked env c1, None)
        })
   }"

definition reconcileRollout :: "'w env \<Rightarrow> RiakCluster \<Rightarrow> ('w, RiakCluster \<times> error option) action" where
  "reconcileRollout env cluster = do {
     g \<leftarrow> effect (GetSts (cl_Namespace cluster) (cl_Name cluster)) (get_sts env (cl_Namespace cluster) (cl_Name cluster));
     (case g of
        Inl err \<Rightarrow> return (cluster, IgnoreNotFound err)
      | Inr sts \<Rightarrow>
          if \<not> rolloutInProgress sts then return (clearRolloutConditions env cluster, None)
          else do {
            ps \<leftarrow> rolloutPods env cluster;
            (case ps of
               Inl e \<Rightarrow> return (cluster, Some e)
             | Inr pods \<Rightarrow> do {
                 let part = livePartition sts;
                 let (next, blocked) = rolloutNext part (cls_Size (cl_Spec cluster)) (s_UpdateRevision sts) pods;
                 (if part \<le> 0 then do {
                    c1 \<leftarrow> setClusterCondition env cluster conditionUpdateInProgress True ''Finishing''
                      ''the last node is restarting on the new revision'';
                    return (clearBlocked env c1, None)
                  }
                  else if rolloutPaused cluster then do {
                    c1 \<leftarrow> markBlocked env cluster ''Paused'' ''the rollout is paused (spec.rollout.paused)'' False;
                    return (c1, None)
                  }
                  else do {
                    blocked' \<leftarrow>
                      (if blocked = [] then do {
                         (settled, why) \<leftarrow> clusterSettled env cluster pods;
                         return (if settled then blocked else why)
                       }
                       else return blocked);
                    (if blocked' \<noteq> [] then do {
                       c1 \<leftarrow> markBlocked env cluster ''WaitingForCluster'' blocked' True;
                       return (c1, None)
                     }
                     else patchPartition env cluster sts next)
                  })
               })
          })
   }"

definition pdbEnabled :: "RiakCluster \<Rightarrow> bool" where
  "pdbEnabled cluster =
     (case cls_PodDisruptionBudget (cl_Spec cluster) of
        None \<Rightarrow> True
      | Some c \<Rightarrow> (case pdbc_Enabled c of None \<Rightarrow> True | Some b \<Rightarrow> b))"

definition mutate_pdb :: "'w env \<Rightarrow> RiakCluster \<Rightarrow> PodDisruptionBudget \<Rightarrow> PodDisruptionBudget res" where
  "mutate_pdb env cluster pdb =
     (case SetControllerReference env (cl_Meta cluster) (pdb_Meta pdb) of
        Inl e \<Rightarrow> Inl e
      | Inr m \<Rightarrow> Inr (pdb\<lparr>pdb_MaxUnavailable := Some (FromInt32 1),
          pdb_MatchLabels := [(''app'', ''riak''), (''cluster'', cl_Name cluster)], pdb_Meta := m\<rparr>))"

definition reconcilePodDisruptionBudget :: "'w env \<Rightarrow> RiakCluster \<Rightarrow> ('w, error option) action" where
  "reconcilePodDisruptionBudget env cluster = do {
     let pdb = \<lparr>pdb_Meta = new_meta (cl_Name cluster) (cl_Namespace cluster), pdb_MaxUnavailable = None,
       pdb_MatchLabels = []\<rparr>;
     (if \<not> pdbEnabled cluster then do {
        r \<leftarrow> effect (\<lambda>_. Delete KPDB (cl_Namespace cluster) (cl_Name cluster))
          (delete_obj env KPDB (cl_Namespace cluster) (cl_Name cluster));
        return (Option.bind r IgnoreNotFound)
      }
      else do {
        r \<leftarrow> effect (\<lambda>_. CreateOrUpdate KPDB (cl_Namespace cluster) (cl_Name cluster))
          (cou_pdb env pdb (mutate_pdb env cluster));
        return (map_option api_msg r)
      })
   }"

subsection \<open>The decision to restart the next node\<close>

text \<open>Every ordinal in a range has its pod on the new revision and ready.\<close>

definition updated :: "rolloutPod list \<Rightarrow> string \<Rightarrow> int \<Rightarrow> bool" where
  "updated pods r ord \<longleftrightarrow> (case byOrdinal pods ord of None \<Rightarrow> False | Some p \<Rightarrow> rp_revision p = r \<and> rp_ready p)"

definition all_updated :: "rolloutPod list \<Rightarrow> string \<Rightarrow> int \<Rightarrow> int \<Rightarrow> bool" where
  "all_updated pods r from to \<longleftrightarrow> list_all (updated pods r) [from..to - 1]"

lemma blocked_by_None: "blocked_by (byOrdinal pods) r ords = None \<longleftrightarrow> list_all (updated pods r) ords"
  by (induction ords) (auto simp: updated_def split: option.split)

lemma blocked_by_Some: "blocked_by m r ords = Some why \<Longrightarrow> why \<noteq> []"
  by (induction ords) (auto split: option.splits if_splits)

lemma byOrdinal_snoc: "byOrdinal (ps @ [p]) = (byOrdinal ps)(rp_ordinal p \<mapsto> p)"
  by (simp add: byOrdinal_def)

lemma byOrdinal_Some: "byOrdinal pods ord = Some p \<Longrightarrow> p \<in> set pods \<and> rp_ordinal p = ord"
  by (induction pods rule: rev_induct) (auto simp: byOrdinal_def split: if_splits)

lemma byOrdinal_distinct:
  "distinct (map rp_ordinal pods) \<Longrightarrow> p \<in> set pods \<Longrightarrow> byOrdinal pods (rp_ordinal p) = Some p"
  by (induction pods rule: rev_induct) (auto simp: byOrdinal_snoc rev_image_eqI)

lemma rolloutNext_eq:
  assumes "is_i32 part" and "0 < part"
  shows "rolloutNext part replicas r pods = (part - 1, []) \<and> all_updated pods r part replicas \<or>
    (\<exists>why. why \<noteq> [] \<and> rolloutNext part replicas r pods = (part, why)) \<and> \<not> all_updated pods r part replicas"
proof -
  have "i32 (part - 1) = part - 1"
    using assms by (intro i32_id) (auto simp: is_i32_def)
  with assms show ?thesis
    using blocked_by_None[of pods r "[part..replicas - 1]"] blocked_by_Some[of "byOrdinal pods" r "[part..replicas - 1]"]
    by (cases "blocked_by (byOrdinal pods) r [part..replicas - 1]") (auto simp: rolloutNext_def all_updated_def)
qed

subsection \<open>Ordinals\<close>

lemma podOrdinal_bounds: "podOrdinal name = Some n \<Longrightarrow> 0 \<le> n \<and> n \<le> max_i32"
  using ParseInt_bounds[of _ 32]
  by (fastforce simp: podOrdinal_def max_i32_def split: option.splits prod.splits if_splits)

text \<open>
  The ordinal of a pod name is the number after its last dash: composing a StatefulSet pod
  name from any set name and an ordinal and reading the ordinal back is the identity, and
  every ordinal read is a non-negative 32-bit integer.
\<close>

lemma podOrdinal_roundtrip:
  assumes "0 \<le> n" and "n \<le> max_i32"
  shows "podOrdinal (name @ ''-'' @ Itoa n) = Some n"
proof -
  have "Itoa n = show_nat (nat n)" using assms by (simp add: Itoa_def)
  moreover have "ParseInt (show_nat (nat n)) 32 = Some n"
    using assms ParseInt_show_nat[of "nat n" 32] by (simp add: max_i32_def)
  ultimately show ?thesis
    using assms show_nat_no_sign(1)[of "nat n"] by (simp add: podOrdinal_def)
qed

lemma podOrdinal_Nil [simp]: "podOrdinal [] = None"
  by (simp add: podOrdinal_def)


subsection \<open>The partition the StatefulSet is written with\<close>


definition sample_sts :: "string \<Rightarrow> int \<Rightarrow> StatefulSet" where
  "sample_sts rev1 part = \<lparr>s_Meta = (new_meta ''c'' ''ns'')\<lparr>m_UID := ''u1''\<rparr>,
     s_Spec = \<lparr>ss_UpdateStrategyType = ''RollingUpdate'', ss_Partition = Some part, ss_ServiceName = ''c-headless'',
       ss_Replicas = 3, ss_MatchLabels = [], ss_Template = None, ss_VolumeClaimTemplates = []\<rparr>,
     s_CurrentRevision = ''old'', s_UpdateRevision = rev1\<rparr>"


subsection \<open>Waiting and stalling\<close>

lemma setClusterCondition_run:
  assumes "time_now env (outside w) = (t, outside w)"
  shows "run_state (setClusterCondition env cluster condType ok reason message) w =
    (cl_set_conditions (fst (SetStatusCondition env t (clt_Conditions (cl_Status cluster))
       \<lparr>c_Type = condType, c_Status = (if ok then ConditionTrue else ConditionFalse),
        c_ObservedGeneration = m_Generation (cl_Meta cluster), c_LastTransitionTime = 0,
        c_Reason = reason, c_Message = message\<rparr>)) cluster, w)"
  using assms by (simp add: setClusterCondition_def setCondition_def Now_def case_prod_beta)

text \<open>The time since when the rollout has been blocked, as the status records it.\<close>

definition blockedSince :: "'w env \<Rightarrow> time \<Rightarrow> RiakCluster \<Rightarrow> time" where
  "blockedSince env now cluster =
     (case FindStatusCondition env (clt_Conditions (cl_Status cluster)) conditionRolloutBlocked of
        Some c \<Rightarrow> if c_Status c = ConditionTrue then c_LastTransitionTime c else now
      | None \<Rightarrow> now)"

lemma cl_set_conditions_simps [simp]:
  "clt_Conditions (cl_Status (cl_set_conditions cs c)) = cs"
  "cl_Spec (cl_set_conditions cs c) = cl_Spec c" "cl_Meta (cl_set_conditions cs c) = cl_Meta c"
  by (simp_all add: cl_set_conditions_def)




subsection \<open>A restart only of a settled cluster\<close>

fun is_patch :: "event \<Rightarrow> bool" where
  "is_patch (Patch ns n s) = True"
| "is_patch _ = False"

text \<open>What the run has seen when the cluster counts as settled.\<close>

definition settled_evidence :: "RiakCluster \<Rightarrow> rolloutPod list \<Rightarrow> event list \<Rightarrow> bool" where
  "settled_evidence cluster pods es \<longleftrightarrow>
     cls_Size (cl_Spec cluster) \<le> i32 (int (length pods)) \<and> list_all rp_ready pods \<and>
     (cls_Size (cl_Spec cluster) > 1 \<longrightarrow>
        (\<exists>probe out. probe \<in> rp_name ` set pods \<and>
           status_cmd (cl_Namespace cluster) probe out \<in> set es \<and>
           validCount (parseMemberStatus out) = cls_Size (cl_Spec cluster) \<and>
           i32 (int (length (parseMemberStatus out))) = cls_Size (cl_Spec cluster) \<and>
           (waitsForTransfers cluster \<longrightarrow>
              (\<exists>idle. riak_cmd (cl_Namespace cluster) probe riakContainer [''transfers''] (Inr idle) \<in> set es \<and>
                 parseTransfersIdle idle))))"

lemma settle_loop_Inr:
  "settle_loop pods probe = Inr probe' \<Longrightarrow>
    list_all rp_ready pods \<and> (probe' = probe \<or> probe' \<in> rp_name ` set pods)"
  by (induction pods probe rule: settle_loop.induct) (auto split: if_splits)

lemma settle_loop_named:
  "settle_loop pods probe = Inr probe' \<Longrightarrow> list_all (\<lambda>p. rp_name p \<noteq> []) pods \<Longrightarrow> pods \<noteq> [] \<or> probe \<noteq> [] \<Longrightarrow>
    probe' \<noteq> []"
  by (induction pods probe rule: settle_loop.induct) (auto split: if_splits)

lemma settle_loop_Inl: "settle_loop pods probe = Inl why \<Longrightarrow> why \<noteq> []"
  by (induction pods probe rule: settle_loop.induct) (auto split: if_splits)

lemma wp_TransfersIdle:
  assumes "\<And>out w'. \<not> riakAdminFailed out \<Longrightarrow> cmd_event ns pod c [''transfers''] (Inr out) w w' \<Longrightarrow>
      Q (Inr (parseTransfersIdle out, compactOutput out)) w'"
    and "\<And>r e w'. snd (admin_result [''transfers''] r) = Some e \<Longrightarrow>
      cmd_event ns pod c [''transfers''] r w w' \<Longrightarrow> Q (Inl e) w'"
  shows "wp (TransfersIdle env ns pod c) Q w"
  by (auto simp: TransfersIdle_def intro!: wp_admin_cases assms)

lemma Itoa_append_neq [simp]: "Itoa n @ x # xs \<noteq> []"
  by simp

text \<open>A cluster of one node needs no ring, and one of several has been asked.\<close>

lemma settled_small:
  assumes "cls_Size (cl_Spec cluster) \<le> i32 (int (length pods))" "settle_loop pods [] = Inr probe"
    "cls_Size (cl_Spec cluster) = 1 \<or> probe = []" "list_all (\<lambda>p. rp_name p \<noteq> []) pods"
  shows "settled_evidence cluster pods es"
proof -
  have "cls_Size (cl_Spec cluster) \<le> 1"
  proof (cases "cls_Size (cl_Spec cluster) = 1")
    case False
    with assms(3) have "pods = []" using settle_loop_named[OF assms(2,4)] by auto
    with assms(1) show ?thesis by (simp add: i32_def)
  qed simp
  with assms(1) settle_loop_Inr[OF assms(2)] show ?thesis by (simp add: settled_evidence_def)
qed

definition ring_as_expected :: "RiakCluster \<Rightarrow> string \<Rightarrow> bool" where
  "ring_as_expected cluster out \<longleftrightarrow> validCount (parseMemberStatus out) = cls_Size (cl_Spec cluster) \<and>
     i32 (int (length (parseMemberStatus out))) = cls_Size (cl_Spec cluster)"

lemma settled_probed:
  assumes "cls_Size (cl_Spec cluster) \<le> i32 (int (length pods))" "settle_loop pods [] = Inr probe" "probe \<noteq> []"
    "status_cmd (cl_Namespace cluster) probe out \<in> set es" "ring_as_expected cluster out"
    "waitsForTransfers cluster \<Longrightarrow> \<exists>idle. riak_cmd (cl_Namespace cluster) probe riakContainer [''transfers''] (Inr idle) \<in> set es \<and>
       parseTransfersIdle idle"
  shows "settled_evidence cluster pods es"
  using assms settle_loop_Inr[OF assms(2)] by (auto simp: settled_evidence_def ring_as_expected_def)

text \<open>The answer of \<open>clusterSettled\<close>: the evidence, or a reason.\<close>

abbreviation settled_answer :: "'w world \<Rightarrow> (event list \<Rightarrow> bool) \<Rightarrow> RiakCluster \<Rightarrow> rolloutPod list \<Rightarrow> bool \<times> string \<Rightarrow> 'w world \<Rightarrow> bool" where
  "settled_answer w0 P cluster pods \<equiv> (\<lambda>(ok, why) w'. if ok then reached w0 (\<lambda>es. P es \<and> settled_evidence cluster pods es) w'
     else why \<noteq> [] \<and> reached w0 P w')"

lemma wp_transfers_part:
  assumes w: "reached w0 (\<lambda>es. P es \<and> status_cmd (cl_Namespace cluster) probe out \<in> set es) w"
    and stable: "\<And>es pod args r. P es \<Longrightarrow> P (es @ [riak_cmd (cl_Namespace cluster) pod riakContainer args r])"
    and settled: "cls_Size (cl_Spec cluster) \<le> i32 (int (length pods))" "settle_loop pods [] = Inr probe" "probe \<noteq> []"
      "ring_as_expected cluster out"
  shows "wp (TransfersIdle env (cl_Namespace cluster) probe riakContainer)
      (\<lambda>t. wp (case t of
          Inl e \<Rightarrow> return (False, ''riak-admin transfers on '' @ probe @ '' failed: '' @ e)
        | Inr (idle, detail) \<Rightarrow>
            if \<not> idle
            then return (False, ''waiting for handoff and ownership transfers to finish: '' @ detail)
            else return (True, []))
        (settled_answer w0 P cluster pods)) w"
proof (rule wp_TransfersIdle, goal_cases)
  case (1 idle w')
  have "reached w0 (\<lambda>es. P es \<and> settled_evidence cluster pods es) w'" if "parseTransfersIdle idle"
    by (rule reached_cmd[OF 1(2) w], intro conjI settled_probed[OF settled(1-3) _ settled(4)]) (use that stable in auto)
  moreover have "reached w0 P w'" by (rule reached_cmd[OF 1(2) w]) (simp add: stable)
  ultimately show ?case by simp
next
  case (2 r e w')
  have "reached w0 P w'" by (rule reached_cmd[OF 2(2) w]) (simp add: stable)
  then show ?case by simp
qed

lemma wp_clusterSettled:
  assumes w: "reached w0 P w" and stable: "\<And>es pod args r. P es \<Longrightarrow> P (es @ [riak_cmd ns pod riakContainer args r])"
    and ns: "ns = cl_Namespace cluster" and names: "list_all (\<lambda>p. rp_name p \<noteq> []) pods"
  shows "wp (clusterSettled env cluster pods) (settled_answer w0 P cluster pods) w"
proof (cases "i32 (int (length pods)) < cls_Size (cl_Spec cluster)")
  case True
  with w show ?thesis by (simp add: clusterSettled_def)
next
  case enough: False
  then have le: "cls_Size (cl_Spec cluster) \<le> i32 (int (length pods))" by simp
  show ?thesis
  proof (cases "settle_loop pods []")
    case (Inl why)
    with enough w settle_loop_Inl show ?thesis by (auto simp: clusterSettled_def)
  next
    case (Inr probe)
    show ?thesis
    proof (cases "cls_Size (cl_Spec cluster) = 1 \<or> probe = []")
      case True
      have "reached w0 (\<lambda>es. P es \<and> settled_evidence cluster pods es) w"
        using w by (rule reached_mono) (simp add: settled_small[OF le Inr True names])
      with enough Inr True show ?thesis by (auto simp: clusterSettled_def)
    next
      case False
      show ?thesis
        unfolding clusterSettled_def Let_def Inr sum.case if_not_P[OF enough] if_not_P[OF False] wp_bind
      proof (rule wp_MemberStatus, goal_cases)
        case (1 out w')
        then have ev: "reached w0 (\<lambda>es. P es \<and> status_cmd (cl_Namespace cluster) probe out \<in> set es) w'"
          using stable by (intro reached_cmd[OF _ w]) (auto simp: ns)
        have plain: "reached w0 P w'" by (rule reached_mono[OF ev]) simp
        have none: "reached w0 (\<lambda>es. P es \<and> settled_evidence cluster pods es) w'"
          if "ring_as_expected cluster out" "\<not> waitsForTransfers cluster"
          by (rule reached_mono[OF ev], intro conjI settled_probed[OF le Inr _ _ that(1)]) (use that False in auto)
        have idle: "probe \<noteq> []" using False by simp
        show ?case
          using wp_transfers_part[OF ev stable[unfolded ns] le Inr idle] none plain unfolding ring_as_expected_def
          by (simp only: sum.case wp_if wp_bind wp_return prod.case) simp
      next
        case (2 r e w')
        then have "reached w0 P w'" using stable by (intro reached_cmd[OF _ w]) (auto simp: ns)
        then show ?case by simp
      qed
    qed
  qed
qed

text \<open>The justification of a patch.\<close>

definition patch_ok :: "RiakCluster \<Rightarrow> event list \<Rightarrow> event \<Rightarrow> bool" where
  "patch_ok cluster pre e \<longleftrightarrow>
     (\<forall>ns n new. e = Patch ns n new \<longrightarrow>
        (\<exists>sts items. GetSts (cl_Namespace cluster) (cl_Name cluster) (Inr sts) \<in> set pre \<and>
           ListPods (cl_Namespace cluster) [(''app'', ''riak''), (''cluster'', cl_Name cluster)] (Inr items) \<in> set pre \<and>
           rolloutInProgress sts \<and> \<not> rolloutPaused cluster \<and> 0 < livePartition sts \<and>
           new = with_partition (i32 (livePartition sts - 1)) sts \<and>
           all_updated (List.map_filter rollout_pod items) (s_UpdateRevision sts) (livePartition sts)
             (cls_Size (cl_Spec cluster)) \<and>
           settled_evidence cluster (List.map_filter rollout_pod items) pre))"

text \<open>A run with at most one patch, which is its last event.\<close>

definition patched_last :: "event list \<Rightarrow> bool" where
  "patched_last es \<longleftrightarrow> list_all (\<lambda>e. \<not> is_patch e) (butlast es)"

lemma rollout_pod_named: "list_all (\<lambda>p. rp_name p \<noteq> []) (List.map_filter rollout_pod items)"
proof -
  have "rp_name p \<noteq> []" if "rollout_pod pod = Some p" for pod p
    using that by (auto simp: rollout_pod_def split: option.splits if_splits)
  then show ?thesis by (auto simp: list_all_iff List.map_filter_def)
qed

lemma emits_markBlocked: "emits P (markBlocked env cluster r m b)"
  unfolding markBlocked_def setClusterCondition_def
  by (auto intro!: emits_rules split: option.split)

lemma emits_setClusterCondition: "emits P (setClusterCondition env cluster t ok r m)"
  unfolding setClusterCondition_def by (auto intro!: emits_rules)

lemma no_patch_justified: "list_all (\<lambda>e. \<not> is_patch e) es \<Longrightarrow> justified (patch_ok cluster) es \<and> patched_last es"
  by (induction es rule: rev_induct) (auto simp: patch_ok_def patched_last_def)

lemma patch_justified:
  "list_all (\<lambda>e. \<not> is_patch e) es \<Longrightarrow> patch_ok cluster es e \<Longrightarrow>
   justified (patch_ok cluster) (es @ [e]) \<and> patched_last (es @ [e])"
  by (simp add: no_patch_justified patched_last_def)

abbreviation safe_run :: "RiakCluster \<Rightarrow> event list \<Rightarrow> bool" where
  "safe_run cluster es \<equiv> justified (patch_ok cluster) es \<and> patched_last es"

lemma wp_patchPartition:
  assumes w: "reached w0 (\<lambda>es. list_all (\<lambda>e. \<not> is_patch e) es \<and>
      patch_ok cluster es (Patch (m_Namespace (s_Meta sts)) (m_Name (s_Meta sts)) (with_partition next sts))) w"
  shows "wp (patchPartition env cluster sts next) (\<lambda>_. reached w0 (safe_run cluster)) w"
proof -
  let ?e = "Patch (m_Namespace (s_Meta sts)) (m_Name (s_Meta sts)) (with_partition next sts)"
  have "reached w0 (safe_run cluster) w'" if "trace w' = trace w @ [?e]" for w'
    by (rule reached_step[OF w that]) (auto simp only: patch_justified)
  then show ?thesis
    unfolding patchPartition_def Let_def wp_bind
    by (intro wp_effect_any)
      (auto simp: wp_simps split: option.split intro!: wp_silent[OF emits_setClusterCondition])
qed

text \<open>What the rollout has seen when it decides: the StatefulSet and the pods, and no patch yet.\<close>

abbreviation no_patch :: "event list \<Rightarrow> bool" where
  "no_patch \<equiv> list_all (\<lambda>e. \<not> is_patch e)"

definition looked :: "RiakCluster \<Rightarrow> StatefulSet \<Rightarrow> Pod list \<Rightarrow> event list \<Rightarrow> bool" where
  "looked cluster sts items es \<longleftrightarrow> no_patch es \<and>
     GetSts (cl_Namespace cluster) (cl_Name cluster) (Inr sts) \<in> set es \<and>
     ListPods (cl_Namespace cluster) [(''app'', ''riak''), (''cluster'', cl_Name cluster)] (Inr items) \<in> set es"

lemma safe_no_patch: "reached w0 (\<lambda>es. no_patch es \<and> Q es) w \<Longrightarrow> reached w0 (safe_run cluster) w"
  by (rule reached_mono, assumption) (simp add: no_patch_justified)

lemma safe_looked: "reached w0 (looked cluster sts items) w \<Longrightarrow> reached w0 (safe_run cluster) w"
  by (rule reached_mono, assumption) (simp add: looked_def no_patch_justified)

text \<open>The gate: without a reason to wait, the cluster is asked whether it is settled, and only then is the partition patched.\<close>

lemma wp_gated_patch:
  assumes w: "reached w0 (looked cluster sts items) w"
    and sts: "rolloutInProgress sts" "\<not> rolloutPaused cluster" "0 < livePartition sts"
      "all_updated (List.map_filter rollout_pod items) (s_UpdateRevision sts) (livePartition sts) (cls_Size (cl_Spec cluster))"
  shows "wp (clusterSettled env cluster (List.map_filter rollout_pod items))
      (\<lambda>a. wp (return (if fst a then [] else snd a))
        (\<lambda>blocked'. wp (if blocked' \<noteq> [] then do {
               c1 \<leftarrow> markBlocked env cluster ''WaitingForCluster'' blocked' True;
               return (c1, None)
             }
             else patchPartition env cluster sts (i32 (livePartition sts - 1)))
          (\<lambda>_. reached w0 (safe_run cluster)))) w"
proof (rule wp_mono[OF wp_clusterSettled[OF w _ refl rollout_pod_named]], goal_cases)
  case (1 es pod args r)
  then show ?case by (auto simp: looked_def)
next
  case (2 r w')
  obtain ok why where r: "r = (ok, why)" by fastforce
  show ?case
  proof (cases ok)
    case True
    with 2 r have "reached w0 (\<lambda>es. looked cluster sts items es \<and> settled_evidence cluster (List.map_filter rollout_pod items) es) w'"
      by simp
    then have "reached w0 (\<lambda>es. no_patch es \<and> patch_ok cluster es
        (Patch (m_Namespace (s_Meta sts)) (m_Name (s_Meta sts)) (with_partition (i32 (livePartition sts - 1)) sts))) w'"
      by (rule reached_mono) (use sts in \<open>auto simp: patch_ok_def looked_def\<close>)
    then show ?thesis using True r by (simp add: wp_patchPartition)
  next
    case False
    with 2 r safe_looked show ?thesis by (auto intro!: wp_silent[OF emits_markBlocked])
  qed
qed

text \<open>The decision, once the StatefulSet and the pods have been read.\<close>

lemma wp_decide:
  assumes w: "reached w0 (looked cluster sts items) w" and sts: "rolloutInProgress sts"
  shows "wp (do {
        let (next, blocked) = rolloutNext (livePartition sts) (cls_Size (cl_Spec cluster)) (s_UpdateRevision sts)
          (List.map_filter rollout_pod items);
        (if livePartition sts \<le> 0 then do {
           c1 \<leftarrow> setClusterCondition env cluster conditionUpdateInProgress True ''Finishing''
             ''the last node is restarting on the new revision'';
           return (clearBlocked env c1, None)
         }
         else if rolloutPaused cluster then do {
           c1 \<leftarrow> markBlocked env cluster ''Paused'' ''the rollout is paused (spec.rollout.paused)'' False;
           return (c1, None)
         }
         else do {
           blocked' \<leftarrow>
             (if blocked = [] then do {
                (settled, why) \<leftarrow> clusterSettled env cluster (List.map_filter rollout_pod items);
                return (if settled then blocked else why)
              }
              else return blocked);
           (if blocked' \<noteq> [] then do {
              c1 \<leftarrow> markBlocked env cluster ''WaitingForCluster'' blocked' True;
              return (c1, None)
            }
            else patchPartition env cluster sts next)
         })
      }) (\<lambda>_. reached w0 (safe_run cluster)) w"
proof (cases "livePartition sts \<le> 0 \<or> rolloutPaused cluster")
  case True
  then show ?thesis
    using safe_looked[OF w] by (auto simp: Let_def case_prod_beta
        intro!: wp_silent[OF emits_markBlocked] wp_silent[OF emits_setClusterCondition])
next
  case go: False
  let ?pods = "List.map_filter rollout_pod items" and ?p = "livePartition sts"
  show ?thesis
  proof (cases "blocked_by (byOrdinal ?pods) (s_UpdateRevision sts) [?p..cls_Size (cl_Spec cluster) - 1]")
    case None
    then have "all_updated ?pods (s_UpdateRevision sts) ?p (cls_Size (cl_Spec cluster))"
      by (simp add: all_updated_def blocked_by_None)
    from wp_gated_patch[OF w sts _ _ this] go None show ?thesis
      by (simp add: rolloutNext_def Let_def) (simp add: case_prod_beta)
  next
    case (Some why)
    with blocked_by_Some[OF Some] go safe_looked[OF w] show ?thesis
      by (auto simp: rolloutNext_def Let_def intro!: wp_silent[OF emits_markBlocked])
  qed
qed

lemma wp_reconcileRollout:
  "wp (reconcileRollout env cluster) (\<lambda>_. reached w0 (safe_run cluster)) w0"
  unfolding reconcileRollout_def wp_bind
proof (rule wp_effect_any, goal_cases)
  case (1 g w)
  let ?get = "GetSts (cl_Namespace cluster) (cl_Name cluster)"
  let ?list = "ListPods (cl_Namespace cluster) [(''app'', ''riak''), (''cluster'', cl_Name cluster)]"
  have w: "reached w0 (\<lambda>es. no_patch es \<and> ?get g \<in> set es) w" using 1 by (auto simp: reached_def)
  show ?case
  proof (cases "\<exists>sts. g = Inr sts \<and> rolloutInProgress sts")
    case False
    with safe_no_patch[OF w] show ?thesis by (cases g) auto
  next
    case True
    then obtain sts where Inr: "g = Inr sts" and nn: "\<not> \<not> rolloutInProgress sts" by blast
    show ?thesis
      unfolding Inr sum.case if_not_P[OF nn] wp_bind rolloutPods_def Let_def
    proof (rule wp_effect_any, goal_cases)
      case (1 l w')
      have w': "reached w0 (\<lambda>es. no_patch es \<and> ?get (Inr sts) \<in> set es \<and> ?list l \<in> set es) w'"
        by (rule reached_step[OF w 1]) (auto simp: Inr)
      show ?case
      proof (cases l)
        case (Inl err)
        with safe_no_patch[OF w'] show ?thesis by simp
      next
        case lst: (Inr items)
        have "reached w0 (looked cluster sts items) w'" using w' by (rule reached_mono) (simp add: looked_def lst)
        from wp_decide[OF this] nn show ?thesis by (simp add: lst Let_def)
      qed
    qed
  qed
qed

text \<open>
  C8: the operator restarts a node only when the cluster is settled, and one node per reconcile. On
  every run of \<open>reconcileRollout\<close>, whatever the API server and the nodes reply: a patch of the
  StatefulSet is its last event, so there is at most one; it sets the partition of the
  StatefulSet just read to exactly one less, which was positive, and nothing else; the rollout is in
  progress and not paused; every pod of the pods just listed is Ready, there are at least as
  many as the size, and those from the partition up are on the new revision; and with more
  than one node, one of them has just reported exactly \<^verbatim>\<open>spec.size\<close> ring members, all valid, and, unless
  waiting for transfers is turned off, no transfers.
\<close>

theorem reconcileRollout_patches_settled:
  assumes "emitted (reconcileRollout env cluster) w = pre @ Patch ns n new # post"
  shows "post = [] \<and>
    (\<exists>sts items. GetSts (cl_Namespace cluster) (cl_Name cluster) (Inr sts) \<in> set pre \<and>
       ListPods (cl_Namespace cluster) [(''app'', ''riak''), (''cluster'', cl_Name cluster)] (Inr items) \<in> set pre \<and>
       rolloutInProgress sts \<and> \<not> rolloutPaused cluster \<and> 0 < livePartition sts \<and>
       new = with_partition (i32 (livePartition sts - 1)) sts \<and>
       all_updated (List.map_filter rollout_pod items) (s_UpdateRevision sts) (livePartition sts)
         (cls_Size (cl_Spec cluster)) \<and>
       settled_evidence cluster (List.map_filter rollout_pod items) pre)"
proof -
  have "safe_run cluster (emitted (reconcileRollout env cluster) w)"
    using wp_emitted(1)[OF wp_reconcileRollout] by (metis prod.collapse)
  then have J: "justified (patch_ok cluster) (pre @ Patch ns n new # post)"
    and L: "patched_last (pre @ Patch ns n new # post)" by (simp_all add: assms)
  have "post = []"
  proof (rule ccontr)
    assume "post \<noteq> []"
    with L show False by (simp add: patched_last_def butlast_append)
  qed
  with justifiedD[OF J] show ?thesis by (auto simp: patch_ok_def)
qed

definition sample_pod :: "string \<Rightarrow> string \<Rightarrow> Pod" where
  "sample_pod name r = \<lparr>p_Meta = (new_meta name ''ns'')\<lparr>m_Labels := [(statefulSetRevisionLabel, r)]\<rparr>,
     p_Phase = ''Running'', p_Conditions = [\<lparr>pc_Type = ''Ready'', pc_Status = ''True''\<rparr>], p_ContainerStatuses = []\<rparr>"

text \<open>Two nodes in one ring, the second already on the new revision, no transfers.\<close>

definition rollout_env :: "unit env" where
  "rollout_env = (ring_env joined_ring)\<lparr>
     get_sts := (\<lambda>ns n w. (Inr (sample_sts ''new'' 1), w)),
     list_pods := (\<lambda>ns ls w. (Inr [sample_pod ''c-0'' ''old'', sample_pod ''c-1'' ''new''], w)),
     run_kubectl := (\<lambda>args w.
       if drop 11 args = [''transfers''] then (Inr (''No transfers active'' @ [NL, NL] @ ''Active Transfers:''), w)
       else run_kubectl (ring_env joined_ring) args w)\<rparr>"

theorem reconcileRollout_patches_settled_witness:
  "\<exists>pre. emitted (reconcileRollout rollout_env (sample_cluster 2)) (start ()) =
      pre @ Patch ''ns'' ''c'' (with_partition 0 (sample_sts ''new'' 1)) # [] \<and> \<not> rolloutPaused (sample_cluster 2)"
proof -
  let ?es = "emitted (reconcileRollout rollout_env (sample_cluster 2)) (start ())"
  have "last ?es = Patch ''ns'' ''c'' (with_partition 0 (sample_sts ''new'' 1))" "?es \<noteq> []" by code_simp+
  then have "?es = butlast ?es @ Patch ''ns'' ''c'' (with_partition 0 (sample_sts ''new'' 1)) # []"
    by (metis append_butlast_last_id)
  from this reconcileRollout_patches_settled[OF this] show ?thesis by blast
qed

subsection \<open>The rollout as a state machine\<close>

text \<open>
  The operator's decision interleaved with the StatefulSet controller and the nodes. The operator
  may lower the partition when \<open>rolloutNext\<close> says so and the pods are settled; the StatefulSet
  controller may at any time replace a pod whose ordinal is not below the partition and
  whose revision is not the update revision (that is all the partition promises: not even one
  at a time is assumed of it); a pod that is not ready may become ready.
\<close>

record rollout_state =
  rs_partition :: int
  rs_pods :: "rolloutPod list"

definition at_ordinal :: "int \<Rightarrow> (rolloutPod \<Rightarrow> rolloutPod) \<Rightarrow> rolloutPod list \<Rightarrow> rolloutPod list" where
  "at_ordinal ord f pods = map (\<lambda>p. if rp_ordinal p = ord then f p else p) pods"

definition replaced :: "string \<Rightarrow> rolloutPod \<Rightarrow> rolloutPod" where
  "replaced r p = p\<lparr>rp_revision := r, rp_ready := False\<rparr>"

definition recovered :: "rolloutPod \<Rightarrow> rolloutPod" where
  "recovered p = p\<lparr>rp_ready := True\<rparr>"

inductive rollout_step :: "int \<Rightarrow> string \<Rightarrow> rollout_state \<Rightarrow> rollout_state \<Rightarrow> bool"
  for replicas :: int and r :: string where
  operator: "0 < rs_partition s \<Longrightarrow> rolloutNext (rs_partition s) replicas r (rs_pods s) = (nxt, []) \<Longrightarrow>
    replicas \<le> int (length (rs_pods s)) \<Longrightarrow> list_all rp_ready (rs_pods s) \<Longrightarrow>
    rollout_step replicas r s (s\<lparr>rs_partition := nxt\<rparr>)"
| replace: "p \<in> set (rs_pods s) \<Longrightarrow> rs_partition s \<le> rp_ordinal p \<Longrightarrow> rp_revision p \<noteq> r \<Longrightarrow>
    rollout_step replicas r s (s\<lparr>rs_pods := at_ordinal (rp_ordinal p) (replaced r) (rs_pods s)\<rparr>)"
| recover: "p \<in> set (rs_pods s) \<Longrightarrow> \<not> rp_ready p \<Longrightarrow>
    rollout_step replicas r s (s\<lparr>rs_pods := at_ordinal (rp_ordinal p) recovered (rs_pods s)\<rparr>)"

text \<open>A rollout starts with the partition at the replica count and every node up on an old revision.\<close>

inductive rollout_reachable :: "int \<Rightarrow> string \<Rightarrow> rollout_state \<Rightarrow> bool"
  for replicas :: int and r :: string where
  start: "rs_partition s = replicas \<Longrightarrow> map rp_ordinal (rs_pods s) = [0..replicas - 1] \<Longrightarrow>
    list_all (\<lambda>p. rp_ready p \<and> rp_revision p \<noteq> r) (rs_pods s) \<Longrightarrow> rollout_reachable replicas r s"
| step: "rollout_reachable replicas r s \<Longrightarrow> rollout_step replicas r s s' \<Longrightarrow> rollout_reachable replicas r s'"

definition pod_inv :: "string \<Rightarrow> int \<Rightarrow> rolloutPod \<Rightarrow> bool" where
  "pod_inv r part p \<longleftrightarrow>
     (rp_ordinal p < part \<longrightarrow> rp_ready p \<and> rp_revision p \<noteq> r) \<and>
     (part < rp_ordinal p \<longrightarrow> rp_ready p \<and> rp_revision p = r) \<and>
     (rp_ready p \<or> rp_revision p = r)"

definition rollout_inv :: "int \<Rightarrow> string \<Rightarrow> rollout_state \<Rightarrow> bool" where
  "rollout_inv replicas r s \<longleftrightarrow>
     0 \<le> rs_partition s \<and> rs_partition s \<le> replicas \<and> map rp_ordinal (rs_pods s) = [0..replicas - 1] \<and>
     (\<forall>p \<in> set (rs_pods s). pod_inv r (rs_partition s) p)"

lemma ordinals_at_ordinal:
  "(\<And>p. rp_ordinal (f p) = rp_ordinal p) \<Longrightarrow> map rp_ordinal (at_ordinal ord f pods) = map rp_ordinal pods"
  by (simp add: at_ordinal_def)

lemma at_ordinal_mem:
  "q \<in> set (at_ordinal ord f pods) \<Longrightarrow>
    \<exists>p \<in> set pods. q = (if rp_ordinal p = ord then f p else p)"
  by (auto simp: at_ordinal_def)

lemma rollout_inv_updated:
  assumes "map rp_ordinal pods = [0..replicas - 1]" and "all_updated pods r part replicas" and "0 \<le> part"
    and "p \<in> set pods" and "part \<le> rp_ordinal p"
  shows "rp_revision p = r \<and> rp_ready p"
proof -
  have "distinct (map rp_ordinal pods)" unfolding assms(1) by simp
  with assms(4) have p: "byOrdinal pods (rp_ordinal p) = Some p" by (rule byOrdinal_distinct[rotated])
  have "rp_ordinal p \<in> set (map rp_ordinal pods)" using assms(4) by simp
  then have "rp_ordinal p \<in> set [part..replicas - 1]" using assms(1,5) by simp
  with assms(2) have "updated pods r (rp_ordinal p)" by (simp add: all_updated_def list_all_iff)
  with p show ?thesis by (simp add: updated_def)
qed

lemma rollout_inv_step:
  assumes "rollout_inv replicas r s" and "is_i32 replicas" and "rollout_step replicas r s s'"
  shows "rollout_inv replicas r s'"
  using assms(3)
proof cases
  case (operator nxt)
  have i32: "is_i32 (rs_partition s)" using assms(1,2) by (auto simp: rollout_inv_def is_i32_def)
  from rolloutNext_eq[OF i32 operator(2), of replicas r "rs_pods s"] operator(3)
  have "nxt = rs_partition s - 1" "all_updated (rs_pods s) r (rs_partition s) replicas"
    by fastforce+
  with rollout_inv_updated[OF _ this(2)] assms(1) operator show ?thesis
    by (auto simp: rollout_inv_def pod_inv_def)
next
  case (replace p)
  have at: "rp_ordinal p = rs_partition s"
    using assms(1) replace by (force simp: rollout_inv_def pod_inv_def)
  have "pod_inv r (rs_partition s) q" if "q \<in> set (at_ordinal (rp_ordinal p) (replaced r) (rs_pods s))" for q
    using at_ordinal_mem[OF that] assms(1) at
    by (force simp: rollout_inv_def pod_inv_def replaced_def)
  with assms(1) replace(1) show ?thesis
    by (simp add: rollout_inv_def ordinals_at_ordinal replaced_def)
next
  case (recover p)
  have "pod_inv r (rs_partition s) q" if "q \<in> set (at_ordinal (rp_ordinal p) recovered (rs_pods s))" for q
    using at_ordinal_mem[OF that] assms(1)
    by (force simp: rollout_inv_def pod_inv_def recovered_def)
  with assms(1) recover(1) show ?thesis
    by (simp add: rollout_inv_def ordinals_at_ordinal recovered_def)
qed

lemma rollout_reachable_inv:
  assumes "rollout_reachable replicas r s" and "is_i32 replicas" and "0 \<le> replicas"
  shows "rollout_inv replicas r s"
  using assms(1)
proof induction
  case (start s)
  have "rp_ordinal p < replicas \<and> \<not> replicas < rp_ordinal p" if "p \<in> set (rs_pods s)" for p
    using that start(2) by (metis atLeastAtMost_iff imageI less_asym list.set_map set_upto zle_diff1_eq)
  with start assms(3) show ?case
    by (auto simp: rollout_inv_def pod_inv_def list_all_iff)
next
  case (step s s')
  then show ?case using rollout_inv_step assms(2) by blast
qed

text \<open>
  C2: the operator's rollout takes down one node at a time. However the operator, the StatefulSet
  controller and the nodes interleave, if nothing but the rollout takes nodes down then at
  every moment at most one node is not Ready, it is the node at the partition, every node
  below the partition is untouched (Ready, on its old revision) and every node above it is Ready on the
  new revision; in particular the seed is restarted last.
\<close>

theorem rollout_one_at_a_time:
  assumes "rollout_reachable replicas r s" and "is_i32 replicas" and "0 \<le> replicas"
  shows "length (filter (\<lambda>p. \<not> rp_ready p) (rs_pods s)) \<le> 1 \<and>
    (\<forall>p \<in> set (rs_pods s).
       (rp_ready p \<or> rp_ordinal p = rs_partition s) \<and>
       (rp_ordinal p < rs_partition s \<longrightarrow> rp_ready p \<and> rp_revision p \<noteq> r) \<and>
       (rs_partition s < rp_ordinal p \<longrightarrow> rp_ready p \<and> rp_revision p = r))"
proof -
  have inv: "rollout_inv replicas r s" by (rule rollout_reachable_inv[OF assms])
  have "distinct (map rp_ordinal (rs_pods s))" using inv by (simp add: rollout_inv_def)
  then have d: "distinct (map rp_ordinal (filter (\<lambda>p. \<not> rp_ready p) (rs_pods s)))"
    by (rule distinct_map_filter)
  have "set (map rp_ordinal (filter (\<lambda>p. \<not> rp_ready p) (rs_pods s))) \<subseteq> {rs_partition s}"
    using inv by (fastforce simp: rollout_inv_def pod_inv_def)
  then have "card (set (map rp_ordinal (filter (\<lambda>p. \<not> rp_ready p) (rs_pods s)))) \<le> 1"
    by (metis card.empty card.insert card_mono empty_iff finite.intros One_nat_def)
  with distinct_card[OF d] inv show ?thesis
    by (fastforce simp: rollout_inv_def pod_inv_def)
qed


subsection \<open>The rollout completes\<close>

definition rollout_done :: "string \<Rightarrow> rollout_state \<Rightarrow> bool" where
  "rollout_done r s \<longleftrightarrow> rs_partition s = 0 \<and> list_all (\<lambda>p. rp_ready p \<and> rp_revision p = r) (rs_pods s)"

definition rollout_work :: "string \<Rightarrow> rollout_state \<Rightarrow> nat" where
  "rollout_work r s = nat (rs_partition s) + 2 * length (filter (\<lambda>p. rp_revision p \<noteq> r) (rs_pods s)) +
     length (filter (\<lambda>p. \<not> rp_ready p) (rs_pods s))"

lemma at_ordinal_unique:
  assumes "distinct (map rp_ordinal pods)" and "p \<in> set pods"
  obtains ps qs where "pods = ps @ p # qs" and "at_ordinal (rp_ordinal p) f pods = ps @ f p # qs"
proof -
  from assms(2) obtain ps qs where s: "pods = ps @ p # qs" by (auto simp: in_set_conv_decomp)
  have "map (\<lambda>q. if rp_ordinal q = rp_ordinal p then f q else q) xs = xs"
    if "rp_ordinal p \<notin> rp_ordinal ` set xs" for xs
    using that by (induction xs) auto
  with assms(1) s have "at_ordinal (rp_ordinal p) f pods = ps @ f p # qs"
    by (simp add: at_ordinal_def)
  with s show thesis by (rule that)
qed

lemma rollout_work_decreases:
  assumes "rollout_inv replicas r s" and "is_i32 replicas" and "rollout_step replicas r s s'"
  shows "rollout_work r s' < rollout_work r s"
  using assms(3)
proof cases
  case (operator nxt)
  have i32: "is_i32 (rs_partition s)" using assms(1,2) by (auto simp: rollout_inv_def is_i32_def)
  from rolloutNext_eq[OF i32 operator(2), of replicas r "rs_pods s"] operator(3)
  have "nxt = rs_partition s - 1" by auto
  with operator show ?thesis by (simp add: rollout_work_def)
next
  case (replace p)
  have "distinct (map rp_ordinal (rs_pods s))" using assms(1) by (simp add: rollout_inv_def)
  then obtain ps qs where "rs_pods s = ps @ p # qs" and "at_ordinal (rp_ordinal p) (replaced r) (rs_pods s) = ps @ replaced r p # qs"
    by (rule at_ordinal_unique[OF _ replace(2)])
  with replace(1,3-) show ?thesis by (simp add: rollout_work_def replaced_def)
next
  case (recover p)
  have "distinct (map rp_ordinal (rs_pods s))" using assms(1) by (simp add: rollout_inv_def)
  then obtain ps qs where "rs_pods s = ps @ p # qs" and "at_ordinal (rp_ordinal p) recovered (rs_pods s) = ps @ recovered p # qs"
    by (rule at_ordinal_unique[OF _ recover(2)])
  with recover(1,3-) show ?thesis by (simp add: rollout_work_def recovered_def)
qed

lemma rollout_progress:
  assumes "rollout_inv replicas r s" and "is_i32 replicas" and "\<not> rollout_done r s"
  shows "\<exists>s'. rollout_step replicas r s s'"
proof (cases "\<exists>p \<in> set (rs_pods s). \<not> rp_ready p \<or> rs_partition s \<le> rp_ordinal p \<and> rp_revision p \<noteq> r")
  case True
  then show ?thesis using rollout_step.replace rollout_step.recover by blast
next
  case False
  then have ready: "list_all rp_ready (rs_pods s)" by (auto simp: list_all_iff)
  have ord: "map rp_ordinal (rs_pods s) = [0..replicas - 1]" using assms(1) by (simp add: rollout_inv_def)
  show ?thesis
  proof (cases "rs_partition s = 0")
    case True
    have "0 \<le> rp_ordinal p" if "p \<in> set (rs_pods s)" for p
      using that ord by (metis atLeastAtMost_iff imageI list.set_map set_upto)
    with True False assms(3) show ?thesis by (auto simp: rollout_done_def list_all_iff)
  next
    case pos: False
    then have pos: "0 < rs_partition s" using assms(1) by (simp add: rollout_inv_def)
    have i32: "is_i32 (rs_partition s)" using assms(1,2) by (auto simp: rollout_inv_def is_i32_def)
    have "updated (rs_pods s) r o'" if "o' \<in> set [rs_partition s..replicas - 1]" for o'
    proof -
      have "o' \<in> set (map rp_ordinal (rs_pods s))" using that pos unfolding ord by simp
      then obtain p where p: "p \<in> set (rs_pods s)" "rp_ordinal p = o'" by auto
      have "distinct (map rp_ordinal (rs_pods s))" unfolding ord by simp
      from byOrdinal_distinct[OF this p(1)] p False that show ?thesis by (auto simp: updated_def)
    qed
    then have "all_updated (rs_pods s) r (rs_partition s) replicas" by (simp add: all_updated_def list_all_iff)
    with rolloutNext_eq[OF i32 pos] have "rolloutNext (rs_partition s) replicas r (rs_pods s) = (rs_partition s - 1, [])"
      by blast
    moreover have "replicas \<le> int (length (rs_pods s))"
      using arg_cong[OF ord, of length] by simp
    ultimately show ?thesis using rollout_step.operator[OF pos] ready by blast
  qed
qed


definition sample_rollout :: rollout_state where
  "sample_rollout = \<lparr>rs_partition = 2, rs_pods =
     [\<lparr>rp_ordinal = 0, rp_name = ''c-0'', rp_revision = ''old'', rp_ready = True\<rparr>,
      \<lparr>rp_ordinal = 1, rp_name = ''c-1'', rp_revision = ''old'', rp_ready = True\<rparr>]\<rparr>"

lemma sample_rollout_reachable: "rollout_reachable 2 ''new'' sample_rollout"
  by (rule rollout_reachable.start) code_simp+

lemma is_i32_2: "is_i32 2"
  by (simp add: is_i32_def)

theorem rollout_one_at_a_time_witness:
  "length (filter (\<lambda>p. \<not> rp_ready p) (rs_pods sample_rollout)) \<le> 1"
  using rollout_one_at_a_time[OF sample_rollout_reachable is_i32_2] by simp


end
