(* ===== verification/Tls.thy ===== *)
theory Tls
  imports Rollout
begin

text \<open>
  TLS objects (\<^verbatim>\<open>internal/controller/tls.go\<close>) and the trust bundle for client certificates
  (\<^verbatim>\<open>internal/controller/trust.go\<close>): the cert-manager certificates of a cluster and of a user, the TLS
  volume, merging certificate authorities, and the validation of externally issued client
  certificates. PEM decoding, X.509 parsing and chain verification are parameters of the model.
  The reader chosen by \<^verbatim>\<open>reader\<close> (cached or uncached) is the same API server here.
\<close>

subsection \<open>Names and certificates\<close>

definition certManagerGroup :: string where "certManagerGroup = ''cert-manager.io''"
definition certManagerVersion :: string where "certManagerVersion = ''v1''"
definition certManagerKind :: string where "certManagerKind = ''Certificate''"
definition riakTLSPortName :: string where "riakTLSPortName = ''https''"
definition riakTLSPort :: int where "riakTLSPort = 8443"
definition riakTLSVolumeName :: string where "riakTLSVolumeName = ''riak-tls''"
definition riakTLSMountPath :: string where "riakTLSMountPath = ''/etc/riak/certs''"
definition riakTLSCertFile :: string where "riakTLSCertFile = ''/etc/riak/certs/tls.crt''"
definition riakTLSKeyFile :: string where "riakTLSKeyFile = ''/etc/riak/certs/tls.key''"
definition riakTLSCACertFile :: string where "riakTLSCACertFile = ''/etc/riak/certs/ca.crt''"

definition clusterTLSSecretName :: "string \<Rightarrow> string" where
  "clusterTLSSecretName clusterName = clusterName @ ''-tls''"

definition userClientTLSSecretName :: "string \<Rightarrow> string" where
  "userClientTLSSecretName riakUserName = riakUserName @ ''-client-tls''"

definition clusterCertName :: "string \<Rightarrow> string" where
  "clusterCertName clusterName = clusterName @ ''-tls''"

definition userCertName :: "string \<Rightarrow> string" where
  "userCertName riakUserName = riakUserName @ ''-client-tls''"

definition certificate_object :: "string \<Rightarrow> string \<Rightarrow> (string \<times> uval) list \<Rightarrow> uval" where
  "certificate_object name ns spec = UMap [
     (''apiVersion'', UStr (certManagerGroup @ ''/'' @ certManagerVersion)),
     (''kind'', UStr certManagerKind),
     (''metadata'', UMap [(''name'', UStr name), (''namespace'', UStr ns)]),
     (''spec'', UMap spec)]"

definition issuer_ref :: "string \<Rightarrow> string \<Rightarrow> uval" where
  "issuer_ref name kind =
     UMap [(''name'', UStr name), (''kind'', UStr (if kind = [] then ''Issuer'' else kind))]"

definition buildClusterCertificate :: "RiakCluster \<Rightarrow> CertManagerConfig \<Rightarrow> uval" where
  "buildClusterCertificate cluster cm =
     (let n = cl_Name cluster; ns = cl_Namespace cluster
      in certificate_object (clusterCertName n) ns [
        (''secretName'', UStr (clusterTLSSecretName n)),
        (''issuerRef'', issuer_ref (cmc_IssuerName cm) (cmc_IssuerKind cm)),
        (''dnsNames'', UList [
           UStr (''*.'' @ n @ ''-headless.'' @ ns @ ''.svc.cluster.local''),
           UStr (n @ ''-headless.'' @ ns @ ''.svc.cluster.local''),
           UStr (n @ ''.'' @ ns @ ''.svc.cluster.local''),
           UStr (n @ ''-headless''),
           UStr n]),
        (''usages'', UList [UStr ''server auth'', UStr ''client auth'', UStr ''digital signature'', UStr ''key encipherment''])])"

definition buildUserCertificate :: "string \<Rightarrow> string \<Rightarrow> string \<Rightarrow> UserCertificateRef \<Rightarrow> CertIssuerRef \<Rightarrow> uval" where
  "buildUserCertificate riakUserName ns riakUsername certRef issuer =
     certificate_object (userCertName riakUserName) ns [
       (''secretName'', UStr (if ucr_SecretName certRef = [] then userClientTLSSecretName riakUserName
          else ucr_SecretName certRef)),
       (''commonName'', UStr riakUsername),
       (''issuerRef'', issuer_ref (ir_Name issuer) (ir_Kind issuer)),
       (''usages'', UList [UStr ''client auth'', UStr ''digital signature'', UStr ''key encipherment''])]"

definition tlsEnabled :: "RiakCluster \<Rightarrow> bool" where
  "tlsEnabled cluster = (case cls_TLS (cl_Spec cluster) of None \<Rightarrow> False | Some t \<Rightarrow> tls_Enabled t)"

definition additionalClientCAs :: "RiakCluster \<Rightarrow> TrustedCASource list" where
  "additionalClientCAs cluster = (case cls_TLS (cl_Spec cluster) of None \<Rightarrow> [] | Some t \<Rightarrow> tls_AdditionalClientCAs t)"

definition trustBundleKey :: string where "trustBundleKey = ''ca.crt''"
definition externalCertRecheck :: duration where "externalCertRecheck = 10 * Minute"

definition clusterTrustSecretName :: "string \<Rightarrow> string" where
  "clusterTrustSecretName clusterName = clusterName @ ''-tls-trust''"

definition hasAdditionalClientCAs :: "RiakCluster \<Rightarrow> bool" where
  "hasAdditionalClientCAs cluster \<longleftrightarrow> tlsEnabled cluster \<and> length (additionalClientCAs cluster) > 0"

definition tlsVolume :: "RiakCluster \<Rightarrow> Volume" where
  "tlsVolume cluster =
     (if \<not> hasAdditionalClientCAs cluster
      then \<lparr>v_Name = riakTLSVolumeName, v_Source = SecretVolume (clusterTLSSecretName (cl_Name cluster))\<rparr>
      else \<lparr>v_Name = riakTLSVolumeName, v_Source = ProjectedVolume [
        (clusterTLSSecretName (cl_Name cluster),
          [\<lparr>kp_Key = ''tls.crt'', kp_Path = ''tls.crt''\<rparr>, \<lparr>kp_Key = ''tls.key'', kp_Path = ''tls.key''\<rparr>]),
        (clusterTrustSecretName (cl_Name cluster),
          [\<lparr>kp_Key = trustBundleKey, kp_Path = ''ca.crt''\<rparr>])]\<rparr>)"

subsection \<open>The trust bundle\<close>

text \<open>
  \<^verbatim>\<open>pem.Decode\<close> returns the first block and the rest of the input, which is shorter; a decoder that
  does not shorten the input would make the loop run forever, which the fuel (the length of
  the input) turns into stopping: the loop runs once per block, so the fuel is never used up by a
  decoder that keeps its contract.
\<close>

fun pem_loop :: "'w env \<Rightarrow> nat \<Rightarrow> string \<Rightarrow> PemBlock list" where
  "pem_loop env 0 d = []"
| "pem_loop env (Suc n) d =
     (case pem_Decode env d of
        None \<Rightarrow> []
      | Some (block, rest) \<Rightarrow> block # pem_loop env n rest)"

definition pemBlocks :: "'w env \<Rightarrow> string \<Rightarrow> PemBlock list" where
  "pemBlocks env d = pem_loop env (length d + 1) d"

fun parse_blocks :: "'w env \<Rightarrow> PemBlock list \<Rightarrow> x509 list res" where
  "parse_blocks env [] = Inr []"
| "parse_blocks env (b # bs) =
     (if pb_Type b \<noteq> ''CERTIFICATE'' then parse_blocks env bs
      else case x509_Parse env (pb_Bytes b) of
             Inl e \<Rightarrow> Inl (''invalid certificate: '' @ e)
           | Inr c \<Rightarrow> (case parse_blocks env bs of Inl e \<Rightarrow> Inl e | Inr cs \<Rightarrow> Inr (c # cs)))"

definition parsePEMCerts :: "'w env \<Rightarrow> string \<Rightarrow> x509 list res" where
  "parsePEMCerts env d = parse_blocks env (pemBlocks env d)"

text \<open>The inner loop of \<^verbatim>\<open>mergeCABundle\<close>: the certificates not seen before, in order.\<close>

fun unseen_certs :: "(string \<Rightarrow> bool) \<Rightarrow> x509 list \<Rightarrow> x509 list" where
  "unseen_certs seen [] = []"
| "unseen_certs seen (c # cs) =
     (if seen (crt_Raw c) then unseen_certs seen cs
      else c # unseen_certs (seen(crt_Raw c := True)) cs)"

fun encode_certs :: "'w env \<Rightarrow> x509 list \<Rightarrow> string res" where
  "encode_certs env [] = Inr []"
| "encode_certs env (c # cs) =
     (case pem_Encode env \<lparr>pb_Type = ''CERTIFICATE'', pb_Headers = [], pb_Bytes = crt_Raw c\<rparr> of
        Inl e \<Rightarrow> Inl e
      | Inr s \<Rightarrow> (case encode_certs env cs of Inl e \<Rightarrow> Inl e | Inr s' \<Rightarrow> Inr (s @ s')))"

fun merge_loop :: "'w env \<Rightarrow> (string \<Rightarrow> bool) \<Rightarrow> string \<Rightarrow> nat \<Rightarrow> string list \<Rightarrow> (string \<times> nat) res" where
  "merge_loop env seen out n [] = Inr (out, n)"
| "merge_loop env seen out n (i # ins) =
     (case parsePEMCerts env i of
        Inl e \<Rightarrow> Inl e
      | Inr certs \<Rightarrow>
          (let new = unseen_certs seen certs
           in case encode_certs env new of
                Inl e \<Rightarrow> Inl e
              | Inr s \<Rightarrow> merge_loop env (\<lambda>raw. seen raw \<or> raw \<in> crt_Raw ` set certs) (out @ s) (n + length new) ins))"

definition mergeCABundle :: "'w env \<Rightarrow> string list \<Rightarrow> (string \<times> nat) res" where
  "mergeCABundle env inputs = merge_loop env (\<lambda>_. False) [] 0 inputs"

definition readTrustedCA :: "'w env \<Rightarrow> string \<Rightarrow> TrustedCASource \<Rightarrow> ('w, string res) action" where
  "readTrustedCA env ns src =
     (case ca_SecretRef src of
        Some ref \<Rightarrow> do {
          r \<leftarrow> effect (\<lambda>_. Get KSecret ns (ks_Name ref)) (get_secret env ns (ks_Name ref));
          return (case r of
              Inl err \<Rightarrow> Inl (if IsNotFound err
                then ''additionalClientCAs: Secret '' @ Quote (ks_Name ref) @ '' not found'' else api_msg err)
            | Inr s \<Rightarrow>
                (case map_of (sec_Data s) (ks_Key ref) of
                   None \<Rightarrow> Inl (''additionalClientCAs: Secret '' @ Quote (ks_Name ref) @ '' has no key '' @ Quote (ks_Key ref))
                 | Some v \<Rightarrow> Inr v))
        }
      | None \<Rightarrow>
          (case ca_ConfigMapRef src of
             Some ref \<Rightarrow> do {
               r \<leftarrow> effect (\<lambda>_. Get KConfigMap ns (ks_Name ref)) (get_configmap env ns (ks_Name ref));
               return (case r of
                   Inl err \<Rightarrow> Inl (if IsNotFound err
                     then ''additionalClientCAs: ConfigMap '' @ Quote (ks_Name ref) @ '' not found'' else api_msg err)
                 | Inr cm \<Rightarrow>
                     (case map_of (cm_Data cm) (ks_Key ref) of
                        None \<Rightarrow> Inl (''additionalClientCAs: ConfigMap '' @ Quote (ks_Name ref) @ '' has no key '' @ Quote (ks_Key ref))
                      | Some v \<Rightarrow> Inr v))
             }
           | None \<Rightarrow> return (Inl ''additionalClientCAs: entry sets neither secretRef nor configMapRef'')))"

definition describeCASource :: "TrustedCASource \<Rightarrow> string" where
  "describeCASource src =
     (case ca_SecretRef src of
        Some ref \<Rightarrow> ''Secret '' @ Quote (ks_Name ref) @ '' key '' @ Quote (ks_Key ref)
      | None \<Rightarrow>
          (case ca_ConfigMapRef src of
             Some ref \<Rightarrow> ''ConfigMap '' @ Quote (ks_Name ref) @ '' key '' @ Quote (ks_Key ref)
           | None \<Rightarrow> ''entry''))"

text \<open>One entry of \<^verbatim>\<open>additionalClientCAs\<close>; the loop's variable is the list of inputs so far.\<close>

definition ca_body :: "'w env \<Rightarrow> string \<Rightarrow> TrustedCASource \<Rightarrow> string list \<Rightarrow> ('w, error + string list) action" where
  "ca_body env ns src inputs = do {
     r \<leftarrow> readTrustedCA env ns src;
     return (case r of
         Inl e \<Rightarrow> Inl e
       | Inr pemData \<Rightarrow>
           (case parsePEMCerts env pemData of
              Inl e \<Rightarrow> Inl (''additionalClientCAs: '' @ e)
            | Inr certs \<Rightarrow>
                if certs = [] then Inl (''additionalClientCAs: '' @ describeCASource src @ '' holds no PEM CERTIFICATE'')
                else Inr (inputs @ [pemData])))
   }"

text \<open>The result: the bundle, the number of certificates, and whether the cluster's own CA is missing.\<close>

definition buildTrustBundle :: "'w env \<Rightarrow> RiakCluster \<Rightarrow> ('w, (string \<times> nat \<times> bool) res) action" where
  "buildTrustBundle env cluster =
     (if \<not> tlsEnabled cluster then
        return (map_sum id (\<lambda>(b, n). (b, n, False)) (mergeCABundle env []))
      else do {
        let ns = cl_Namespace cluster;
        let name = clusterTLSSecretName (cl_Name cluster);
        g \<leftarrow> effect (\<lambda>_. Get KSecret ns name) (get_secret env ns name);
        (case (case g of
                 Inl err \<Rightarrow> if IsNotFound err then Inr ([], True) else Inl (api_msg err)
               | Inr s \<Rightarrow>
                   (case map_of (sec_Data s) ''ca.crt'' of
                      None \<Rightarrow> Inl (''cluster TLS Secret '' @ Quote name @ '' has no ca.crt key; Riak needs the issuing CA there'')
                    | Some ca \<Rightarrow> Inr ([ca], False))) of
           Inl e \<Rightarrow> return (Inl e)
         | Inr (own, missing) \<Rightarrow> do {
             r \<leftarrow> for_each (ca_body env ns) (additionalClientCAs cluster) own;
             return (case r of
                 Inl e \<Rightarrow> Inl e
               | Inr inputs \<Rightarrow> map_sum id (\<lambda>(b, n). (b, n, missing)) (mergeCABundle env inputs))
           })
      })"

definition reconcileTrustBundle :: "'w env \<Rightarrow> RiakCluster \<Rightarrow> ('w, error option) action" where
  "reconcileTrustBundle env cluster =
     (if \<not> hasAdditionalClientCAs cluster then return None
      else do {
        b \<leftarrow> buildTrustBundle env cluster;
        (case b of
           Inl e \<Rightarrow> return (Some e)
         | Inr (bundle, _, clusterCAMissing) \<Rightarrow>
             if clusterCAMissing then return None
             else do {
               let ns = cl_Namespace cluster;
               let name = clusterTrustSecretName (cl_Name cluster);
               g \<leftarrow> effect (\<lambda>_. Get KSecret ns name) (get_secret env ns name);
               (case g of
                  Inl err \<Rightarrow>
                    if IsNotFound err then
                      (case SetControllerReference env (cl_Meta cluster) (new_meta name ns) of
                         Inl e \<Rightarrow> return (Some e)
                       | Inr m \<Rightarrow> do {
                           r \<leftarrow> effect (\<lambda>_. Create KSecret ns name)
                             (create_secret env \<lparr>sec_Meta = m, sec_Data = [(trustBundleKey, bundle)]\<rparr>);
                           return (map_option api_msg r)
                         })
                    else return (Some (api_msg err))
                | Inr existing \<Rightarrow>
                    if map_get (sec_Data existing) trustBundleKey = bundle then return None
                    else do {
                      r \<leftarrow> effect (\<lambda>_. Update KSecret ns name)
                        (update_secret env (existing\<lparr>sec_Data := [(trustBundleKey, bundle)]\<rparr>));
                      return (map_option api_msg r)
                    })
             })
      })"

definition trustStatus :: "'w env \<Rightarrow> RiakCluster \<Rightarrow> ('w, int \<times> string) action" where
  "trustStatus env cluster =
     (if \<not> tlsEnabled cluster then return (0, [])
      else do {
        b \<leftarrow> buildTrustBundle env cluster;
        return (case b of
            Inl e \<Rightarrow> (0, e)
          | Inr (_, count, _) \<Rightarrow> (i32 (int count), []))
      })"

subsection \<open>Externally issued client certificates\<close>

definition verifyClientCert :: "'w env \<Rightarrow> string \<Rightarrow> string \<Rightarrow> x509 list \<Rightarrow> time \<Rightarrow> time res" where
  "verifyClientCert env certPEM username roots now =
     (case parsePEMCerts env certPEM of
        Inl e \<Rightarrow> Inl e
      | Inr [] \<Rightarrow> Inl ''tls.crt holds no PEM CERTIFICATE''
      | Inr (leaf # intermediates) \<Rightarrow>
          if crt_CommonName leaf \<noteq> username
          then Inl (''certificate CommonName '' @ Quote (crt_CommonName leaf) @
            '' does not match spec.username '' @ Quote username)
          else (case x509_Verify env leaf roots intermediates now of
                  Some e \<Rightarrow> Inl (''certificate is not valid for client authentication against a trusted CA: '' @ e)
                | None \<Rightarrow> Inr (crt_NotAfter leaf)))"

text \<open>
  \<^verbatim>\<open>CertPool.AppendCertsFromPEM\<close>: the certificates of the blocks that are certificates without
  headers and parse; blocks that do not are skipped. It reports success when there is one.
\<close>

definition appendCertsFromPEM :: "'w env \<Rightarrow> string \<Rightarrow> x509 list" where
  "appendCertsFromPEM env d =
     List.map_filter (\<lambda>b. if pb_Type b \<noteq> ''CERTIFICATE'' \<or> pb_Headers b \<noteq> [] then None
       else (case x509_Parse env (pb_Bytes b) of Inl _ \<Rightarrow> None | Inr c \<Rightarrow> Some c)) (pemBlocks env d)"

definition externalCertificateReadiness ::
  "'w env \<Rightarrow> RiakUser \<Rightarrow> UserCertificateRef \<Rightarrow> RiakCluster \<Rightarrow> time \<Rightarrow> ('w, bool \<times> string \<times> time) action" where
  "externalCertificateReadiness env user certRef cluster now = do {
     let name = ucr_ExternalSecretName certRef;
     g \<leftarrow> effect (\<lambda>_. Get KSecret (u_Namespace user) name) (get_secret env (u_Namespace user) name);
     (case g of
        Inl err \<Rightarrow> return (False, if IsNotFound err then ''Secret '' @ Quote name @ '' does not exist'' else api_msg err, 0)
      | Inr s \<Rightarrow>
          (case map_of (sec_Data s) ''tls.crt'' of
             None \<Rightarrow> return (False, ''Secret '' @ Quote name @ '' has no tls.crt'', 0)
           | Some crt \<Rightarrow> do {
               b \<leftarrow> buildTrustBundle env cluster;
               return (case b of
                   Inl e \<Rightarrow> (False, ''cannot build the cluster's trusted CAs: '' @ e, 0)
                 | Inr (bundle, _, _) \<Rightarrow>
                     (let roots = appendCertsFromPEM env bundle
                      in if roots = []
                         then (False, ''the cluster trusts no CA: enable spec.tls and/or set spec.tls.additionalClientCAs'', 0)
                         else (case verifyClientCert env crt (us_Username (u_Spec user)) roots now of
                                 Inl e \<Rightarrow> (False, e, 0)
                               | Inr notAfter \<Rightarrow> (True, [], notAfter))))
             }))
   }"

subsection \<open>Merging certificate authorities\<close>

interpretation certs: first_seen crt_Raw unseen_certs
  by unfold_locales auto

lemma encode_certs_append:
  "encode_certs env (xs @ ys) =
    (case encode_certs env xs of
       Inl e \<Rightarrow> Inl e
     | Inr s \<Rightarrow> (case encode_certs env ys of Inl e \<Rightarrow> Inl e | Inr s' \<Rightarrow> Inr (s @ s')))"
  by (induction xs) (auto split: sum.split)

text \<open>The certificates of all inputs, or the first parse error.\<close>

fun parse_all :: "'w env \<Rightarrow> string list \<Rightarrow> x509 list res" where
  "parse_all env [] = Inr []"
| "parse_all env (i # ins) =
     (case parsePEMCerts env i of
        Inl e \<Rightarrow> Inl e
      | Inr cs \<Rightarrow> (case parse_all env ins of Inl e \<Rightarrow> Inl e | Inr cs' \<Rightarrow> Inr (cs @ cs')))"

lemma merge_loop_Inr:
  "merge_loop env seen out n ins = Inr (b, k) \<longleftrightarrow>
    (\<exists>cs s. parse_all env ins = Inr cs \<and> encode_certs env (unseen_certs seen cs) = Inr s \<and>
       b = out @ s \<and> k = n + length (unseen_certs seen cs))"
  by (induction env seen out n ins rule: merge_loop.induct)
    (auto simp: certs.loop_append encode_certs_append Let_def split: sum.splits)

lemma mergeCABundle_Inr:
  "mergeCABundle env ins = Inr (b, k) \<longleftrightarrow>
    (\<exists>cs. parse_all env ins = Inr cs \<and> encode_certs env (unseen_certs (\<lambda>_. False) cs) = Inr b \<and>
       k = length (unseen_certs (\<lambda>_. False) cs))"
  by (auto simp: mergeCABundle_def merge_loop_Inr)

text \<open>
  C25: the merged bundle holds every certificate of every input exactly once. When
  \<^verbatim>\<open>mergeCABundle\<close> succeeds, every input parsed, the bundle is the PEM encoding of a list of
  certificates with pairwise different contents, that list has the certificates of the inputs and
  no others, and the count returned is the number of different certificates.
\<close>

theorem mergeCABundle_correct:
  assumes "mergeCABundle env ins = Inr (b, n)"
  shows "\<exists>cs ds. parse_all env ins = Inr cs \<and> encode_certs env ds = Inr b \<and>
    distinct (map crt_Raw ds) \<and> set ds \<subseteq> set cs \<and> crt_Raw ` set ds = crt_Raw ` set cs \<and>
    n = card (crt_Raw ` set cs)"
proof -
  from assms obtain cs where cs: "parse_all env ins = Inr cs"
      "encode_certs env (unseen_certs (\<lambda>_. False) cs) = Inr b" "n = length (unseen_certs (\<lambda>_. False) cs)"
    by (auto simp: mergeCABundle_Inr)
  have "distinct (map crt_Raw (unseen_certs (\<lambda>_. False) cs))" by (rule certs.loop_distinct)
  moreover have "set (unseen_certs (\<lambda>_. False) cs) \<subseteq> set cs" by (rule certs.loop_subset)
  moreover have "crt_Raw ` set (unseen_certs (\<lambda>_. False) cs) = crt_Raw ` set cs" by (simp add: certs.loop_keys)
  moreover have "n = card (crt_Raw ` set cs)" using cs(3) by (simp add: certs.loop_length)
  ultimately show ?thesis using cs by blast
qed

subsection \<open>The PEM codec\<close>

text \<open>
  What the operator relies on of \<^verbatim>\<open>encoding/pem\<close> and \<^verbatim>\<open>crypto/x509\<close>, as documented: an encoded
  certificate block is not empty and decodes to itself and whatever follows it, nothing decodes from nothing, decoding
  consumes input, and the raw contents of a parsed certificate are the bytes it was parsed from.
\<close>

definition pem_laws :: "'w env \<Rightarrow> bool" where
  "pem_laws env \<longleftrightarrow>
     pem_Decode env [] = None \<and>
     (\<forall>b s rest. pem_Encode env \<lparr>pb_Type = ''CERTIFICATE'', pb_Headers = [], pb_Bytes = b\<rparr> = Inr s \<longrightarrow>
        s \<noteq> [] \<and> pem_Decode env (s @ rest) = Some (\<lparr>pb_Type = ''CERTIFICATE'', pb_Headers = [], pb_Bytes = b\<rparr>, rest)) \<and>
     (\<forall>d blk rest. pem_Decode env d = Some (blk, rest) \<longrightarrow> length rest < length d) \<and>
     (\<forall>d c. x509_Parse env d = Inr c \<longrightarrow> crt_Raw c = d)"

text \<open>With a decoder that consumes input, the fuel of the loop does not matter.\<close>

lemma pem_loop_fuel:
  assumes "pem_laws env" and "length d < n" and "length d < m"
  shows "pem_loop env n d = pem_loop env m d"
  using assms(2,3)
proof (induction n arbitrary: m d)
  case (Suc n)
  then obtain k where m: "m = Suc k" by (cases m) auto
  have "pem_loop env n rest = pem_loop env k rest" if "pem_Decode env d = Some (blk, rest)" for blk rest
  proof -
    have "length rest < length d" using assms(1) that by (auto simp: pem_laws_def)
    then show ?thesis using Suc.prems m by (intro Suc.IH) auto
  qed
  then show ?case by (simp add: m split: option.split prod.split)
qed simp

lemma pemBlocks_step:
  assumes "pem_laws env"
  shows "pemBlocks env d = (case pem_Decode env d of None \<Rightarrow> [] | Some (b, rest) \<Rightarrow> b # pemBlocks env rest)"
proof (cases "pem_Decode env d")
  case (Some p)
  obtain blk rest where p: "p = (blk, rest)" by fastforce
  have "length rest < length d" using assms Some p by (auto simp: pem_laws_def)
  then have "pem_loop env (length d) rest = pem_loop env (length rest + 1) rest"
    by (intro pem_loop_fuel[OF assms]) auto
  then show ?thesis by (simp add: pemBlocks_def Some p)
qed (simp add: pemBlocks_def)

lemma parsePEMCerts_Raw:
  assumes "pem_laws env" and "parsePEMCerts env d = Inr cs"
  shows "\<forall>c \<in> set cs. x509_Parse env (crt_Raw c) = Inr c"
proof -
  have "\<forall>c \<in> set cs. x509_Parse env (crt_Raw c) = Inr c" if "parse_blocks env bs = Inr cs" for bs cs
    using that assms(1)
    by (induction bs arbitrary: cs) (auto simp: pem_laws_def split: if_splits sum.splits)
  with assms(2) show ?thesis by (simp add: parsePEMCerts_def)
qed

lemma parse_all_Raw:
  assumes "pem_laws env" and "parse_all env ins = Inr cs"
  shows "\<forall>c \<in> set cs. x509_Parse env (crt_Raw c) = Inr c"
  using assms(2)
proof (induction ins arbitrary: cs)
  case (Cons i ins)
  then show ?case using parsePEMCerts_Raw[OF assms(1), of i] by (auto split: sum.splits)
qed simp

lemma pemBlocks_encode_certs:
  assumes "pem_laws env" and "encode_certs env cs = Inr s"
  shows "pemBlocks env s = map (\<lambda>c. \<lparr>pb_Type = ''CERTIFICATE'', pb_Headers = [], pb_Bytes = crt_Raw c\<rparr>) cs"
  using assms(2)
proof (induction cs arbitrary: s)
  case Nil
  then show ?case using assms(1) pemBlocks_step[OF assms(1), of "[]"] by (simp add: pem_laws_def)
next
  case (Cons c cs)
  then obtain s1 s2 where s: "s = s1 @ s2" "encode_certs env cs = Inr s2"
      "pem_Encode env \<lparr>pb_Type = ''CERTIFICATE'', pb_Headers = [], pb_Bytes = crt_Raw c\<rparr> = Inr s1"
    by (auto split: sum.splits)
  have "pem_Decode env s = Some (\<lparr>pb_Type = ''CERTIFICATE'', pb_Headers = [], pb_Bytes = crt_Raw c\<rparr>, s2)"
    using assms(1) s(1,3) by (simp add: pem_laws_def)
  then show ?case using pemBlocks_step[OF assms(1), of s] Cons.IH[OF s(2)] by simp
qed

lemma parse_blocks_certs:
  "\<forall>c \<in> set cs. x509_Parse env (crt_Raw c) = Inr c \<Longrightarrow>
    parse_blocks env (map (\<lambda>c. \<lparr>pb_Type = ''CERTIFICATE'', pb_Headers = [], pb_Bytes = crt_Raw c\<rparr>) cs) = Inr cs"
  by (induction cs) auto

lemma append_certs_map:
  "\<forall>c \<in> set cs. x509_Parse env (crt_Raw c) = Inr c \<Longrightarrow>
    List.map_filter (\<lambda>b. if pb_Type b \<noteq> ''CERTIFICATE'' \<or> pb_Headers b \<noteq> [] then None
       else (case x509_Parse env (pb_Bytes b) of Inl _ \<Rightarrow> None | Inr c \<Rightarrow> Some c))
     (map (\<lambda>c. \<lparr>pb_Type = ''CERTIFICATE'', pb_Headers = [], pb_Bytes = crt_Raw c\<rparr>) cs) = cs"
  by (induction cs) (auto simp: List.map_filter_simps)

lemma bundle_certs:
  assumes "pem_laws env" and "mergeCABundle env ins = Inr (b, n)"
  obtains cs where "parse_all env ins = Inr cs" and "parsePEMCerts env b = Inr (unseen_certs (\<lambda>_. False) cs)"
    and "appendCertsFromPEM env b = unseen_certs (\<lambda>_. False) cs" and "n = length (unseen_certs (\<lambda>_. False) cs)"
    and "encode_certs env (unseen_certs (\<lambda>_. False) cs) = Inr b" and "set (unseen_certs (\<lambda>_. False) cs) = set cs"
proof -
  from assms(2) obtain cs where cs: "parse_all env ins = Inr cs"
      "encode_certs env (unseen_certs (\<lambda>_. False) cs) = Inr b" "n = length (unseen_certs (\<lambda>_. False) cs)"
    by (auto simp: mergeCABundle_Inr)
  let ?ds = "unseen_certs (\<lambda>_. False) cs"
  have raw: "x509_Parse env (crt_Raw c) = Inr c" if "c \<in> set cs" for c
    using parse_all_Raw[OF assms(1) cs(1)] that by blast
  have sub: "set ?ds \<subseteq> set cs" by (rule certs.loop_subset)
  have ds_raw: "\<forall>c \<in> set ?ds. x509_Parse env (crt_Raw c) = Inr c" using raw sub by blast
  have blocks: "pemBlocks env b =
      map (\<lambda>c. \<lparr>pb_Type = ''CERTIFICATE'', pb_Headers = [], pb_Bytes = crt_Raw c\<rparr>) ?ds"
    by (rule pemBlocks_encode_certs[OF assms(1) cs(2)])
  have "set cs \<subseteq> set ?ds"
  proof
    fix c assume c: "c \<in> set cs"
    then have "crt_Raw c \<in> crt_Raw ` set ?ds" by (simp add: certs.loop_keys)
    then obtain d where d: "d \<in> set ?ds" "crt_Raw c = crt_Raw d" by auto
    moreover have "c = d" using raw[OF c] ds_raw d by force
    ultimately show "c \<in> set ?ds" by simp
  qed
  moreover have "parsePEMCerts env b = Inr ?ds"
    using parse_blocks_certs[OF ds_raw] by (simp add: parsePEMCerts_def blocks)
  moreover have "appendCertsFromPEM env b = ?ds"
    unfolding appendCertsFromPEM_def blocks by (rule append_certs_map[OF ds_raw])
  ultimately show ?thesis using that cs sub by auto
qed

lemma bundle_roots:
  assumes "pem_laws env" and "mergeCABundle env ins = Inr (b, n)"
  shows "parsePEMCerts env b = Inr (appendCertsFromPEM env b)"
  using assms by (rule bundle_certs) simp

text \<open>
  C26: the trust bundle reads back as what was merged. Given the codec's documented behaviour,
  parsing the bundle gives one copy of each certificate of the inputs, the pool of roots the operator
  itself verifies client certificates with has exactly those, and merging the bundle
  again gives the same bundle and count.
\<close>

theorem mergeCABundle_roundtrip:
  assumes "pem_laws env" and "mergeCABundle env ins = Inr (b, n)"
  shows "\<exists>cs ds. parse_all env ins = Inr cs \<and> parsePEMCerts env b = Inr ds \<and> distinct ds \<and> set ds = set cs \<and>
    n = length ds \<and> appendCertsFromPEM env b = ds \<and> mergeCABundle env [b] = Inr (b, n)"
proof -
  from assms obtain cs where cs: "parse_all env ins = Inr cs" "parsePEMCerts env b = Inr (unseen_certs (\<lambda>_. False) cs)"
      "appendCertsFromPEM env b = unseen_certs (\<lambda>_. False) cs" "n = length (unseen_certs (\<lambda>_. False) cs)"
      "encode_certs env (unseen_certs (\<lambda>_. False) cs) = Inr b" "set (unseen_certs (\<lambda>_. False) cs) = set cs"
    by (rule bundle_certs)
  have "distinct (unseen_certs (\<lambda>_. False) cs)"
    using certs.loop_distinct[of "\<lambda>_. False" cs] by (simp add: distinct_map)
  moreover have "mergeCABundle env [b] = Inr (b, n)"
    by (simp add: mergeCABundle_Inr cs certs.loop_idem)
  ultimately show ?thesis using cs by blast
qed

text \<open>A codec that keeps the laws: every byte after a marker, then an end mark.\<close>

definition sample_encode :: "string \<Rightarrow> string" where
  "sample_encode bs = concat (map (\<lambda>c. [CHR ''b'', c]) bs) @ ''e''"

fun sample_decode :: "string \<Rightarrow> (string \<times> string) option" where
  "sample_decode [] = None"
| "sample_decode [x] = (if x = CHR ''e'' then Some ([], []) else None)"
| "sample_decode (x # c # s) =
     (if x = CHR ''e'' then Some ([], c # s)
      else map_option (\<lambda>(bs, rest). (c # bs, rest)) (sample_decode s))"

definition pem_env :: "'w env" where
  "pem_env = sample_env\<lparr>
     pem_Decode := (\<lambda>d. map_option (\<lambda>(bs, rest).
       (\<lparr>pb_Type = ''CERTIFICATE'', pb_Headers = [], pb_Bytes = bs\<rparr>, rest)) (sample_decode d)),
     pem_Encode := (\<lambda>b. Inr (sample_encode (pb_Bytes b)))\<rparr>"

lemma sample_decode_e: "sample_decode (CHR ''e'' # rest) = Some ([], rest)"
  by (cases rest) auto

lemma sample_decode_encode: "sample_decode (sample_encode bs @ rest) = Some (bs, rest)"
  by (induction bs) (auto simp: sample_encode_def sample_decode_e)

lemma sample_decode_shorter: "sample_decode d = Some (bs, rest) \<Longrightarrow> length rest < length d"
  by (induction d arbitrary: bs rule: sample_decode.induct) (auto split: if_splits)

lemma pem_laws_pem_env: "pem_laws pem_env"
  unfolding pem_laws_def
proof (intro conjI allI impI)
  show "pem_Decode pem_env [] = None" by (simp add: pem_env_def)
next
  fix b s rest assume "pem_Encode pem_env \<lparr>pb_Type = ''CERTIFICATE'', pb_Headers = [], pb_Bytes = b\<rparr> = Inr s"
  then have s: "s = sample_encode b" by (simp add: pem_env_def)
  show "s \<noteq> []" by (simp add: s sample_encode_def)
  show "pem_Decode pem_env (s @ rest) = Some (\<lparr>pb_Type = ''CERTIFICATE'', pb_Headers = [], pb_Bytes = b\<rparr>, rest)"
    by (simp add: pem_env_def s sample_decode_encode)
next
  fix d blk rest assume "pem_Decode pem_env d = Some (blk, rest)"
  then show "length rest < length d" by (auto simp: pem_env_def dest: sample_decode_shorter)
next
  fix d c assume "x509_Parse pem_env d = Inr c"
  then show "crt_Raw c = d" by (auto simp: pem_env_def sample_env_def)
qed

definition two_cas :: "string list" where
  "two_cas = [sample_encode ''x'' @ sample_encode ''y'', sample_encode ''y'' @ sample_encode ''z'']"

lemma merge_two_cas:
  "mergeCABundle (pem_env :: unit env) two_cas = Inr (concat (map sample_encode [''x'', ''y'', ''z'']), 3)"
  by code_simp

theorem mergeCABundle_correct_witness:
  "\<exists>cs ds. parse_all (pem_env :: unit env) two_cas = Inr cs \<and>
    encode_certs (pem_env :: unit env) ds = Inr (concat (map sample_encode [''x'', ''y'', ''z''])) \<and>
    distinct (map crt_Raw ds) \<and> set ds \<subseteq> set cs \<and> crt_Raw ` set ds = crt_Raw ` set cs \<and>
    3 = card (crt_Raw ` set cs)"
  by (rule mergeCABundle_correct[OF merge_two_cas])

theorem mergeCABundle_roundtrip_witness:
  "\<exists>cs ds. parse_all (pem_env :: unit env) two_cas = Inr cs \<and>
    parsePEMCerts (pem_env :: unit env) (concat (map sample_encode [''x'', ''y'', ''z''])) = Inr ds \<and>
    distinct ds \<and> set ds = set cs \<and> 3 = length ds \<and>
    appendCertsFromPEM (pem_env :: unit env) (concat (map sample_encode [''x'', ''y'', ''z''])) = ds \<and>
    mergeCABundle (pem_env :: unit env) [concat (map sample_encode [''x'', ''y'', ''z''])] =
      Inr (concat (map sample_encode [''x'', ''y'', ''z'']), 3)"
  by (rule mergeCABundle_roundtrip[OF pem_laws_pem_env merge_two_cas])

subsection \<open>The trust Secret converges\<close>

text \<open>
  The API server as far as Secrets and ConfigMaps go, while nobody else writes them: \<open>S\<close> and
  \<open>C\<close> read them off the outside world, a read returns what is there and changes nothing, a stored object
  carries its own name, and a successful write stores the data it was given under its name.
\<close>

definition store_laws ::
  "'w env \<Rightarrow> ('w \<Rightarrow> string \<times> string \<Rightarrow> Secret option) \<Rightarrow> ('w \<Rightarrow> string \<times> string \<Rightarrow> ConfigMap option) \<Rightarrow> bool" where
  "store_laws env S C \<longleftrightarrow>
     (\<forall>ns n w. S (snd (get_secret env ns n w)) = S w \<and> C (snd (get_secret env ns n w)) = C w \<and>
        (case S w (ns, n) of
           None \<Rightarrow> (\<exists>m. fst (get_secret env ns n w) = Inl (NotFound m))
         | Some s \<Rightarrow> fst (get_secret env ns n w) = Inr s)) \<and>
     (\<forall>ns n w. S (snd (get_configmap env ns n w)) = S w \<and> C (snd (get_configmap env ns n w)) = C w \<and>
        (case C w (ns, n) of
           None \<Rightarrow> (\<exists>m. fst (get_configmap env ns n w) = Inl (NotFound m))
         | Some c \<Rightarrow> fst (get_configmap env ns n w) = Inr c)) \<and>
     (\<forall>w ns n s. S w (ns, n) = Some s \<longrightarrow> m_Namespace (sec_Meta s) = ns \<and> m_Name (sec_Meta s) = n) \<and>
     (\<forall>s w w'. create_secret env s w = (None, w') \<or> update_secret env s w = (None, w') \<longrightarrow>
        C w' = C w \<and> (\<exists>s'. sec_Data s' = sec_Data s \<and>
          S w' = (S w)((m_Namespace (sec_Meta s), m_Name (sec_Meta s)) \<mapsto> s')))"

text \<open>A world in which the stores are as at the start and only reads have happened since.\<close>

definition reading ::
  "('w \<Rightarrow> string \<times> string \<Rightarrow> Secret option) \<Rightarrow> ('w \<Rightarrow> string \<times> string \<Rightarrow> ConfigMap option) \<Rightarrow>
   'w world \<Rightarrow> 'w world \<Rightarrow> bool" where
  "reading S C w0 w \<longleftrightarrow> S (outside w) = S (outside w0) \<and> C (outside w) = C (outside w0) \<and>
     reached w0 (list_all is_read) w"

lemma reading_self [simp]: "reading S C w w"
  by (simp add: reading_def)

lemma reading_read:
  assumes "reading S C w0 w" and "S w' = S (outside w)" and "C w' = C (outside w)" and "is_read e"
  shows "reading S C w0 (w\<lparr>outside := w', trace := trace w @ [e]\<rparr>)"
  using assms by (auto simp: reading_def reached_def)

lemma wp_get_secret:
  assumes laws: "store_laws env S C" and "reading S C w0 w" and "\<And>r. is_read (e r)"
    and Q: "\<And>w' s. reading S C w0 w' \<Longrightarrow> S (outside w0) (ns, n) = Some s \<Longrightarrow> Q (Inr s) w'"
    "\<And>w' m. reading S C w0 w' \<Longrightarrow> S (outside w0) (ns, n) = None \<Longrightarrow> Q (Inl (NotFound m)) w'"
  shows "wp (effect e (get_secret env ns n)) Q w"
proof -
  obtain r o' where g: "get_secret env ns n (outside w) = (r, o')" by fastforce
  have same: "S o' = S (outside w)" "C o' = C (outside w)"
    using laws g unfolding store_laws_def by (metis snd_conv)+
  have r: "case S (outside w) (ns, n) of None \<Rightarrow> \<exists>m. r = Inl (NotFound m) | Some s \<Rightarrow> r = Inr s"
    using laws g unfolding store_laws_def by (metis fst_conv)
  have "reading S C w0 (w\<lparr>outside := o', trace := trace w @ [e r]\<rparr>)"
    by (rule reading_read[OF assms(2) same assms(3)])
  moreover have "S (outside w) = S (outside w0)" using assms(2) by (simp add: reading_def)
  ultimately show ?thesis
    using r Q by (auto simp: wp_effect g split: option.split_asm)
qed

lemma wp_get_configmap:
  assumes laws: "store_laws env S C" and "reading S C w0 w" and "\<And>r. is_read (e r)"
    and Q: "\<And>w' c. reading S C w0 w' \<Longrightarrow> C (outside w0) (ns, n) = Some c \<Longrightarrow> Q (Inr c) w'"
    "\<And>w' m. reading S C w0 w' \<Longrightarrow> C (outside w0) (ns, n) = None \<Longrightarrow> Q (Inl (NotFound m)) w'"
  shows "wp (effect e (get_configmap env ns n)) Q w"
proof -
  obtain r o' where g: "get_configmap env ns n (outside w) = (r, o')" by fastforce
  have same: "S o' = S (outside w)" "C o' = C (outside w)"
    using laws g unfolding store_laws_def by (metis snd_conv)+
  have r: "case C (outside w) (ns, n) of None \<Rightarrow> \<exists>m. r = Inl (NotFound m) | Some s \<Rightarrow> r = Inr s"
    using laws g unfolding store_laws_def by (metis fst_conv)
  have "reading S C w0 (w\<lparr>outside := o', trace := trace w @ [e r]\<rparr>)"
    by (rule reading_read[OF assms(2) same assms(3)])
  moreover have "C (outside w) = C (outside w0)" using assms(2) by (simp add: reading_def)
  ultimately show ?thesis
    using r Q by (auto simp: wp_effect g split: option.split_asm)
qed

text \<open>What an entry of \<^verbatim>\<open>additionalClientCAs\<close> holds, and the bundle of a cluster, as functions of the stores.\<close>

definition stored_ca ::
  "(string \<times> string \<Rightarrow> Secret option) \<Rightarrow> (string \<times> string \<Rightarrow> ConfigMap option) \<Rightarrow> string \<Rightarrow> TrustedCASource \<Rightarrow> string res" where
  "stored_ca S0 C0 ns src =
     (case ca_SecretRef src of
        Some ref \<Rightarrow>
          (case S0 (ns, ks_Name ref) of
             None \<Rightarrow> Inl (''additionalClientCAs: Secret '' @ Quote (ks_Name ref) @ '' not found'')
           | Some s \<Rightarrow>
               (case map_of (sec_Data s) (ks_Key ref) of
                  None \<Rightarrow> Inl (''additionalClientCAs: Secret '' @ Quote (ks_Name ref) @ '' has no key '' @ Quote (ks_Key ref))
                | Some v \<Rightarrow> Inr v))
      | None \<Rightarrow>
          (case ca_ConfigMapRef src of
             Some ref \<Rightarrow>
               (case C0 (ns, ks_Name ref) of
                  None \<Rightarrow> Inl (''additionalClientCAs: ConfigMap '' @ Quote (ks_Name ref) @ '' not found'')
                | Some cm \<Rightarrow>
                    (case map_of (cm_Data cm) (ks_Key ref) of
                       None \<Rightarrow> Inl (''additionalClientCAs: ConfigMap '' @ Quote (ks_Name ref) @ '' has no key '' @ Quote (ks_Key ref))
                     | Some v \<Rightarrow> Inr v))
           | None \<Rightarrow> Inl ''additionalClientCAs: entry sets neither secretRef nor configMapRef''))"

lemma wp_readTrustedCA:
  assumes "store_laws env S C" and "reading S C w0 w"
    and Q: "\<And>w'. reading S C w0 w' \<Longrightarrow> Q (stored_ca (S (outside w0)) (C (outside w0)) ns src) w'"
  shows "wp (readTrustedCA env ns src) Q w"
proof (cases "ca_SecretRef src")
  case (Some ref)
  show ?thesis
    unfolding readTrustedCA_def Some option.case wp_bind wp_return
    by (rule wp_get_secret[OF assms(1,2)]) (use Q in \<open>simp_all add: stored_ca_def Some\<close>)
next
  case None
  note secret = this
  show ?thesis
  proof (cases "ca_ConfigMapRef src")
    case (Some ref)
    show ?thesis
      unfolding readTrustedCA_def Some secret option.case wp_bind wp_return
      by (rule wp_get_configmap[OF assms(1,2)]) (use Q in \<open>simp_all add: stored_ca_def secret Some\<close>)
  next
    case None
    then show ?thesis using assms by (simp add: readTrustedCA_def secret stored_ca_def)
  qed
qed

text \<open>The entries' contents, checked and collected in order.\<close>

fun stored_cas ::
  "'w env \<Rightarrow> (string \<times> string \<Rightarrow> Secret option) \<Rightarrow> (string \<times> string \<Rightarrow> ConfigMap option) \<Rightarrow> string \<Rightarrow>
   TrustedCASource list \<Rightarrow> string list \<Rightarrow> string list res" where
  "stored_cas env S0 C0 ns [] inputs = Inr inputs"
| "stored_cas env S0 C0 ns (src # srcs) inputs =
     (case stored_ca S0 C0 ns src of
        Inl e \<Rightarrow> Inl e
      | Inr d \<Rightarrow>
          (case parsePEMCerts env d of
             Inl e \<Rightarrow> Inl (''additionalClientCAs: '' @ e)
           | Inr certs \<Rightarrow>
               if certs = [] then Inl (''additionalClientCAs: '' @ describeCASource src @ '' holds no PEM CERTIFICATE'')
               else stored_cas env S0 C0 ns srcs (inputs @ [d])))"

lemma wp_ca_loop:
  assumes "store_laws env S C" and "reading S C w0 w"
    and "\<And>w'. reading S C w0 w' \<Longrightarrow> Q (stored_cas env (S (outside w0)) (C (outside w0)) ns srcs inputs) w'"
  shows "wp (for_each (ca_body env ns) srcs inputs) Q w"
  using assms(2,3)
proof (induction srcs arbitrary: inputs w)
  case (Cons src srcs)
  show ?case
    unfolding for_each.simps wp_bind ca_body_def[of env ns src inputs] wp_return
    by (rule wp_readTrustedCA[OF assms(1) Cons.prems(1)])
      (use Cons in \<open>auto simp: wp_simps split: sum.split\<close>)
qed simp

definition stored_bundle ::
  "'w env \<Rightarrow> (string \<times> string \<Rightarrow> Secret option) \<Rightarrow> (string \<times> string \<Rightarrow> ConfigMap option) \<Rightarrow> RiakCluster \<Rightarrow>
   (string \<times> nat \<times> bool) res" where
  "stored_bundle env S0 C0 cluster =
     (let ns = cl_Namespace cluster;
          name = clusterTLSSecretName (cl_Name cluster);
          own = (case S0 (ns, name) of
              None \<Rightarrow> Inr ([], True)
            | Some s \<Rightarrow>
                (case map_of (sec_Data s) ''ca.crt'' of
                   None \<Rightarrow> Inl (''cluster TLS Secret '' @ Quote name @ '' has no ca.crt key; Riak needs the issuing CA there'')
                 | Some ca \<Rightarrow> Inr ([ca], False)))
      in case own of
           Inl e \<Rightarrow> Inl e
         | Inr (ins, missing) \<Rightarrow>
             (case stored_cas env S0 C0 ns (additionalClientCAs cluster) ins of
                Inl e \<Rightarrow> Inl e
              | Inr inputs \<Rightarrow> map_sum id (\<lambda>(b, n). (b, n, missing)) (mergeCABundle env inputs)))"

text \<open>Once the cluster's own certificate authority is known, the other ones are read and merged.\<close>

lemma wp_bundle_inputs:
  assumes "store_laws env S C" and "reading S C w0 w"
    and "stored_bundle env (S (outside w0)) (C (outside w0)) cluster =
      (case stored_cas env (S (outside w0)) (C (outside w0)) (cl_Namespace cluster) (additionalClientCAs cluster) ins of
         Inl e \<Rightarrow> Inl e
       | Inr inputs \<Rightarrow> map_sum id (\<lambda>(b, n). (b, n, missing)) (mergeCABundle env inputs))"
    and Q: "\<And>w'. reading S C w0 w' \<Longrightarrow> Q (stored_bundle env (S (outside w0)) (C (outside w0)) cluster) w'"
  shows "wp (for_each (ca_body env (cl_Namespace cluster)) (additionalClientCAs cluster) ins)
    (\<lambda>r. wp (return (case r of Inl e \<Rightarrow> Inl e
       | Inr inputs \<Rightarrow> map_sum id (\<lambda>(b, n). (b, n, missing)) (mergeCABundle env inputs))) Q) w"
  by (rule wp_ca_loop[OF assms(1,2)]) (simp add: Q assms(3)[symmetric])

text \<open>The cluster's TLS Secret exists: it must hold \<^verbatim>\<open>ca.crt\<close>.\<close>

lemma wp_bundle_of_secret:
  assumes "store_laws env S C" and "reading S C w0 w"
    and stored: "S (outside w0) (cl_Namespace cluster, clusterTLSSecretName (cl_Name cluster)) = Some s"
    and Q: "\<And>w'. reading S C w0 w' \<Longrightarrow> Q (stored_bundle env (S (outside w0)) (C (outside w0)) cluster) w'"
  shows "wp (case (case map_of (sec_Data s) ''ca.crt'' of
        None \<Rightarrow> Inl (''cluster TLS Secret '' @ Quote (clusterTLSSecretName (cl_Name cluster)) @
          '' has no ca.crt key; Riak needs the issuing CA there'')
      | Some ca \<Rightarrow> Inr ([ca], False)) of
         Inl e \<Rightarrow> return (Inl e)
       | Inr (own, missing) \<Rightarrow> do {
           r \<leftarrow> for_each (ca_body env (cl_Namespace cluster)) (additionalClientCAs cluster) own;
           return (case r of
               Inl e \<Rightarrow> Inl e
             | Inr inputs \<Rightarrow> map_sum id (\<lambda>(b, n). (b, n, missing)) (mergeCABundle env inputs))
         }) Q w"
proof (cases "map_of (sec_Data s) ''ca.crt''")
  case None
  with Q[OF assms(2)] stored show ?thesis by (simp add: stored_bundle_def)
next
  case (Some ca)
  show ?thesis
    unfolding Some option.case sum.case prod.case wp_bind
    by (rule wp_bundle_inputs[where Q = Q, OF assms(1,2) _ Q]) (simp_all add: stored_bundle_def Some stored)
qed

lemma wp_buildTrustBundle:
  assumes "store_laws env S C" and "reading S C w0 w" and "tlsEnabled cluster"
    and Q: "\<And>w'. reading S C w0 w' \<Longrightarrow> Q (stored_bundle env (S (outside w0)) (C (outside w0)) cluster) w'"
  shows "wp (buildTrustBundle env cluster) Q w"
  unfolding buildTrustBundle_def Let_def eqTrueI[OF assms(3)] not_True_eq_False if_False wp_bind
proof (rule wp_get_secret[OF assms(1,2)], goal_cases)
  case 1
  show ?case by simp
next
  case (2 w' s)
  show ?case unfolding sum.case by (rule wp_bundle_of_secret[where Q = Q, OF assms(1) 2 Q])
next
  case (3 w' m)
  show ?case
    unfolding sum.case IsNotFound.simps if_True prod.case wp_bind
    by (rule wp_bundle_inputs[where Q = Q, OF assms(1) 3(1) _ Q]) (simp_all add: stored_bundle_def 3(2))
qed

definition owner_laws :: "'w env \<Rightarrow> bool" where
  "owner_laws env \<longleftrightarrow> (\<forall>own m m'. SetControllerReference env own m = Inr m' \<longrightarrow>
     m_Name m' = m_Name m \<and> m_Namespace m' = m_Namespace m)"

text \<open>No entry reads the operator's own trust Secret.\<close>

definition trust_not_source :: "RiakCluster \<Rightarrow> bool" where
  "trust_not_source cluster = list_all (\<lambda>src. case ca_SecretRef src of
     Some ref \<Rightarrow> ks_Name ref \<noteq> clusterTrustSecretName (cl_Name cluster) | None \<Rightarrow> True) (additionalClientCAs cluster)"

lemma stored_ca_trust:
  assumes "case ca_SecretRef src of Some ref \<Rightarrow> ks_Name ref \<noteq> n | None \<Rightarrow> True"
  shows "stored_ca (S0((ns, n) \<mapsto> s)) C0 ns src = stored_ca S0 C0 ns src"
  using assms unfolding stored_ca_def by (cases "ca_SecretRef src") simp_all

lemma stored_cas_trust:
  assumes "list_all (\<lambda>src. case ca_SecretRef src of Some ref \<Rightarrow> ks_Name ref \<noteq> n | None \<Rightarrow> True) srcs"
  shows "stored_cas env (S0((ns, n) \<mapsto> s)) C0 ns srcs ins = stored_cas env S0 C0 ns srcs ins"
  using assms
proof (induction srcs arbitrary: ins)
  case (Cons src srcs)
  from Cons.prems have "stored_ca (S0((ns, n) \<mapsto> s)) C0 ns src = stored_ca S0 C0 ns src"
    by (intro stored_ca_trust) simp
  moreover have "stored_cas env (S0((ns, n) \<mapsto> s)) C0 ns srcs i = stored_cas env S0 C0 ns srcs i" for i
    by (rule Cons.IH) (use Cons.prems in simp)
  ultimately show ?case unfolding stored_cas.simps by (simp only:)
qed simp

lemma stored_bundle_trust:
  assumes "trust_not_source cluster"
  shows "stored_bundle env (S0((cl_Namespace cluster, clusterTrustSecretName (cl_Name cluster)) \<mapsto> s)) C0 cluster =
    stored_bundle env S0 C0 cluster"
proof -
  have "clusterTLSSecretName (cl_Name cluster) \<noteq> clusterTrustSecretName (cl_Name cluster)"
    by (simp add: clusterTLSSecretName_def clusterTrustSecretName_def)
  then show ?thesis
    by (simp add: stored_bundle_def Let_def stored_cas_trust[OF assms[unfolded trust_not_source_def]]
        cong: sum.case_cong prod.case_cong)
qed

text \<open>The trust Secret of a cluster holds this bundle.\<close>

definition trusted :: "(string \<times> string \<Rightarrow> Secret option) \<Rightarrow> RiakCluster \<Rightarrow> string \<Rightarrow> bool" where
  "trusted S0 cluster b \<longleftrightarrow> (\<exists>s. S0 (cl_Namespace cluster, clusterTrustSecretName (cl_Name cluster)) = Some s \<and>
     map_get (sec_Data s) trustBundleKey = b)"

text \<open>
  A successful write of the trust Secret: it holds the bundle, and nothing else has changed.
\<close>

lemma wp_write_secret:
  assumes "store_laws env S C" and "f = create_secret env \<or> f = update_secret env"
    and "m_Namespace (sec_Meta s) = cl_Namespace cluster" and "m_Name (sec_Meta s) = clusterTrustSecretName (cl_Name cluster)"
    and "sec_Data s = [(trustBundleKey, b)]" and "reading S C w0 w"
  shows "wp (effect e (f s)) (\<lambda>r w'. r = None \<longrightarrow>
    trusted (S (outside w')) cluster b \<and> C (outside w') = C (outside w0) \<and>
    (\<exists>s'. S (outside w') = (S (outside w0))((cl_Namespace cluster, clusterTrustSecretName (cl_Name cluster)) \<mapsto> s'))) w"
proof -
  obtain r o' where f: "f s (outside w) = (r, o')" by fastforce
  show ?thesis
  proof (cases r)
    case None
    have "C o' = C (outside w) \<and> (\<exists>s'. sec_Data s' = sec_Data s \<and>
        S o' = (S (outside w))((m_Namespace (sec_Meta s), m_Name (sec_Meta s)) \<mapsto> s'))"
      using assms(1,2) f None unfolding store_laws_def by metis
    then show ?thesis
      using assms(3-6) by (auto simp: wp_effect f None trusted_def reading_def map_get_def)
  qed (simp add: wp_effect f)
qed

text \<open>What a run without error leaves behind, given the stores before it.\<close>

definition trust_done ::
  "'w env \<Rightarrow> ('w \<Rightarrow> string \<times> string \<Rightarrow> Secret option) \<Rightarrow> ('w \<Rightarrow> string \<times> string \<Rightarrow> ConfigMap option) \<Rightarrow> RiakCluster \<Rightarrow>
   'w world \<Rightarrow> 'w world \<Rightarrow> bool" where
  "trust_done env S C cluster w w' \<longleftrightarrow>
     (case stored_bundle env (S (outside w)) (C (outside w)) cluster of
        Inl _ \<Rightarrow> False
      | Inr (b, n, missing) \<Rightarrow>
          if missing \<or> trusted (S (outside w)) cluster b then reading S C w w'
          else trusted (S (outside w')) cluster b \<and> C (outside w') = C (outside w) \<and>
            (\<exists>s. S (outside w') = (S (outside w))((cl_Namespace cluster, clusterTrustSecretName (cl_Name cluster)) \<mapsto> s)))"

text \<open>Nothing is left to write: the bundle can be built, and is stored or must wait for the cluster's CA.\<close>

definition trust_settled ::
  "'w env \<Rightarrow> ('w \<Rightarrow> string \<times> string \<Rightarrow> Secret option) \<Rightarrow> ('w \<Rightarrow> string \<times> string \<Rightarrow> ConfigMap option) \<Rightarrow> RiakCluster \<Rightarrow>
   'w world \<Rightarrow> bool" where
  "trust_settled env S C cluster w \<longleftrightarrow>
     (case stored_bundle env (S (outside w)) (C (outside w)) cluster of
        Inl _ \<Rightarrow> False
      | Inr (b, n, missing) \<Rightarrow> missing \<or> trusted (S (outside w)) cluster b)"

text \<open>Storing a bundle that could be built with the cluster's own authority in it.\<close>

lemma wp_store_trust:
  assumes laws: "store_laws env S C" "owner_laws env" and w1: "reading S C w w1"
    and B: "stored_bundle env (S (outside w)) (C (outside w)) cluster = Inr (b, n, False)"
  shows "wp (effect (\<lambda>_. Get KSecret (cl_Namespace cluster) (clusterTrustSecretName (cl_Name cluster)))
      (get_secret env (cl_Namespace cluster) (clusterTrustSecretName (cl_Name cluster))))
    (\<lambda>g. wp (case g of
        Inl err \<Rightarrow>
          if IsNotFound err then
            (case SetControllerReference env (cl_Meta cluster)
                (new_meta (clusterTrustSecretName (cl_Name cluster)) (cl_Namespace cluster)) of
               Inl e \<Rightarrow> return (Some e)
             | Inr m \<Rightarrow> do {
                 r \<leftarrow> effect (\<lambda>_. Create KSecret (cl_Namespace cluster) (clusterTrustSecretName (cl_Name cluster)))
                   (create_secret env \<lparr>sec_Meta = m, sec_Data = [(trustBundleKey, b)]\<rparr>);
                 return (map_option api_msg r)
               })
          else return (Some (api_msg err))
      | Inr existing \<Rightarrow>
          if map_get (sec_Data existing) trustBundleKey = b then return None
          else do {
            r \<leftarrow> effect (\<lambda>_. Update KSecret (cl_Namespace cluster) (clusterTrustSecretName (cl_Name cluster)))
              (update_secret env (existing\<lparr>sec_Data := [(trustBundleKey, b)]\<rparr>));
            return (map_option api_msg r)
          })
      (\<lambda>r w'. (r = None \<longrightarrow> trust_done env S C cluster w w') \<and> (trust_settled env S C cluster w \<longrightarrow> r = None))) w1"
    (is "wp _ (\<lambda>g. wp (?cont g) ?Q) w1")
proof (rule wp_get_secret[OF laws(1) w1], goal_cases)
  case 1
  show ?case by simp
next
  case (2 w2 s)
  have s: "m_Namespace (sec_Meta s) = cl_Namespace cluster" "m_Name (sec_Meta s) = clusterTrustSecretName (cl_Name cluster)"
    using laws(1) 2(2) unfolding store_laws_def by metis+
  have "wp (effect e (update_secret env (s\<lparr>sec_Data := [(trustBundleKey, b)]\<rparr>)))
      (\<lambda>r. wp (return (map_option api_msg r)) ?Q) w2" if "map_get (sec_Data s) trustBundleKey \<noteq> b" for e
    by (rule wp_mono, rule wp_write_secret[OF laws(1) _ _ _ _ 2(1)])
      (use that 2 in \<open>auto simp: s trust_done_def trust_settled_def B trusted_def\<close>)
  moreover have "?Q None w2" if "map_get (sec_Data s) trustBundleKey = b"
    using 2 that by (auto simp: trust_done_def trust_settled_def B trusted_def)
  ultimately show ?case by simp
next
  case (3 w2 m)
  have "wp (effect e (create_secret env \<lparr>sec_Meta = m', sec_Data = [(trustBundleKey, b)]\<rparr>))
      (\<lambda>r. wp (return (map_option api_msg r)) ?Q) w2"
    if "SetControllerReference env (cl_Meta cluster)
      (new_meta (clusterTrustSecretName (cl_Name cluster)) (cl_Namespace cluster)) = Inr m'" for m' e
    by (rule wp_mono, rule wp_write_secret[OF laws(1) _ _ _ _ 3(1)])
      (use laws(2) that 3 in \<open>auto simp: owner_laws_def new_meta_def trust_done_def trust_settled_def B trusted_def\<close>)
  moreover have "\<not> trust_settled env S C cluster w"
    using 3(2) by (simp add: trust_settled_def B trusted_def)
  ultimately show ?case by (simp split: sum.split)
qed

lemma wp_reconcileTrustBundle:
  assumes laws: "store_laws env S C" "owner_laws env" and has: "hasAdditionalClientCAs cluster"
  shows "wp (reconcileTrustBundle env cluster) (\<lambda>r w'.
    (r = None \<longrightarrow> trust_done env S C cluster w w') \<and> (trust_settled env S C cluster w \<longrightarrow> r = None)) w"
proof -
  have tls: "tlsEnabled cluster" using has by (simp add: hasAdditionalClientCAs_def)
  show ?thesis
    unfolding reconcileTrustBundle_def eqTrueI[OF has] not_True_eq_False if_False wp_bind
  proof (rule wp_buildTrustBundle[OF laws(1) reading_self tls], goal_cases)
    case (1 w1)
    show ?case
    proof (cases "stored_bundle env (S (outside w)) (C (outside w)) cluster")
      case (Inr p)
      obtain b n missing where p: "p = (b, n, missing)" by (cases p) auto
      note B = Inr[unfolded p]
      show ?thesis
      proof (cases missing)
        case False
        show ?thesis
          unfolding B sum.case prod.case if_not_P[OF False] Let_def wp_bind
          by (rule wp_store_trust[OF laws 1]) (use B False in simp)
      qed (use 1 in \<open>simp add: B trust_done_def trust_settled_def\<close>)
    qed (simp add: trust_settled_def)
  qed
qed

lemma trust_done_settled:
  assumes "trust_done env S C cluster w w1" and "trust_not_source cluster"
  shows "trust_settled env S C cluster w1"
  using assms(1)
  by (auto simp: trust_done_def trust_settled_def reading_def stored_bundle_trust[OF assms(2)]
      split: sum.splits if_splits)

text \<open>
  C13: the trust Secret converges. When reconciling the trust bundle ends without an error, the bundle
  could be built, and either the cluster's own certificate is not issued yet and nothing was written, or the trust Secret now
  holds the bundle and no other Secret or ConfigMap has changed. Reconciling again
  then ends without an error and writes nothing, so an unchanged Secret is never rewritten.
\<close>

theorem reconcileTrustBundle_converges:
  assumes laws: "store_laws env S C" "owner_laws env" and has: "hasAdditionalClientCAs cluster" "trust_not_source cluster"
    and run: "run_state (reconcileTrustBundle env cluster) w = (None, w1)"
  shows "\<exists>b n missing. stored_bundle env (S (outside w)) (C (outside w)) cluster = Inr (b, n, missing) \<and>
      (if missing then list_all is_read (emitted (reconcileTrustBundle env cluster) w)
       else trusted (S (outside w1)) cluster b) \<and>
      C (outside w1) = C (outside w) \<and>
      (\<forall>k. k \<noteq> (cl_Namespace cluster, clusterTrustSecretName (cl_Name cluster)) \<longrightarrow> S (outside w1) k = S (outside w) k) \<and>
      fst (run_state (reconcileTrustBundle env cluster) w1) = None \<and>
      list_all is_read (emitted (reconcileTrustBundle env cluster) w1)"
proof -
  have done1: "trust_done env S C cluster w w1"
    using wp_run[OF run wp_reconcileTrustBundle[OF laws has(1)]] by simp
  have settled: "trust_settled env S C cluster w1" by (rule trust_done_settled[OF done1 has(2)])
  obtain r w2 where run2: "run_state (reconcileTrustBundle env cluster) w1 = (r, w2)" by fastforce
  have r: "r = None" "trust_done env S C cluster w1 w2"
    using wp_run[OF run2 wp_reconcileTrustBundle[OF laws has(1)]] settled by auto
  have "reading S C w1 w2"
    using r(2) settled by (auto simp: trust_done_def trust_settled_def split: sum.splits)
  then have reads: "list_all is_read (emitted (reconcileTrustBundle env cluster) w1)"
    using run2 by (auto simp: reading_def reached_def emitted_def)
  from done1 obtain b n missing where B: "stored_bundle env (S (outside w)) (C (outside w)) cluster = Inr (b, n, missing)"
    by (auto simp: trust_done_def split: sum.splits)
  have "list_all is_read (emitted (reconcileTrustBundle env cluster) w)" if missing
    using done1 that run by (auto simp: trust_done_def B reading_def reached_def emitted_def)
  moreover have "trusted (S (outside w1)) cluster b" if "\<not> missing"
    using done1 that by (auto simp: trust_done_def B reading_def split: if_splits)
  moreover have "C (outside w1) = C (outside w)"
    using done1 by (auto simp: trust_done_def B reading_def split: if_splits)
  moreover have "S (outside w1) k = S (outside w) k"
    if "k \<noteq> (cl_Namespace cluster, clusterTrustSecretName (cl_Name cluster))" for k
    using done1 that by (auto simp: trust_done_def B reading_def split: if_splits)
  ultimately show ?thesis using B r run2 reads by auto
qed


lemma wp_buildTrustBundle_merged:
  "wp (buildTrustBundle env cluster)
    (\<lambda>r w'. case r of Inl _ \<Rightarrow> True | Inr (b, n, m) \<Rightarrow> \<exists>ins. mergeCABundle env ins = Inr (b, n)) w"
proof (rule wpI)
  fix r w' assume "run_state (buildTrustBundle env cluster) w = (r, w')"
  then show "case r of Inl _ \<Rightarrow> True | Inr (b, n, m) \<Rightarrow> \<exists>ins. mergeCABundle env ins = Inr (b, n)"
    by (auto simp: buildTrustBundle_def Let_def map_sum_def split: if_splits sum.splits option.splits prod.splits)
qed

text \<open>
  C14: an externally issued client certificate counts as ready only when it is one the cluster trusts.
  If the operator reports a certificate ready, the Secret named by the user was read
  and has a \<^verbatim>\<open>tls.crt\<close> whose first certificate carries the user's Riak name and verifies at that time,
  through the other certificates of the Secret, against roots that are exactly the certificates
  of a bundle just built from the cluster's trusted CAs, of which there is at least one; the expiry
  returned is that certificate's own.
\<close>

theorem externalCertificateReadiness_sound:
  assumes laws: "pem_laws env"
    and run: "run_state (externalCertificateReadiness env user ref cluster now) w = ((True, reason, notAfter), w')"
  shows "\<exists>s o1 crt leaf chain b n missing roots.
    get_secret env (u_Namespace user) (ucr_ExternalSecretName ref) (outside w) = (Inr s, o1) \<and>
    map_of (sec_Data s) ''tls.crt'' = Some crt \<and>
    parsePEMCerts env crt = Inr (leaf # chain) \<and> crt_CommonName leaf = us_Username (u_Spec user) \<and>
    fst (run_state (buildTrustBundle env cluster)
      (w\<lparr>outside := o1, trace := trace w @ [Get KSecret (u_Namespace user) (ucr_ExternalSecretName ref)]\<rparr>)) =
      Inr (b, n, missing) \<and>
    parsePEMCerts env b = Inr roots \<and> roots \<noteq> [] \<and>
    x509_Verify env leaf roots chain now = None \<and> notAfter = crt_NotAfter leaf \<and> reason = []"
proof -
  obtain reply o1 where g: "get_secret env (u_Namespace user) (ucr_ExternalSecretName ref) (outside w) = (reply, o1)"
    by fastforce
  let ?w1 = "w\<lparr>outside := o1, trace := trace w @ [Get KSecret (u_Namespace user) (ucr_ExternalSecretName ref)]\<rparr>"
  obtain r w2 where built: "run_state (buildTrustBundle env cluster) ?w1 = (r, w2)" by fastforce
  from run obtain s crt where s: "reply = Inr s" "map_of (sec_Data s) ''tls.crt'' = Some crt"
    by (auto simp: externalCertificateReadiness_def Let_def effect_def g split: sum.splits option.splits)
  from run obtain b n missing where b: "r = Inr (b, n, missing)"
    by (cases r) (auto simp: externalCertificateReadiness_def Let_def effect_def g s built)
  obtain ins where "mergeCABundle env ins = Inr (b, n)"
    using wp_run[OF built wp_buildTrustBundle_merged] by (auto simp: b)
  then have roots: "parsePEMCerts env b = Inr (appendCertsFromPEM env b)"
    using bundle_roots[OF laws] by blast
  from run have res: "appendCertsFromPEM env b \<noteq> []"
      "verifyClientCert env crt (us_Username (u_Spec user)) (appendCertsFromPEM env b) now = Inr notAfter \<and> reason = []"
    by (auto simp: externalCertificateReadiness_def Let_def effect_def g s built b split: if_splits sum.splits)
  then obtain leaf chain where "parsePEMCerts env crt = Inr (leaf # chain)"
      "crt_CommonName leaf = us_Username (u_Spec user)"
      "x509_Verify env leaf (appendCertsFromPEM env b) chain now = None" "notAfter = crt_NotAfter leaf"
    by (auto simp: verifyClientCert_def split: sum.splits list.splits if_splits option.splits)
  with g s built b roots res show ?thesis by auto
qed


text \<open>A small API server with a table of Secrets, for the witnesses.\<close>

type_synonym secrets = "(string \<times> string) \<Rightarrow> Secret option"

definition secret_env :: "secrets env" where
  "secret_env = pem_env\<lparr>
     get_secret := (\<lambda>ns n S0. (case S0 (ns, n) of None \<Rightarrow> Inl (NotFound ''not found'')
       | Some s \<Rightarrow> Inr (s\<lparr>sec_Meta := (sec_Meta s)\<lparr>m_Name := n, m_Namespace := ns\<rparr>\<rparr>), S0)),
     create_secret := (\<lambda>s S0. (None, S0((m_Namespace (sec_Meta s), m_Name (sec_Meta s)) \<mapsto> s))),
     update_secret := (\<lambda>s S0. (None, S0((m_Namespace (sec_Meta s), m_Name (sec_Meta s)) \<mapsto> s)))\<rparr>"

definition secrets_of :: "secrets \<Rightarrow> secrets" where
  "secrets_of S0 = (\<lambda>(ns, n). map_option (\<lambda>s. s\<lparr>sec_Meta := (sec_Meta s)\<lparr>m_Name := n, m_Namespace := ns\<rparr>\<rparr>) (S0 (ns, n)))"

lemma secrets_of_put:
  "\<exists>s'. sec_Data s' = sec_Data s \<and>
    secrets_of (S0((m_Namespace (sec_Meta s), m_Name (sec_Meta s)) \<mapsto> s)) =
      (secrets_of S0)((m_Namespace (sec_Meta s), m_Name (sec_Meta s)) \<mapsto> s')"
  by (rule exI[of _ s]) (auto simp: secrets_of_def fun_eq_iff)

lemma store_laws_secret_env: "store_laws secret_env secrets_of (\<lambda>_ _. None)"
  unfolding store_laws_def
proof (intro conjI allI impI)
  fix s w w' assume "create_secret secret_env s w = (None, w') \<or> update_secret secret_env s w = (None, w')"
  then have "w' = w((m_Namespace (sec_Meta s), m_Name (sec_Meta s)) \<mapsto> s)"
    by (auto simp: secret_env_def)
  then show "\<exists>s'. sec_Data s' = sec_Data s \<and>
      secrets_of w' = (secrets_of w)((m_Namespace (sec_Meta s), m_Name (sec_Meta s)) \<mapsto> s')"
    by (simp only: secrets_of_put)
qed (auto simp: secret_env_def pem_env_def secrets_of_def sample_env_def split: option.split)

lemma owner_laws_secret_env: "owner_laws secret_env"
  by (simp add: owner_laws_def secret_env_def pem_env_def sample_env_def)

definition tls_cluster :: RiakCluster where
  "tls_cluster = (sample_cluster 3)\<lparr>cl_Spec := (sample_spec 3)\<lparr>cls_TLS := Some \<lparr>tls_Enabled = True,
     tls_CertManager = None, tls_AdditionalClientCAs =
       [\<lparr>ca_SecretRef = Some \<lparr>ks_Name = ''extra'', ks_Key = ''ca''\<rparr>, ca_ConfigMapRef = None\<rparr>]\<rparr>\<rparr>\<rparr>"

definition plain_secret :: "gomap \<Rightarrow> Secret" where
  "plain_secret d = \<lparr>sec_Meta = new_meta [] [], sec_Data = d\<rparr>"

definition issued :: secrets where
  "issued = [(''ns'', ''c-tls'') \<mapsto> plain_secret [(''ca.crt'', sample_encode ''own'')],
     (''ns'', ''extra'') \<mapsto> plain_secret [(''ca'', sample_encode ''x'')],
     (''ns'', ''client'') \<mapsto> plain_secret [(''tls.crt'', sample_encode ''alice'')]]"

lemma trust_run: "fst (run_state (reconcileTrustBundle secret_env tls_cluster) (start issued)) = None"
  by code_simp

theorem reconcileTrustBundle_converges_witness:
  "\<exists>b n missing w1. run_state (reconcileTrustBundle secret_env tls_cluster) (start issued) = (None, w1) \<and>
     stored_bundle secret_env (secrets_of issued) (\<lambda>_. None) tls_cluster = Inr (b, n, missing) \<and>
     fst (run_state (reconcileTrustBundle secret_env tls_cluster) w1) = None \<and>
     list_all is_read (emitted (reconcileTrustBundle secret_env tls_cluster) w1)"
proof -
  obtain w1 where run: "run_state (reconcileTrustBundle secret_env tls_cluster) (start issued) = (None, w1)"
    using trust_run by (metis prod.collapse)
  have "hasAdditionalClientCAs tls_cluster" by code_simp
  moreover have "trust_not_source tls_cluster" by code_simp
  ultimately show ?thesis
    using reconcileTrustBundle_converges[OF store_laws_secret_env owner_laws_secret_env _ _ run] run by auto
qed

definition sample_ustatus :: RiakUserStatus where
  "sample_ustatus = \<lparr>ut_Phase = [], ut_Created = False, ut_LastUpdateTime = None, ut_Error = [], ut_Username = [],
     ut_CertificateReady = False, ut_CertificateError = [], ut_ClusterName = [], ut_Grants = [], ut_Conditions = []\<rparr>"

definition sample_user :: "UserCertificateRef option \<Rightarrow> Grant list \<Rightarrow> RiakUser" where
  "sample_user ref grants = \<lparr>u_Meta = new_meta ''alice'' ''ns'', u_Spec = \<lparr>us_ClusterName = ''c'', us_Username = ''alice'',
     us_Grants = grants, us_CertificateRef = ref\<rparr>, u_Status = sample_ustatus\<rparr>"

definition external_ref :: UserCertificateRef where
  "external_ref = \<lparr>ucr_IssuerRef = None, ucr_SecretName = [], ucr_ExternalSecretName = ''client''\<rparr>"

lemma external_run:
  "fst (run_state (externalCertificateReadiness secret_env (sample_user (Some external_ref) []) external_ref tls_cluster 5)
     (start issued)) = (True, [], 0)"
  by code_simp

lemma pem_laws_secret_env: "pem_laws secret_env"
  using pem_laws_pem_env[where 'a = secrets] by (simp add: pem_laws_def secret_env_def)

theorem externalCertificateReadiness_sound_witness:
  "\<exists>s o1 crt leaf chain b n missing roots.
    get_secret secret_env ''ns'' ''client'' issued = (Inr s, o1) \<and>
    map_of (sec_Data s) ''tls.crt'' = Some crt \<and>
    parsePEMCerts secret_env crt = Inr (leaf # chain) \<and> crt_CommonName leaf = ''alice'' \<and>
    fst (run_state (buildTrustBundle secret_env tls_cluster)
      ((start issued)\<lparr>outside := o1, trace := [Get KSecret ''ns'' ''client'']\<rparr>)) = Inr (b, n, missing) \<and>
    parsePEMCerts secret_env b = Inr roots \<and> roots \<noteq> [] \<and>
    x509_Verify secret_env leaf roots chain 5 = None \<and> 0 = crt_NotAfter leaf"
proof -
  obtain w' where "run_state (externalCertificateReadiness secret_env (sample_user (Some external_ref) []) external_ref
      tls_cluster 5) (start issued) = ((True, [], 0), w')"
    using external_run by (metis prod.collapse)
  from externalCertificateReadiness_sound[OF pem_laws_secret_env this] show ?thesis
    by (simp add: sample_user_def external_ref_def new_meta_def)
qed

end
