(* ===== verification/Bucket_Controller.thy ===== *)
theory Bucket_Controller
  imports Tls
begin

text \<open>
  The RiakBucket controller (\<^verbatim>\<open>internal/controller/riakbucket_controller.go\<close>): one reconcile of a
  bucket, the properties it sends to Riak and the status it records. Registration with the
  controller manager is not modelled.
\<close>

text \<open>\<^verbatim>\<open>ctrl.Result\<close>, of which the operator only uses the requeue delay.\<close>

record Result =
  rq_RequeueAfter :: duration

definition no_requeue :: Result where "no_requeue = \<lparr>rq_RequeueAfter = 0\<rparr>"

definition requeue :: "duration \<Rightarrow> Result" where "requeue d = \<lparr>rq_RequeueAfter = d\<rparr>"

type_synonym outcome = "Result \<times> error option"

definition riakBucketFinalizerName :: string where
  "riakBucketFinalizerName = ''riak.openriak.io/bucket-finalizer''"

definition effectiveBucketProperties :: "RiakBucketSpec \<Rightarrow> gomap \<times> int" where
  "effectiveBucketProperties spec =
     (let properties = bs_Properties spec;
          nVal = (if bs_NVal spec = 0 then bs_ReplicationFactor spec else bs_NVal spec);
          (properties', nVal') =
            (if nVal > 0 then (map_put properties ''n_val'' (Itoa nVal), nVal)
             else (properties,
               case ParseInt (map_get properties ''n_val'') 32 of
                 Some parsed \<Rightarrow> if parsed > 0 then i32 parsed else nVal
               | None \<Rightarrow> nVal))
      in (if bs_AllowMulti spec then map_put properties' ''allow_mult'' ''true'' else properties', nVal'))"

definition bucketNodes :: "RiakCluster \<Rightarrow> BucketNodeRef list" where
  "bucketNodes cluster =
     map (\<lambda>m. \<lparr>bn_Name = nm_Name m, bn_Pod = nm_Pod m, bn_Ready = nm_Ready m, bn_Health = nm_Health m\<rparr>)
       (clt_Members (cl_Status cluster))"

definition updateBucketStatus :: "'w env \<Rightarrow> RiakBucket \<Rightarrow> ('w, api_error + RiakBucket) action" where
  "updateBucketStatus env bucket = effect (\<lambda>_. BucketStatus bucket) (status_bucket env bucket)"

text \<open>The result of the status write is logged, not returned.\<close>

definition failBucket :: "'w env \<Rightarrow> RiakBucket \<Rightarrow> string \<Rightarrow> string \<Rightarrow> ('w, unit) action" where
  "failBucket env bucket reason message = do {
     let st = b_Status bucket;
     let same = (bt_Phase st = BucketPhaseFailed \<and> bt_Error st = message);
     (conds, changed) \<leftarrow> setCondition env (bt_Conditions st) conditionReady False
       (m_Generation (b_Meta bucket)) reason message;
     let st' = st\<lparr>bt_Phase := BucketPhaseFailed, bt_Error := message, bt_Conditions := conds\<rparr>;
     (if same \<and> \<not> changed then return ()
      else do {
        now \<leftarrow> Now env;
        _ \<leftarrow> updateBucketStatus env (bucket\<lparr>b_Status := st'\<lparr>bt_LastUpdateTime := Some now\<rparr>\<rparr>);
        return ()
      })
   }"

definition bucketTypeOf :: "RiakBucketSpec \<Rightarrow> string" where
  "bucketTypeOf spec = (if bs_BucketType spec = [] then ''default'' else bs_BucketType spec)"

text \<open>The status recorded after the bucket type has been applied.\<close>

definition readyBucketStatus :: "RiakBucket \<Rightarrow> RiakCluster \<Rightarrow> time \<Rightarrow> RiakBucketStatus" where
  "readyBucketStatus bucket cluster now =
     (case effectiveBucketProperties (b_Spec bucket) of (properties, nVal) \<Rightarrow>
        (b_Status bucket)\<lparr>bt_Phase := BucketPhaseReady, bt_Created := True, bt_Error := [],
          bt_BucketName := bs_BucketName (b_Spec bucket), bt_BucketType := bucketTypeOf (b_Spec bucket),
          bt_NVal := nVal, bt_ReplicationFactor := nVal, bt_Properties := properties,
          bt_Nodes := bucketNodes cluster, bt_LastUpdateTime := Some now\<rparr>)"

definition applyBucket :: "'w env \<Rightarrow> RiakBucket \<Rightarrow> RiakCluster \<Rightarrow> ('w, outcome) action" where
  "applyBucket env bucket cluster = do {
     let bucketType = bucketTypeOf (b_Spec bucket);
     let (properties, nVal) = effectiveBucketProperties (b_Spec bucket);
     err \<leftarrow> CreateBucketType env cluster bucketType properties;
     (case err of
        Some e \<Rightarrow> do {
          _ \<leftarrow> failBucket env bucket ''CreateFailed'' (''failed to create bucket: '' @ e);
          return (requeue (10 * Second), None)
        }
      | None \<Rightarrow> do {
          now \<leftarrow> Now env;
          let st = readyBucketStatus bucket cluster now;
          (conds, _) \<leftarrow> setCondition env (bt_Conditions st) conditionReady True (m_Generation (b_Meta bucket))
            ''BucketCreated'' (''bucket type '' @ Quote bucketType @ '' is active on cluster '' @ cl_Name cluster);
          r \<leftarrow> updateBucketStatus env (bucket\<lparr>b_Status := st\<lparr>bt_Conditions := conds\<rparr>\<rparr>);
          return (case r of
              Inl e \<Rightarrow> (no_requeue, Some (api_msg e))
            | Inr _ \<Rightarrow> (no_requeue, None))
        })
   }"

definition bucketOnCluster :: "'w env \<Rightarrow> RiakBucket \<Rightarrow> ('w, outcome) action" where
  "bucketOnCluster env bucket = do {
     let ns = b_Namespace bucket;
     let name = bs_ClusterName (b_Spec bucket);
     g \<leftarrow> effect (GetCluster ns name) (get_cluster env ns name);
     (case g of
        Inl err \<Rightarrow>
          if \<not> IsNotFound err then return (no_requeue, Some (api_msg err))
          else do {
            _ \<leftarrow> failBucket env bucket ''ClusterNotFound'' (''cluster not found: '' @ api_msg err);
            return (requeue (5 * Second), None)
          }
      | Inr cluster \<Rightarrow>
          if clt_Phase (cl_Status cluster) \<noteq> PhaseReady then do {
            (conds, changed) \<leftarrow> setCondition env (bt_Conditions (b_Status bucket)) conditionReady False
              (m_Generation (b_Meta bucket)) ''ClusterNotReady''
              (''cluster '' @ cl_Name cluster @ '' is in phase '' @ Quote (clt_Phase (cl_Status cluster)));
            _ \<leftarrow> (if changed
                  then updateBucketStatus env (bucket\<lparr>b_Status := (b_Status bucket)\<lparr>bt_Conditions := conds\<rparr>\<rparr>)
                  else return (Inr bucket));
            return (requeue (5 * Second), None)
          }
          else applyBucket env bucket cluster)
   }"

definition deleteBucket :: "'w env \<Rightarrow> RiakBucket \<Rightarrow> ('w, outcome) action" where
  "deleteBucket env bucket =
     (if ContainsFinalizer env (b_Meta bucket) riakBucketFinalizerName then do {
        r \<leftarrow> effect (\<lambda>_. Update KBucket (b_Namespace bucket) (b_Name bucket))
          (update_bucket env (bucket\<lparr>b_Meta := RemoveFinalizer env (b_Meta bucket) riakBucketFinalizerName\<rparr>));
        return (case r of Inl e \<Rightarrow> (no_requeue, Some (api_msg e)) | Inr _ \<Rightarrow> (no_requeue, None))
      }
      else return (no_requeue, None))"

definition ensureBucketFinalizer :: "'w env \<Rightarrow> RiakBucket \<Rightarrow> ('w, api_error + RiakBucket) action" where
  "ensureBucketFinalizer env bucket =
     (if \<not> ContainsFinalizer env (b_Meta bucket) riakBucketFinalizerName
      then effect (\<lambda>_. Update KBucket (b_Namespace bucket) (b_Name bucket))
        (update_bucket env (bucket\<lparr>b_Meta := AddFinalizer env (b_Meta bucket) riakBucketFinalizerName\<rparr>))
      else return (Inr bucket))"

definition initBucketStatus :: "'w env \<Rightarrow> RiakBucket \<Rightarrow> ('w, api_error + RiakBucket) action" where
  "initBucketStatus env bucket =
     (if bt_Phase (b_Status bucket) = []
      then updateBucketStatus env (bucket\<lparr>b_Status := (b_Status bucket)\<lparr>bt_Phase := BucketPhaseCreating\<rparr>\<rparr>)
      else return (Inr bucket))"

definition Bucket_Reconcile :: "'w env \<Rightarrow> string \<Rightarrow> string \<Rightarrow> ('w, outcome) action" where
  "Bucket_Reconcile env ns name = do {
     g \<leftarrow> effect (\<lambda>_. Get KBucket ns name) (get_bucket env ns name);
     (case g of
        Inl err \<Rightarrow> return (no_requeue, IgnoreNotFound err)
      | Inr bucket \<Rightarrow>
          if m_DeletionTimestamp (b_Meta bucket) \<noteq> None then deleteBucket env bucket
          else do {
            f \<leftarrow> ensureBucketFinalizer env bucket;
            (case f of
               Inl err \<Rightarrow> return (no_requeue, Some (api_msg err))
             | Inr bucket1 \<Rightarrow> do {
                 s \<leftarrow> initBucketStatus env bucket1;
                 (case s of
                    Inl err \<Rightarrow> return (no_requeue, Some (api_msg err))
                  | Inr bucket2 \<Rightarrow> bucketOnCluster env bucket2)
               })
          })
   }"

subsection \<open>The properties sent to Riak\<close>

definition typed_nval :: "RiakBucketSpec \<Rightarrow> int" where
  "typed_nval spec = (if bs_NVal spec = 0 then bs_ReplicationFactor spec else bs_NVal spec)"

lemma ParseInt_Itoa: "0 < n \<Longrightarrow> is_i32 n \<Longrightarrow> ParseInt (Itoa n) 32 = Some n"
  using ParseInt_show_nat[of "nat n" 32] by (simp add: Itoa_def is_i32_def)

lemma ParseInt_i32: "ParseInt s 32 = Some n \<Longrightarrow> i32 n = n"
  using ParseInt_bounds[of s 32 n] by (simp add: i32_id is_i32_def)

text \<open>
  The properties sent for a bucket type are the specification's, with the typed fields layered on
  top: \<^verbatim>\<open>n_val\<close> when one is set, \<^verbatim>\<open>allow_mult\<close> only when siblings are allowed, and every other key untouched.
  The replication factor recorded in the status is the \<^verbatim>\<open>n_val\<close> that was sent: when it is
  positive, the property sent reads as that number, and when it is not, no
  positive 32-bit number was sent at all.
\<close>

lemma effectiveBucketProperties_correct:
  assumes "is_i32 (bs_NVal spec)" and "is_i32 (bs_ReplicationFactor spec)"
    and "effectiveBucketProperties spec = (props, n)"
  shows "(\<forall>k. map_of props k =
      (if k = ''allow_mult'' \<and> bs_AllowMulti spec then Some ''true''
       else if k = ''n_val'' \<and> typed_nval spec > 0 then Some (Itoa (typed_nval spec))
       else map_of (bs_Properties spec) k)) \<and>
     (if 0 < n then ParseInt (map_get props ''n_val'') 32 = Some n
      else n = typed_nval spec \<and> (case ParseInt (map_get props ''n_val'') 32 of Some m \<Rightarrow> m \<le> 0 | None \<Rightarrow> True))"
proof -
  have typed: "is_i32 (typed_nval spec)" using assms(1,2) by (simp add: typed_nval_def)
  have eq: "effectiveBucketProperties spec =
      (let p = (if typed_nval spec > 0 then map_put (bs_Properties spec) ''n_val'' (Itoa (typed_nval spec))
                else bs_Properties spec)
       in (if bs_AllowMulti spec then map_put p ''allow_mult'' ''true'' else p,
           if typed_nval spec > 0 then typed_nval spec
           else case ParseInt (map_get (bs_Properties spec) ''n_val'') 32 of
                  Some m \<Rightarrow> if m > 0 then i32 m else typed_nval spec | None \<Rightarrow> typed_nval spec))"
    by (cases "bs_NVal spec = 0") (simp_all add: effectiveBucketProperties_def typed_nval_def Let_def split: option.split)
  have layered: "map_of props k =
      (if k = ''allow_mult'' \<and> bs_AllowMulti spec then Some ''true''
       else if k = ''n_val'' \<and> typed_nval spec > 0 then Some (Itoa (typed_nval spec))
       else map_of (bs_Properties spec) k)" for k
    using assms(3) unfolding eq Let_def by (auto split: if_splits)
  have sent: "map_get props ''n_val'' =
      (if typed_nval spec > 0 then Itoa (typed_nval spec) else map_get (bs_Properties spec) ''n_val'')"
    using assms(3) unfolding eq Let_def by (auto split: if_splits)
  have n: "n = (if typed_nval spec > 0 then typed_nval spec
      else case ParseInt (map_get (bs_Properties spec) ''n_val'') 32 of
             Some m \<Rightarrow> if m > 0 then i32 m else typed_nval spec | None \<Rightarrow> typed_nval spec)"
    using assms(3) unfolding eq Let_def by simp
  have "ParseInt (map_get props ''n_val'') 32 = Some n" if "0 < n"
    using n typed that by (auto simp: sent ParseInt_Itoa ParseInt_i32 split: option.splits if_splits)
  moreover have "n = typed_nval spec \<and>
      (case ParseInt (map_get props ''n_val'') 32 of Some m \<Rightarrow> m \<le> 0 | None \<Rightarrow> True)" if "\<not> 0 < n"
    using n that by (auto simp: sent ParseInt_i32 split: option.splits if_splits)
  ultimately show ?thesis using layered by simp
qed

definition sample_bspec :: RiakBucketSpec where
  "sample_bspec = \<lparr>bs_ClusterName = ''c'', bs_BucketName = ''b'', bs_BucketType = ''t'', bs_ReplicationFactor = 0,
     bs_AllowMulti = True, bs_NVal = 0, bs_Properties = [(''n_val'', ''5''), (''w'', ''quorum'')]\<rparr>"

subsection \<open>When a bucket becomes ready\<close>

text \<open>The commands after which a bucket type is applied: the successful outcomes of \<open>CreateBucket\<close>.\<close>

definition type_applied :: "string \<Rightarrow> string \<Rightarrow> string \<Rightarrow> string \<Rightarrow> gomap \<Rightarrow> event list \<Rightarrow> bool" where
  "type_applied ns pod t json props es \<longleftrightarrow>
     (\<exists>out r. \<not> riakAdminFailed out \<and>
        es = [riak_cmd ns pod riakContainer [''bucket-type'', ''create'', t, json] (Inr out),
              riak_cmd ns pod riakContainer [''bucket-type'', ''activate'', t] r] \<and>
        (case snd (admin_result [''bucket-type'', ''activate'', t] r) of None \<Rightarrow> True | Some e \<Rightarrow> Contains e ''already'')) \<or>
     (\<exists>r e. snd (admin_result [''bucket-type'', ''create'', t, json] r) = Some e \<and>
        (Contains e ''already_active'' \<or> Contains e ''default_type'') \<and>
        (props = [] \<and> es = [riak_cmd ns pod riakContainer [''bucket-type'', ''create'', t, json] r] \<or>
         (\<exists>out. \<not> riakAdminFailed out \<and>
            es = [riak_cmd ns pod riakContainer [''bucket-type'', ''create'', t, json] r,
                  riak_cmd ns pod riakContainer [''bucket-type'', ''update'', t, json] (Inr out)])))"

text \<open>After a refused create: an active or built-in type is updated when there is something to set.\<close>

lemma wp_refused_type:
  assumes create: "snd (admin_result [''bucket-type'', ''create'', t, json] r) = Some e"
      "trace w1 = trace w @ [riak_cmd ns pod riakContainer [''bucket-type'', ''create'', t, json] r]"
    and ok: "\<And>es w'. type_applied ns pod t json props es \<Longrightarrow> trace w' = trace w @ es \<Longrightarrow> Q None w'"
    and fail: "\<And>e es w'. list_all is_exec es \<Longrightarrow> trace w' = trace w @ es \<Longrightarrow> Q (Some e) w'"
  shows "wp (if Contains e ''already_active'' \<or> Contains e ''default_type''
      then if props = [] then return None
        else do {
          (_, err') \<leftarrow> ExecuteRiakAdmin env ns pod riakContainer [''bucket-type'', ''update'', t, json];
          return err'
        }
      else return (Some e)) Q w1"
proof (cases "(Contains e ''already_active'' \<or> Contains e ''default_type'') \<and> props \<noteq> []")
  case False
  then show ?thesis
    using create by (auto simp: type_applied_def intro!: ok fail)
next
  case True
  have "wp (ExecuteRiakAdmin env ns pod riakContainer [''bucket-type'', ''update'', t, json])
      (\<lambda>a. wp (case a of (uu, err') \<Rightarrow> return err') Q) w1"
  proof (rule wp_admin_cases, goal_cases)
    case (1 out2 w2)
    with create True show ?case by (auto simp: cmd_event_def type_applied_def intro!: ok)
  next
    case (2 r2 out2 e2 w2)
    with create show ?case by (auto simp: cmd_event_def intro!: fail)
  qed
  with True show ?thesis by simp
qed

text \<open>After a successful create: the type is activated.\<close>

lemma wp_activate_type:
  assumes create: "\<not> riakAdminFailed out"
      "trace w1 = trace w @ [riak_cmd ns pod riakContainer [''bucket-type'', ''create'', t, json] (Inr out)]"
    and ok: "\<And>es w'. type_applied ns pod t json props es \<Longrightarrow> trace w' = trace w @ es \<Longrightarrow> Q None w'"
    and fail: "\<And>e es w'. list_all is_exec es \<Longrightarrow> trace w' = trace w @ es \<Longrightarrow> Q (Some e) w'"
    and cont: "\<And>o2. cont (o2, None) = return None"
      "\<And>o2 e. cont (o2, Some e) = return (if Contains e ''already'' then None else Some e)"
  shows "wp (ExecuteRiakAdmin env ns pod riakContainer [''bucket-type'', ''activate'', t]) (\<lambda>a. wp (cont a) Q) w1"
proof (rule wp_admin_cases, goal_cases)
  case (1 out2 w2)
  with create show ?case by (auto simp: cont cmd_event_def type_applied_def admin_result_def intro!: ok)
next
  case (2 r out2 e w2)
  with create show ?case by (auto simp: cont cmd_event_def type_applied_def intro!: ok fail)
qed

lemma wp_CreateBucketType:
  assumes "\<And>m ms json es w'. clt_Members (cl_Status cluster) = m # ms \<Longrightarrow>
      json_Marshal env (JObject [(''props'', JObject (bucketProps env props))]) = Inr json \<Longrightarrow>
      type_applied (cl_Namespace cluster) (nm_Pod m) t json props es \<Longrightarrow> trace w' = trace w @ es \<Longrightarrow> Q None w'"
    and "\<And>e es w'. list_all is_exec es \<Longrightarrow> trace w' = trace w @ es \<Longrightarrow> Q (Some e) w'"
  shows "wp (CreateBucketType env cluster t props) Q w"
proof (cases "clt_Members (cl_Status cluster)")
  case Nil
  with assms(2)[of "[]"] show ?thesis by (simp add: CreateBucketType_def on_first_member_def)
next
  case (Cons m ms)
  show ?thesis
  proof (cases "json_Marshal env (JObject [(''props'', JObject (bucketProps env props))])")
    case (Inl e)
    with assms(2)[of "[]"] Cons show ?thesis by (simp add: CreateBucketType_def on_first_member_def CreateBucket_def)
  next
    case (Inr json)
    note ok = assms(1)[OF Cons Inr]
    have props: "bucketProps env props = [] \<longleftrightarrow> props = []" by (simp add: bucketProps_def)
    show ?thesis
      unfolding CreateBucketType_def on_first_member_def Cons list.case CreateBucket_def Inr sum.case wp_bind
    proof (rule wp_admin_cases, goal_cases)
      case (1 out w1)
      show ?case
        unfolding prod.case option.case wp_bind
        by (rule wp_activate_type[OF 1(1) _ ok assms(2)]) (use 1 in \<open>auto simp: cmd_event_def\<close>)
    next
      case (2 r out e w1)
      then have create: "snd (admin_result [''bucket-type'', ''create'', t, json] r) = Some e"
        "trace w1 = trace w @ [riak_cmd (cl_Namespace cluster) (nm_Pod m) riakContainer [''bucket-type'', ''create'', t, json] r]"
        by (simp_all add: cmd_event_def)
      show ?case
        unfolding prod.case option.case props by (rule wp_refused_type[OF create ok assms(2)])
    qed
  qed
qed

text \<open>An event that may follow the events \<open>pre\<close>: the status \<^verbatim>\<open>Ready\<close> only right after its bucket type was applied.\<close>

definition ready_ok :: "'w env \<Rightarrow> RiakBucketSpec \<Rightarrow> string \<Rightarrow> event list \<Rightarrow> event \<Rightarrow> bool" where
  "ready_ok env spec ns pre e = (case e of
     BucketStatus b \<Rightarrow> bt_Phase (b_Status b) = BucketPhaseReady \<longrightarrow>
       (\<exists>pre' cluster m ms json cmds.
          pre = pre' @ GetCluster ns (bs_ClusterName spec) (Inr cluster) # cmds \<and>
          clt_Phase (cl_Status cluster) = PhaseReady \<and> clt_Members (cl_Status cluster) = m # ms \<and>
          json_Marshal env (JObject [(''props'', JObject (bucketProps env (bt_Properties (b_Status b))))]) = Inr json \<and>
          type_applied (cl_Namespace cluster) (nm_Pod m) (bt_BucketType (b_Status b)) json (bt_Properties (b_Status b)) cmds \<and>
          (bt_Properties (b_Status b), bt_NVal (b_Status b)) = effectiveBucketProperties spec \<and>
          bt_BucketType (b_Status b) = bucketTypeOf spec)
   | _ \<Rightarrow> True)"

lemma emits_failBucket:
  "(\<And>b. bt_Phase (b_Status b) = BucketPhaseFailed \<Longrightarrow> P (BucketStatus b)) \<Longrightarrow> emits P (failBucket env bucket r msg)"
  unfolding failBucket_def updateBucketStatus_def Let_def by (auto intro!: emits_rules)

lemma emits_notReady:
  "P (BucketStatus (bucket\<lparr>b_Status := (b_Status bucket)\<lparr>bt_Conditions := conds\<rparr>\<rparr>)) \<Longrightarrow>
   emits P (if changed then updateBucketStatus env (bucket\<lparr>b_Status := (b_Status bucket)\<lparr>bt_Conditions := conds\<rparr>\<rparr>)
     else return (Inr bucket))"
  unfolding updateBucketStatus_def by (auto intro!: emits_rules)

lemma Failed_not_Ready [simp]: "BucketPhaseFailed \<noteq> BucketPhaseReady" "BucketPhaseReady \<noteq> BucketPhaseFailed"
  "BucketPhaseCreating \<noteq> BucketPhaseReady" "BucketPhaseReady \<noteq> BucketPhaseCreating"
  by (simp_all add: BucketPhaseFailed_def BucketPhaseReady_def BucketPhaseCreating_def)

lemma ready_ok_other: "(\<And>b. e = BucketStatus b \<Longrightarrow> bt_Phase (b_Status b) \<noteq> BucketPhaseReady) \<Longrightarrow> ready_ok env spec ns pre e"
  by (auto simp: ready_ok_def split: event.split)

text \<open>Everything but the status \<^verbatim>\<open>Ready\<close> may happen at any time.\<close>

fun unready :: "event \<Rightarrow> bool" where
  "unready (BucketStatus b) = (bt_Phase (b_Status b) \<noteq> BucketPhaseReady)"
| "unready _ = True"

interpretation bucket: justification "ready_ok env spec ns" unready for env spec ns
  by unfold_locales (auto intro!: ready_ok_other)

lemma type_applied_exec: "type_applied ns pod t json props es \<Longrightarrow> list_all is_exec es"
  by (auto simp: type_applied_def)

lemma list_all_exec_ready_ok: "list_all is_exec es \<Longrightarrow> list_all (\<lambda>e. \<forall>pre. ready_ok env spec ns pre e) es"
  by (induction es) (auto simp: ready_ok_def split: event.split)

lemma readyBucketStatus_simps:
  "bt_Properties (readyBucketStatus bucket cluster now) = fst (effectiveBucketProperties (b_Spec bucket))"
  "bt_NVal (readyBucketStatus bucket cluster now) = snd (effectiveBucketProperties (b_Spec bucket))"
  "bt_BucketType (readyBucketStatus bucket cluster now) = bucketTypeOf (b_Spec bucket)"
  by (simp_all add: readyBucketStatus_def split: prod.split)

lemma applied_ready:
  fixes bucket :: RiakBucket and cluster :: RiakCluster
  defines "props \<equiv> fst (effectiveBucketProperties (b_Spec bucket))"
  assumes w: "reached w0 (justified (ready_ok env (b_Spec bucket) ns)) w"
    and pre: "trace w = trace w0 @ pre @ [GetCluster ns (bs_ClusterName (b_Spec bucket)) (Inr cluster)]"
    and ready: "clt_Phase (cl_Status cluster) = PhaseReady" and m: "clt_Members (cl_Status cluster) = m # ms"
    and json: "json_Marshal env (JObject [(''props'', JObject (bucketProps env props))]) = Inr json"
    and es: "type_applied (cl_Namespace cluster) (nm_Pod m) (bucketTypeOf (b_Spec bucket)) json props es"
    and t: "trace w2 = trace w @ es @
      [BucketStatus (bucket\<lparr>b_Status := (readyBucketStatus bucket cluster now)\<lparr>bt_Conditions := conds\<rparr>\<rparr>)]"
  shows "reached w0 (justified (ready_ok env (b_Spec bucket) ns)) w2"
proof -
  let ?J = "ready_ok env (b_Spec bucket) ns"
  let ?b = "bucket\<lparr>b_Status := (readyBucketStatus bucket cluster now)\<lparr>bt_Conditions := conds\<rparr>\<rparr>"
  let ?pre = "pre @ GetCluster ns (bs_ClusterName (b_Spec bucket)) (Inr cluster) # es"
  have "reached w0 (justified ?J) (w\<lparr>trace := trace w @ es\<rparr>)"
    by (rule reached_more[OF w _ list_all_exec_ready_ok[OF type_applied_exec[OF es]]]) simp
  then have "justified ?J ?pre" by (auto simp: reached_def pre)
  moreover have "?J ?pre (BucketStatus ?b)"
    using m json es ready unfolding ready_ok_def props_def
    by (simp add: readyBucketStatus_simps)
      (intro impI exI[of _ pre] exI[of _ cluster] exI[of _ m] exI[of _ ms] exI[of _ es], simp)
  ultimately have "justified ?J (?pre @ [BucketStatus ?b])" by (simp only: justified_snoc simp_thms)
  then show ?thesis using t pre by (auto simp: reached_def)
qed

lemma wp_applyBucket:
  assumes w: "reached w0 (justified (ready_ok env (b_Spec bucket) ns)) w"
    and pre: "trace w = trace w0 @ pre @ [GetCluster ns (bs_ClusterName (b_Spec bucket)) (Inr cluster)]"
    and ready: "clt_Phase (cl_Status cluster) = PhaseReady"
  shows "wp (applyBucket env bucket cluster) (\<lambda>_. reached w0 (justified (ready_ok env (b_Spec bucket) ns))) w"
  unfolding applyBucket_def Let_def case_prod_beta wp_bind
proof (rule wp_CreateBucketType, goal_cases)
  case (1 m ms json es w1)
  show ?case
    unfolding option.case wp_bind updateBucketStatus_def wp_return
    by (intro wp_Now_any wp_setCondition wp_effect_any)
      (rule applied_ready[OF w pre ready 1(1-3)], simp add: 1(4))
next
  case (2 e es w1)
  have "reached w0 (justified (ready_ok env (b_Spec bucket) ns)) w1"
    by (rule reached_more[OF w 2(2)]) (rule list_all_exec_ready_ok[OF 2(1)])
  then show ?case
    unfolding option.case wp_bind wp_return by (rule bucket.calm_run[rotated]) (rule emits_failBucket, simp)
qed

lemma wp_bucketOnCluster:
  assumes w: "reached w0 (justified (ready_ok env (b_Spec bucket) (b_Namespace bucket))) w"
    and phase: "bt_Phase (b_Status bucket) \<noteq> BucketPhaseReady"
  shows "wp (bucketOnCluster env bucket)
    (\<lambda>_. reached w0 (justified (ready_ok env (b_Spec bucket) (b_Namespace bucket)))) w"
proof -
  let ?J = "ready_ok env (b_Spec bucket) (b_Namespace bucket)"
  let ?get = "GetCluster (b_Namespace bucket) (bs_ClusterName (b_Spec bucket))"
  have got: "reached w0 (justified ?J) w1" if "trace w1 = trace w @ [?get g]" for w1 g
    by (rule reached_more[OF w that]) (simp add: ready_ok_def)
  have silent: "wp m (\<lambda>_. reached w0 (justified ?J)) w1" if "reached w0 (justified ?J) w1"
      "emits (\<lambda>e. \<forall>pre. ?J pre e) m" for m :: "('a, 'b) action" and w1
    by (rule wp_justified_emits[OF that(2) _ that(1)]) simp
  from w obtain pre where pre: "trace w = trace w0 @ pre" by (auto simp: reached_def)
  show ?thesis
    unfolding bucketOnCluster_def Let_def wp_bind
  proof (rule wp_effect_any, goal_cases)
    case (1 g w1)
    note got1 = got[OF 1]
    show ?case
    proof (cases g)
      case (Inl err)
      show ?thesis
        unfolding Inl sum.case
        by (rule silent[OF got1]) (auto intro!: emits_rules emits_failBucket ready_ok_other)
    next
      case (Inr cluster)
      show ?thesis
      proof (cases "clt_Phase (cl_Status cluster) = PhaseReady")
        case True
        have "wp (applyBucket env bucket cluster) (\<lambda>_. reached w0 (justified ?J)) w1"
          by (rule wp_applyBucket[OF got1 _ True, of pre]) (simp add: 1 pre Inr)
        then show ?thesis by (simp add: Inr True)
      next
        case False
        show ?thesis
          unfolding Inr sum.case if_P[OF False] wp_bind[symmetric]
          by (rule silent[OF got1]) (auto intro!: emits_rules emits_notReady ready_ok_other simp: phase)
      qed
    qed
  qed
qed


text \<open>
  The API server stores the specification and status it is given: what a write of a bucket returns differs
  from what was written in metadata other than the namespace at most.
\<close>

definition bucket_writes :: "'w env \<Rightarrow> bool" where
  "bucket_writes env \<longleftrightarrow>
     (\<forall>b o1 b' o2. update_bucket env b o1 = (Inr b', o2) \<or> status_bucket env b o1 = (Inr b', o2) \<longrightarrow>
        b_Spec b' = b_Spec b \<and> b_Status b' = b_Status b \<and> b_Namespace b' = b_Namespace b)"

text \<open>The finalizer helpers of \<^verbatim>\<open>controllerutil\<close> change the list of finalizers only.\<close>

definition finalizer_laws :: "'w env \<Rightarrow> bool" where
  "finalizer_laws env \<longleftrightarrow> (\<forall>m f.
     ContainsFinalizer env (AddFinalizer env m f) f \<and> \<not> ContainsFinalizer env (RemoveFinalizer env m f) f \<and>
     (\<exists>fs. AddFinalizer env m f = m\<lparr>m_Finalizers := fs\<rparr>) \<and> (\<exists>fs. RemoveFinalizer env m f = m\<lparr>m_Finalizers := fs\<rparr>))"

definition same_bucket :: "RiakBucket \<Rightarrow> RiakBucket \<Rightarrow> bool" where
  "same_bucket b b' \<longleftrightarrow> b_Spec b' = b_Spec b \<and> b_Status b' = b_Status b \<and> b_Namespace b' = b_Namespace b"

lemma wp_ensureBucketFinalizer:
  assumes "bucket_writes env" and "finalizer_laws env"
    and Q: "\<And>r w'. \<exists>es. trace w' = trace w @ es \<and> list_all (\<lambda>e. \<exists>ns n. e = Update KBucket ns n) es \<Longrightarrow>
      (\<And>b. r = Inr b \<Longrightarrow> same_bucket bucket b) \<Longrightarrow> Q r w'"
  shows "wp (ensureBucketFinalizer env bucket) Q w"
proof (cases "ContainsFinalizer env (b_Meta bucket) riakBucketFinalizerName")
  case True
  have "Q (Inr bucket) w" by (rule Q) (auto simp: same_bucket_def)
  with True show ?thesis by (simp add: ensureBucketFinalizer_def)
next
  case False
  let ?b = "bucket\<lparr>b_Meta := AddFinalizer env (b_Meta bucket) riakBucketFinalizerName\<rparr>"
  obtain r o' where u: "update_bucket env ?b (outside w) = (r, o')" by fastforce
  obtain fs where fs: "AddFinalizer env (b_Meta bucket) riakBucketFinalizerName = (b_Meta bucket)\<lparr>m_Finalizers := fs\<rparr>"
    using assms(2) unfolding finalizer_laws_def by blast
  have "same_bucket bucket b" if "r = Inr b" for b
    using assms(1) u that unfolding bucket_writes_def same_bucket_def by (auto simp: fs)
  then show ?thesis
    using False Q[of _ r] by (simp add: ensureBucketFinalizer_def wp_effect u)
qed

lemma wp_initBucketStatus:
  assumes "bucket_writes env" and "same_bucket bucket b" and "bt_Phase (b_Status bucket) \<noteq> BucketPhaseReady"
    and Q: "\<And>r w'. \<exists>es. trace w' = trace w @ es \<and>
        list_all (\<lambda>e. \<exists>b. e = BucketStatus b \<and> bt_Phase (b_Status b) \<noteq> BucketPhaseReady) es \<Longrightarrow>
      (\<And>b'. r = Inr b' \<Longrightarrow> b_Spec b' = b_Spec bucket \<and> b_Namespace b' = b_Namespace bucket \<and>
        bt_Phase (b_Status b') \<noteq> BucketPhaseReady) \<Longrightarrow> Q r w'"
  shows "wp (initBucketStatus env b) Q w"
proof (cases "bt_Phase (b_Status b) = []")
  case False
  have "Q (Inr b) w" by (rule Q) (use assms(2,3) in \<open>auto simp: same_bucket_def\<close>)
  with False show ?thesis by (simp add: initBucketStatus_def)
next
  case True
  let ?b = "b\<lparr>b_Status := (b_Status b)\<lparr>bt_Phase := BucketPhaseCreating\<rparr>\<rparr>"
  obtain r o' where u: "status_bucket env ?b (outside w) = (r, o')" by fastforce
  have "b_Spec b' = b_Spec bucket \<and> b_Namespace b' = b_Namespace bucket \<and> bt_Phase (b_Status b') \<noteq> BucketPhaseReady"
    if "r = Inr b'" for b'
    using assms(1,2) u that unfolding bucket_writes_def same_bucket_def by fastforce
  then show ?thesis
    using True Q[of _ r] by (simp add: initBucketStatus_def updateBucketStatus_def wp_effect u)
qed

lemma wp_initialised_bucket:
  assumes "bucket_writes env" and phase: "bt_Phase (b_Status bucket) \<noteq> BucketPhaseReady" and same: "same_bucket bucket bucket1"
    and w: "reached w0 (justified (ready_ok env (b_Spec bucket) (b_Namespace bucket))) w"
  shows "wp (initBucketStatus env bucket1) (\<lambda>s. wp (case s of
        Inl err \<Rightarrow> return (no_requeue, Some (api_msg err))
      | Inr bucket2 \<Rightarrow> bucketOnCluster env bucket2)
      (\<lambda>_. reached w0 (justified (ready_ok env (b_Spec bucket) (b_Namespace bucket))))) w"
proof (rule wp_initBucketStatus[OF assms(1) same phase], goal_cases)
  case (1 s w1)
  then obtain es where t: "trace w1 = trace w @ es"
      "list_all (\<lambda>e. \<exists>b. e = BucketStatus b \<and> bt_Phase (b_Status b) \<noteq> BucketPhaseReady) es" by blast
  have w1: "reached w0 (justified (ready_ok env (b_Spec bucket) (b_Namespace bucket))) w1"
    by (rule bucket.calm_more[OF w t(1)]) (use t(2) in \<open>auto simp: list_all_iff\<close>)
  show ?case
  proof (cases s)
    case (Inr bucket2)
    with 1(2) have "b_Spec bucket2 = b_Spec bucket" "b_Namespace bucket2 = b_Namespace bucket"
        "bt_Phase (b_Status bucket2) \<noteq> BucketPhaseReady" by auto
    with w1 wp_bucketOnCluster[of w0 env bucket2 w1] show ?thesis by (simp add: Inr)
  qed (use w1 in simp)
qed

lemma wp_Bucket_Reconcile:
  assumes laws: "bucket_writes env" "finalizer_laws env"
    and got: "get_bucket env ns name (outside w) = (Inr bucket, o1)" and phase: "bt_Phase (b_Status bucket) \<noteq> BucketPhaseReady"
  shows "wp (Bucket_Reconcile env ns name) (\<lambda>_. reached w (justified (ready_ok env (b_Spec bucket) (b_Namespace bucket)))) w"
proof -
  let ?J = "ready_ok env (b_Spec bucket) (b_Namespace bucket)"
  let ?w1 = "w\<lparr>outside := o1, trace := trace w @ [Get KBucket ns name]\<rparr>"
  have w1: "reached w (justified ?J) ?w1"
    by (rule bucket.calm_more[where w = w and es = "[Get KBucket ns name]"]) simp_all
  have del: "wp (deleteBucket env bucket) (\<lambda>_. reached w (justified ?J)) ?w1"
    by (rule bucket.calm_run[OF _ w1]) (auto simp: deleteBucket_def intro!: emits_rules)
  have rest: "wp (case f of
        Inl err \<Rightarrow> return (no_requeue, Some (api_msg err))
      | Inr bucket1 \<Rightarrow> do {
          s \<leftarrow> initBucketStatus env bucket1;
          (case s of
             Inl err \<Rightarrow> return (no_requeue, Some (api_msg err))
           | Inr bucket2 \<Rightarrow> bucketOnCluster env bucket2)
        }) (\<lambda>_. reached w (justified ?J)) w2"
    if es: "\<exists>es. trace w2 = trace ?w1 @ es \<and> list_all (\<lambda>e. \<exists>ns n. e = Update KBucket ns n) es"
      and f: "\<And>b. f = Inr b \<Longrightarrow> same_bucket bucket b" for f w2
  proof -
    from es obtain es where t: "trace w2 = trace ?w1 @ es" "list_all (\<lambda>e. \<exists>ns n. e = Update KBucket ns n) es" by blast
    have w2: "reached w (justified ?J) w2"
      by (rule bucket.calm_more[OF w1 t(1)]) (use t(2) in \<open>auto simp: list_all_iff\<close>)
    with f wp_initialised_bucket[OF laws(1) phase _ w2] show ?thesis by (cases f) simp_all
  qed
  show ?thesis
    unfolding Bucket_Reconcile_def wp_bind
    by (simp add: wp_effect got wp_if del) (intro impI wp_ensureBucketFinalizer[OF laws] rest)
qed



definition ready_cluster :: RiakCluster where
  "ready_cluster = (sample_cluster 1)\<lparr>cl_Status := sample_status\<lparr>clt_Phase := PhaseReady,
     clt_Members := [sample_member ''c-0'']\<rparr>\<rparr>"

definition sample_bucket :: RiakBucket where
  "sample_bucket = \<lparr>b_Meta = new_meta ''b'' ''ns'', b_Spec = sample_bspec, b_Status = \<lparr>bt_Phase = [], bt_Created = False,
     bt_LastUpdateTime = None, bt_Error = [], bt_BucketName = [], bt_BucketType = [], bt_ReplicationFactor = 0,
     bt_NVal = 0, bt_Properties = [], bt_Nodes = [], bt_Conditions = []\<rparr>\<rparr>"

definition bucket_env :: "unit env" where
  "bucket_env = sample_env\<lparr>get_bucket := (\<lambda>ns n w. (Inr sample_bucket, w)),
     get_cluster := (\<lambda>ns n w. (Inr ready_cluster, w))\<rparr>"

lemma meta_finalizers [simp]: "\<exists>fs. m = m\<lparr>m_Finalizers := fs\<rparr>" for m :: ObjectMeta
  by (rule exI[of _ "m_Finalizers m"]) simp

lemma bucket_env_laws: "bucket_writes bucket_env" "finalizer_laws bucket_env"
  by (auto simp: bucket_writes_def finalizer_laws_def bucket_env_def sample_env_def)

lemma bucket_run:
  "case rev (emitted (Bucket_Reconcile bucket_env ''ns'' ''b'') (start ())) of
     BucketStatus b # _ \<Rightarrow> bt_Phase (b_Status b) = BucketPhaseReady | _ \<Rightarrow> False"
  by code_simp


subsection \<open>Nothing is given up silently\<close>

definition ended_ready :: "'w world \<Rightarrow> outcome \<Rightarrow> 'w world \<Rightarrow> bool" where
  "ended_ready w r w' \<longleftrightarrow> (snd r = None \<and> rq_RequeueAfter (fst r) = 0 \<longrightarrow>
     (\<exists>b es. trace w' = trace w @ es @ [BucketStatus b] \<and> bt_Phase (b_Status b) = BucketPhaseReady \<and> bt_Created (b_Status b)))"

lemma ended_retry [simp]: "ended_ready w (requeue (10 * Second), None) w'" "ended_ready w (requeue (5 * Second), None) w'"
    "ended_ready w (r, Some e) w'"
  by (simp_all add: ended_ready_def requeue_def Second_def)

lemma wp_applyBucket_ended:
  assumes "\<exists>es. trace w = trace w0 @ es"
  shows "wp (applyBucket env bucket cluster) (ended_ready w0) w"
proof -
  have phase: "bt_Phase (readyBucketStatus bucket cluster now) = BucketPhaseReady"
      "bt_Created (readyBucketStatus bucket cluster now)" for now
    by (simp_all add: readyBucketStatus_def split: prod.split)
  have written: "ended_ready w0 (no_requeue, None) w2"
    if "trace w2 = trace w @ es @ [BucketStatus (bucket\<lparr>b_Status := (readyBucketStatus bucket cluster now)\<lparr>bt_Conditions := c\<rparr>\<rparr>)]"
    for es w2 now c
    using assms that by (auto simp: ended_ready_def phase)
  show ?thesis
    unfolding applyBucket_def Let_def case_prod_beta wp_bind
  proof (rule wp_CreateBucketType, goal_cases)
    case (1 m ms json es w1)
    show ?case
      unfolding option.case wp_bind updateBucketStatus_def wp_return
      by (intro wp_Now_any wp_setCondition wp_effect_any) (auto split: sum.split intro!: written simp: 1(4))
  next
    case (2 e es w1)
    show ?case by (simp add: wp_all)
  qed
qed

lemma wp_bucketOnCluster_ended:
  assumes "\<exists>es. trace w = trace w0 @ es"
  shows "wp (bucketOnCluster env bucket) (ended_ready w0) w"
proof -
  have "wp (applyBucket env bucket cluster) (ended_ready w0) w1" if "trace w1 = trace w @ [e]" for cluster w1 e
    by (rule wp_applyBucket_ended) (use assms that in auto)
  then show ?thesis
    unfolding bucketOnCluster_def Let_def wp_bind
    by (intro wp_effect_any) (auto simp: wp_all case_prod_beta split: sum.split)
qed

text \<open>
  C24: a reconcile of a bucket ends without an error and without a retry only when there is nothing left to
  do: the bucket does not exist, it is being deleted, or its \<^verbatim>\<open>Ready\<close> status was the last thing written.
  Every other outcome is an error, which the controller manager retries, or a requeue.
\<close>

theorem Bucket_Reconcile_retries:
  assumes "run_state (Bucket_Reconcile env ns name) w = ((res, None), w')" and "rq_RequeueAfter res = 0"
  shows "(\<exists>m o1. get_bucket env ns name (outside w) = (Inl (NotFound m), o1)) \<or>
    (\<exists>bucket o1. get_bucket env ns name (outside w) = (Inr bucket, o1) \<and> m_DeletionTimestamp (b_Meta bucket) \<noteq> None) \<or>
    (\<exists>b es. trace w' = trace w @ es @ [BucketStatus b] \<and> bt_Phase (b_Status b) = BucketPhaseReady \<and> bt_Created (b_Status b))"
proof -
  obtain g o1 where g: "get_bucket env ns name (outside w) = (g, o1)" by fastforce
  show ?thesis
  proof (cases g)
    case (Inl err)
    have "IgnoreNotFound err = None"
      using assms(1) by (simp add: Bucket_Reconcile_def effect_def g Inl)
    then show ?thesis using g Inl by (cases err) (auto simp: IgnoreNotFound_def)
  next
    case (Inr bucket)
    show ?thesis
    proof (cases "m_DeletionTimestamp (b_Meta bucket)")
      case None
      let ?w1 = "w\<lparr>outside := o1, trace := trace w @ [Get KBucket ns name]\<rparr>"
      have onCluster: "wp (bucketOnCluster env b) (ended_ready w) w2" if "\<exists>es. trace w2 = trace ?w1 @ es" for b w2
        by (rule wp_bucketOnCluster_ended) (use that in auto)
      have init: "wp (initBucketStatus env b) (\<lambda>s. wp (case s of
             Inl err \<Rightarrow> return (no_requeue, Some (api_msg err))
           | Inr bucket2 \<Rightarrow> bucketOnCluster env bucket2) (ended_ready w)) w2" if "\<exists>es. trace w2 = trace ?w1 @ es" for b w2
        using that unfolding initBucketStatus_def updateBucketStatus_def
        by (auto simp: wp_simps split: sum.split prod.split intro!: onCluster)
      have "wp (Bucket_Reconcile env ns name) (ended_ready w) w"
        unfolding Bucket_Reconcile_def ensureBucketFinalizer_def
        using g Inr None by (auto simp: wp_simps split: sum.split prod.split intro!: init)
      from wp_run[OF assms(1) this] assms(2) show ?thesis by (auto simp: ended_ready_def)
    qed (use g Inr in auto)
  qed
qed

theorem Bucket_Reconcile_retries_witness:
  "\<exists>w' b es. run_state (Bucket_Reconcile bucket_env ''ns'' ''b'') (start ()) = ((no_requeue, None), w') \<and>
     trace w' = es @ [BucketStatus b] \<and> bt_Phase (b_Status b) = BucketPhaseReady \<and> bt_Created (b_Status b)"
proof -
  have "fst (run_state (Bucket_Reconcile bucket_env ''ns'' ''b'') (start ())) = (no_requeue, None)" by code_simp
  then obtain w' where run: "run_state (Bucket_Reconcile bucket_env ''ns'' ''b'') (start ()) = ((no_requeue, None), w')"
    by (metis prod.collapse)
  have "m_DeletionTimestamp (b_Meta sample_bucket) = None" by (simp add: sample_bucket_def new_meta_def)
  with Bucket_Reconcile_retries[OF run] run show ?thesis
    by (auto simp: no_requeue_def bucket_env_def)
qed

end
