(* ===== verification/User_Controller.thy ===== *)
theory User_Controller
  imports Bucket_Controller
begin

text \<open>
  The RiakUser controller (\<^verbatim>\<open>internal/controller/riakuser_controller.go\<close>): one reconcile of a user
  from the certificate to the grants, the status it records, and the cleanup on deletion.
\<close>

definition riakUserFinalizerName :: string where
  "riakUserFinalizerName = ''riak.openriak.io/user-finalizer''"

definition userDeleteGracePeriod :: duration where "userDeleteGracePeriod = 2 * Minute"

definition updateUserStatus :: "'w env \<Rightarrow> RiakUser \<Rightarrow> ('w, api_error + RiakUser) action" where
  "updateUserStatus env user = effect (\<lambda>_. UserStatus user) (status_user env user)"

text \<open>\<open>None\<close> means that the finalizer may go.\<close>

definition deleteRiakUser :: "'w env \<Rightarrow> RiakUser \<Rightarrow> ('w, error option) action" where
  "deleteRiakUser env user =
     (if \<not> ut_Created (u_Status user) then return None
      else do {
        let ns = u_Namespace user;
        let name = us_ClusterName (u_Spec user);
        g \<leftarrow> effect (GetCluster ns name) (get_cluster env ns name);
        (case g of
           Inl err \<Rightarrow> return (IgnoreNotFound err)
         | Inr cluster \<Rightarrow>
             if m_DeletionTimestamp (cl_Meta cluster) \<noteq> None \<or> clt_Phase (cl_Status cluster) \<noteq> PhaseReady \<or>
                clt_Members (cl_Status cluster) = []
             then return None
             else do {
               err \<leftarrow> Manager_DeleteUser env cluster (us_Username (u_Spec user));
               (case err of
                  None \<Rightarrow> return None
                | Some e \<Rightarrow> do {
                    now \<leftarrow> Now env;
                    return (if now - (case m_DeletionTimestamp (u_Meta user) of Some t \<Rightarrow> t | None \<Rightarrow> 0) >
                        userDeleteGracePeriod
                      then None else Some e)
                  })
             })
      })"

definition equalGrants :: "Grant list \<Rightarrow> Grant list \<Rightarrow> bool" where
  "equalGrants a b \<longleftrightarrow> length a = length b \<and> list_all2 (\<lambda>x y. x = y) a b"

definition failUser :: "'w env \<Rightarrow> RiakUser \<Rightarrow> string \<Rightarrow> string \<Rightarrow> ('w, unit) action" where
  "failUser env user reason message = do {
     let st = u_Status user;
     let same = (ut_Phase st = UserPhaseFailed \<and> ut_Error st = message);
     (conds, changed) \<leftarrow> setCondition env (ut_Conditions st) conditionReady False
       (m_Generation (u_Meta user)) reason message;
     let st' = st\<lparr>ut_Phase := UserPhaseFailed, ut_Error := message, ut_Conditions := conds\<rparr>;
     (if same \<and> \<not> changed then return ()
      else do {
        now \<leftarrow> Now env;
        _ \<leftarrow> updateUserStatus env (user\<lparr>u_Status := st'\<lparr>ut_LastUpdateTime := Some now\<rparr>\<rparr>);
        return ()
      })
   }"

definition markUserReady ::
  "'w env \<Rightarrow> RiakUser \<Rightarrow> string \<Rightarrow> bool \<Rightarrow> string \<Rightarrow> ('w, error option) action" where
  "markUserReady env user clusterName certReady certReason = do {
     let st = u_Status user;
     let spec = u_Spec user;
     let unchanged = (ut_Phase st = UserPhaseReady \<and> ut_Created st \<and> ut_Error st = [] \<and>
       ut_Username st = us_Username spec \<and> ut_ClusterName st = clusterName \<and>
       ut_CertificateReady st = certReady \<and> ut_CertificateError st = certReason \<and>
       equalGrants (ut_Grants st) (us_Grants spec));
     (conds1, certChanged) \<leftarrow> setCondition env (ut_Conditions st) conditionCertificateReady certReady
       (m_Generation (u_Meta user))
       (if certReady then ''CertificateIssued'' else ''CertificatePending'')
       (if certReady then ''the client certificate has been issued'' else certReason);
     (conds2, readyChanged) \<leftarrow> setCondition env conds1 conditionReady True (m_Generation (u_Meta user))
       ''UserProvisioned''
       (''Riak user '' @ Quote (us_Username spec) @ '' is provisioned on cluster '' @ clusterName);
     let st' = st\<lparr>ut_Phase := UserPhaseReady, ut_Created := True, ut_Error := [], ut_Username := us_Username spec,
       ut_ClusterName := clusterName, ut_Grants := us_Grants spec, ut_CertificateReady := certReady,
       ut_CertificateError := certReason, ut_Conditions := conds2\<rparr>;
     (if unchanged \<and> \<not> certChanged \<and> \<not> readyChanged then return None
      else do {
        now \<leftarrow> Now env;
        r \<leftarrow> updateUserStatus env (user\<lparr>u_Status := st'\<lparr>ut_LastUpdateTime := Some now\<rparr>\<rparr>);
        return (case r of Inl e \<Rightarrow> Some (api_msg e) | Inr _ \<Rightarrow> None)
      })
   }"

text \<open>The certificate reference is present on every path that gets here.\<close>

definition reconcileUserCertificate :: "'w env \<Rightarrow> RiakUser \<Rightarrow> UserCertificateRef \<Rightarrow> ('w, error option) action" where
  "reconcileUserCertificate env user certRef =
     (case ucr_IssuerRef certRef of
        None \<Rightarrow> return None
      | Some issuer \<Rightarrow>
          (case SetControllerReferenceU env (u_Meta user)
                  (buildUserCertificate (u_Name user) (u_Namespace user) (us_Username (u_Spec user)) certRef issuer) of
             Inl e \<Rightarrow> return (Some (''setting controller reference on user certificate: '' @ e))
           | Inr cert \<Rightarrow> do {
               let name = userCertName (u_Name user);
               g \<leftarrow> effect (\<lambda>_. Get KCertificate (u_Namespace user) name) (get_cert env (u_Namespace user) name);
               (case g of
                  Inl err \<Rightarrow>
                    if IsNotFound err then do {
                      r \<leftarrow> effect (\<lambda>_. Create KCertificate (u_Namespace user) name) (create_cert env cert);
                      return (map_option api_msg r)
                    }
                    else return (Some (api_msg err))
                | Inr _ \<Rightarrow> return None)
             }))"

definition userCertificateReadiness ::
  "'w env \<Rightarrow> RiakUser \<Rightarrow> UserCertificateRef \<Rightarrow> RiakCluster \<Rightarrow> ('w, bool \<times> string \<times> time) action" where
  "userCertificateReadiness env user certRef cluster =
     (case ucr_IssuerRef certRef of
        None \<Rightarrow> do {
          now \<leftarrow> Now env;
          externalCertificateReadiness env user certRef cluster now
        }
      | Some _ \<Rightarrow> do {
          (ready, reason) \<leftarrow> fetchCertificateReadiness env (userCertName (u_Name user)) (u_Namespace user);
          return (ready, reason, 0)
        })"

definition certRequeue :: "'w env \<Rightarrow> UserCertificateRef \<Rightarrow> bool \<Rightarrow> time \<Rightarrow> ('w, Result) action" where
  "certRequeue env certRef ready notAfter =
     (if \<not> ready then return (requeue (30 * Second))
      else if ucr_IssuerRef certRef \<noteq> None then return no_requeue
      else do {
        now \<leftarrow> Now env;
        let until = notAfter - now;
        return (requeue (if until > 0 \<and> until < externalCertRecheck then until else externalCertRecheck))
      })"

text \<open>
  The Riak side of a user, once security is on: the user, its certificate source, its grants,
  then the status. Any failure is recorded on the user and retried.
\<close>

definition provisionUser ::
  "'w env \<Rightarrow> RiakUser \<Rightarrow> UserCertificateRef \<Rightarrow> RiakCluster \<Rightarrow> ('w, outcome) action" where
  "provisionUser env user certRef cluster = do {
     let username = us_Username (u_Spec user);
     e1 \<leftarrow> Manager_CreateUserForCert env cluster username;
     (case e1 of
        Some e \<Rightarrow> do {
          _ \<leftarrow> failUser env user ''CreateUserFailed'' (''failed to create user: '' @ e);
          return (requeue (10 * Second), None)
        }
      | None \<Rightarrow> do {
          e2 \<leftarrow> Manager_AddSecuritySource env cluster username;
          (case e2 of
             Some e \<Rightarrow> do {
               _ \<leftarrow> failUser env user ''SecuritySourceFailed'' (''failed to set security source: '' @ e);
               return (requeue (10 * Second), None)
             }
           | None \<Rightarrow> do {
               e3 \<leftarrow> GrantUserPermissions env cluster username (us_Grants (u_Spec user));
               (case e3 of
                  Some e \<Rightarrow> do {
                    _ \<leftarrow> failUser env user ''GrantFailed'' (''failed to grant permissions: '' @ e);
                    return (requeue (10 * Second), None)
                  }
                | None \<Rightarrow> do {
                    (certReady, certReason, notAfter) \<leftarrow> userCertificateReadiness env user certRef cluster;
                    m \<leftarrow> markUserReady env user (cl_Name cluster) certReady certReason;
                    (case m of
                       Some e \<Rightarrow> return (no_requeue, Some e)
                     | None \<Rightarrow> do {
                         q \<leftarrow> certRequeue env certRef certReady notAfter;
                         return (q, None)
                       })
                  })
             })
        })
   }"

definition secureAndProvision ::
  "'w env \<Rightarrow> RiakUser \<Rightarrow> UserCertificateRef \<Rightarrow> RiakCluster \<Rightarrow> ('w, outcome) action" where
  "secureAndProvision env user certRef cluster =
     (if clt_SecurityEnabled (cl_Status cluster) then provisionUser env user certRef cluster
      else do {
        err \<leftarrow> Manager_EnableSecurity env cluster;
        (case err of
           Some e \<Rightarrow> do {
             _ \<leftarrow> failUser env user ''SecurityEnableFailed'' (''failed to enable security: '' @ e);
             return (requeue (10 * Second), None)
           }
         | None \<Rightarrow> do {
             let cluster' = cluster\<lparr>cl_Status := (cl_Status cluster)\<lparr>clt_SecurityEnabled := True\<rparr>\<rparr>;
             r \<leftarrow> effect (\<lambda>_. ClusterStatus cluster') (status_cluster env cluster');
             (case r of
                Inl _ \<Rightarrow> return (requeue (5 * Second), None)
              | Inr cluster'' \<Rightarrow> provisionUser env user certRef cluster'')
           })
      })"

definition userOnCluster :: "'w env \<Rightarrow> RiakUser \<Rightarrow> UserCertificateRef \<Rightarrow> ('w, outcome) action" where
  "userOnCluster env user certRef = do {
     let ns = u_Namespace user;
     let name = us_ClusterName (u_Spec user);
     g \<leftarrow> effect (GetCluster ns name) (get_cluster env ns name);
     (case g of
        Inl err \<Rightarrow>
          if \<not> IsNotFound err then return (no_requeue, Some (api_msg err))
          else do {
            _ \<leftarrow> failUser env user ''ClusterNotFound'' (''cluster not found: '' @ api_msg err);
            return (requeue (5 * Second), None)
          }
      | Inr cluster \<Rightarrow>
          if clt_Phase (cl_Status cluster) \<noteq> PhaseReady then do {
            (conds, changed) \<leftarrow> setCondition env (ut_Conditions (u_Status user)) conditionReady False
              (m_Generation (u_Meta user)) ''ClusterNotReady''
              (''cluster '' @ cl_Name cluster @ '' is in phase '' @ Quote (clt_Phase (cl_Status cluster)));
            _ \<leftarrow> (if changed
                  then updateUserStatus env (user\<lparr>u_Status := (u_Status user)\<lparr>ut_Conditions := conds\<rparr>\<rparr>)
                  else return (Inr user));
            return (requeue (5 * Second), None)
          }
          else do {
            c \<leftarrow> reconcileUserCertificate env user certRef;
            (case c of
               Some e \<Rightarrow> do {
                 (conds, _) \<leftarrow> setCondition env (ut_Conditions (u_Status user)) conditionCertificateReady False
                   (m_Generation (u_Meta user)) ''CertificateRequestFailed'' e;
                 _ \<leftarrow> failUser env (user\<lparr>u_Status := (u_Status user)\<lparr>ut_CertificateReady := False,
                     ut_CertificateError := e, ut_Conditions := conds\<rparr>\<rparr>)
                   ''CertificateFailed'' (''failed to reconcile certificate: '' @ e);
                 return (requeue (10 * Second), None)
               }
             | None \<Rightarrow> secureAndProvision env user certRef cluster)
          })
   }"

definition certificateRefMissing :: string where
  "certificateRefMissing = ''certificateRef is required: password authentication was removed; '' @
     ''recreate the user with spec.certificateRef''"

definition failMissingRef :: "'w env \<Rightarrow> RiakUser \<Rightarrow> ('w, outcome) action" where
  "failMissingRef env user = do {
     now \<leftarrow> Now env;
     (conds, _) \<leftarrow> setCondition env (ut_Conditions (u_Status user)) conditionReady False
       (m_Generation (u_Meta user)) ''CertificateRefMissing'' certificateRefMissing;
     r \<leftarrow> updateUserStatus env (user\<lparr>u_Status := (u_Status user)\<lparr>ut_Phase := UserPhaseFailed,
       ut_Error := certificateRefMissing, ut_LastUpdateTime := Some now, ut_Conditions := conds\<rparr>\<rparr>);
     return (case r of Inl e \<Rightarrow> (no_requeue, Some (api_msg e)) | Inr _ \<Rightarrow> (no_requeue, None))
   }"

definition finalizeUser :: "'w env \<Rightarrow> RiakUser \<Rightarrow> ('w, outcome) action" where
  "finalizeUser env user =
     (if ContainsFinalizer env (u_Meta user) riakUserFinalizerName then do {
        d \<leftarrow> deleteRiakUser env user;
        (case d of
           Some _ \<Rightarrow> return (requeue (10 * Second), None)
         | None \<Rightarrow> do {
             r \<leftarrow> effect (\<lambda>_. Update KUser (u_Namespace user) (u_Name user))
               (update_user env (user\<lparr>u_Meta := RemoveFinalizer env (u_Meta user) riakUserFinalizerName\<rparr>));
             return (case r of Inl e \<Rightarrow> (no_requeue, Some (api_msg e)) | Inr _ \<Rightarrow> (no_requeue, None))
           })
      }
      else return (no_requeue, None))"

definition ensureUserFinalizer :: "'w env \<Rightarrow> RiakUser \<Rightarrow> ('w, api_error + RiakUser) action" where
  "ensureUserFinalizer env user =
     (if \<not> ContainsFinalizer env (u_Meta user) riakUserFinalizerName
      then effect (\<lambda>_. Update KUser (u_Namespace user) (u_Name user))
        (update_user env (user\<lparr>u_Meta := AddFinalizer env (u_Meta user) riakUserFinalizerName\<rparr>))
      else return (Inr user))"

definition initUserStatus :: "'w env \<Rightarrow> RiakUser \<Rightarrow> ('w, api_error + RiakUser) action" where
  "initUserStatus env user =
     (if ut_Phase (u_Status user) = []
      then updateUserStatus env (user\<lparr>u_Status := (u_Status user)\<lparr>ut_Phase := UserPhaseCreating\<rparr>\<rparr>)
      else return (Inr user))"

definition User_Reconcile :: "'w env \<Rightarrow> string \<Rightarrow> string \<Rightarrow> ('w, outcome) action" where
  "User_Reconcile env ns name = do {
     g \<leftarrow> effect (\<lambda>_. Get KUser ns name) (get_user env ns name);
     (case g of
        Inl err \<Rightarrow> return (no_requeue, IgnoreNotFound err)
      | Inr user \<Rightarrow>
          if m_DeletionTimestamp (u_Meta user) \<noteq> None then finalizeUser env user
          else do {
            f \<leftarrow> ensureUserFinalizer env user;
            (case f of
               Inl err \<Rightarrow> return (no_requeue, Some (api_msg err))
             | Inr user1 \<Rightarrow> do {
                 s \<leftarrow> initUserStatus env user1;
                 (case s of
                    Inl err \<Rightarrow> return (no_requeue, Some (api_msg err))
                  | Inr user2 \<Rightarrow>
                      (case us_CertificateRef (u_Spec user2) of
                         None \<Rightarrow> failMissingRef env user2
                       | Some certRef \<Rightarrow> userOnCluster env user2 certRef))
               })
          })
   }"

subsection \<open>What a reconcile of a user may do\<close>

text \<open>A command counts as successful when it did not fail, or failed in a way its caller tolerates.\<close>

definition cmd_ok :: "string list \<Rightarrow> (error \<Rightarrow> bool) \<Rightarrow> string res \<Rightarrow> bool" where
  "cmd_ok args tolerates r = (case snd (admin_result args r) of None \<Rightarrow> True | Some e \<Rightarrow> tolerates e)"

abbreviation enable_cmd :: "string \<Rightarrow> string \<Rightarrow> string res \<Rightarrow> event" where
  "enable_cmd ns pod r \<equiv> riak_cmd ns pod riakContainer [''security'', ''enable''] r"
abbreviation add_user_cmd :: "string \<Rightarrow> string \<Rightarrow> string \<Rightarrow> string res \<Rightarrow> event" where
  "add_user_cmd ns pod u r \<equiv> riak_cmd ns pod riakContainer [''security'', ''add-user'', u] r"
abbreviation add_source_cmd :: "string \<Rightarrow> string \<Rightarrow> string \<Rightarrow> string res \<Rightarrow> event" where
  "add_source_cmd ns pod u r \<equiv>
     riak_cmd ns pod riakContainer [''security'', ''add-source'', u, ''0.0.0.0/0'', ''certificate''] r"

text \<open>
  The evidence for a provisioned identity: the user was added, its certificate source was added, and the commands
  between those and the reads of the certificate leave it with the rights of the specification.
\<close>

definition provisioned :: "RiakUserSpec \<Rightarrow> event list \<Rightarrow> bool" where
  "provisioned spec pre \<longleftrightarrow>
     (\<exists>pre' ns pod r1 r2 gev reads.
        pre = pre' @ [add_user_cmd ns pod (us_Username spec) r1, add_source_cmd ns pod (us_Username spec) r2] @ gev @ reads \<and>
        cmd_ok [''security'', ''add-user'', us_Username spec] (\<lambda>e. Contains e ''role_exists'') r1 \<and>
        cmd_ok [''security'', ''add-source'', us_Username spec, ''0.0.0.0/0'', ''certificate''] (\<lambda>_. False) r2 \<and>
        (\<forall>s0 s. replay gev s0 = Some s \<longrightarrow> s = spec_rights (us_Grants spec)) \<and> list_all is_read reads)"

text \<open>Security is on: the cluster's status says so, or it was enabled and recorded in this reconcile.\<close>

definition security_on :: "string \<Rightarrow> string \<Rightarrow> event list \<Rightarrow> bool" where
  "security_on ns name pre \<longleftrightarrow>
     (\<exists>cl. GetCluster ns name (Inr cl) \<in> set pre \<and> clt_SecurityEnabled (cl_Status cl)) \<or>
     (\<exists>n pod r cl. enable_cmd n pod r \<in> set pre \<and> cmd_ok [''security'', ''enable''] (\<lambda>e. Contains e ''already'') r \<and>
        ClusterStatus cl \<in> set pre \<and> clt_SecurityEnabled (cl_Status cl))"

text \<open>
  Which events may follow which: \<^verbatim>\<open>security enable\<close> only for a cluster read as ready without security, and the status \<^verbatim>\<open>Ready\<close> only for a
  provisioned identity on a cluster with security on.
\<close>

definition user_ok :: "RiakUserSpec \<Rightarrow> string \<Rightarrow> event list \<Rightarrow> event \<Rightarrow> bool" where
  "user_ok spec ns pre e \<longleftrightarrow>
     (riak_args e = [''security'', ''enable''] \<longrightarrow>
        (\<exists>cl. GetCluster ns (us_ClusterName spec) (Inr cl) \<in> set pre \<and> clt_Phase (cl_Status cl) = PhaseReady \<and>
           \<not> clt_SecurityEnabled (cl_Status cl)) \<and> (\<forall>d \<in> set pre. riak_args d = [])) \<and>
     (case e of
        UserStatus u \<Rightarrow> ut_Phase (u_Status u) = UserPhaseReady \<longrightarrow>
          provisioned spec pre \<and> security_on ns (us_ClusterName spec) pre \<and>
          ut_Username (u_Status u) = us_Username spec \<and> ut_Grants (u_Status u) = us_Grants spec
      | _ \<Rightarrow> True)"

lemma UserPhase_distinct [simp]: "UserPhaseFailed \<noteq> UserPhaseReady" "UserPhaseReady \<noteq> UserPhaseFailed"
  "UserPhaseCreating \<noteq> UserPhaseReady" "UserPhaseReady \<noteq> UserPhaseCreating"
  by (simp_all add: UserPhaseFailed_def UserPhaseReady_def UserPhaseCreating_def)

text \<open>Events that may happen at any time.\<close>

definition harmless :: "event \<Rightarrow> bool" where
  "harmless e \<longleftrightarrow> riak_args e \<noteq> [''security'', ''enable''] \<and>
     (case e of UserStatus u \<Rightarrow> ut_Phase (u_Status u) \<noteq> UserPhaseReady | _ \<Rightarrow> True)"

lemma harmless_ok: "harmless e \<Longrightarrow> user_ok spec ns pre e"
  by (auto simp: harmless_def user_ok_def split: event.split)

lemma riak_args_other [simp]: "\<not> is_exec e \<Longrightarrow> riak_args e = []"
  by (cases e) (auto simp: riak_args_def)

lemma harmless_read [simp]: "is_read e \<Longrightarrow> harmless e"
  by (cases e) (auto simp: harmless_def)

lemma harmless_cmd [simp]: "harmless (riak_cmd ns pod c args r) \<longleftrightarrow> args \<noteq> [''security'', ''enable'']"
  by (simp add: harmless_def)

lemma emits_failUser [emits_rules]: "emits harmless (failUser env user r msg)"
  unfolding failUser_def updateUserStatus_def Let_def by (auto intro!: emits_rules simp: harmless_def)

lemma emits_on_first_member [emits_rules]:
  "(\<And>ns pod. emits P (f ns pod)) \<Longrightarrow> emits P (on_first_member cluster f)"
  by (auto simp: on_first_member_def intro!: emits_rules split: list.split)

lemma emits_GrantUserPermissions: "emits harmless (GrantUserPermissions env cluster u gs)"
  unfolding GrantUserPermissions_def Let_def grant_body_def revoke_body_def
  by (auto intro!: emits_rules split: prod.split)

lemma emits_readTrustedCA: "emits is_read (readTrustedCA env ns src)"
  unfolding readTrustedCA_def by (auto intro!: emits_rules split: option.split)

lemma emits_buildTrustBundle: "emits is_read (buildTrustBundle env cluster)"
  unfolding buildTrustBundle_def ca_body_def Let_def
  by (auto intro!: emits_rules emits_readTrustedCA)

lemma emits_userCertificateReadiness: "emits is_read (userCertificateReadiness env user ref cluster)"
  unfolding userCertificateReadiness_def externalCertificateReadiness_def Let_def
  by (auto intro!: emits_rules emits_buildTrustBundle)

lemma emits_reconcileUserCertificate: "emits harmless (reconcileUserCertificate env user ref)"
  unfolding reconcileUserCertificate_def Let_def
  by (auto intro!: emits_rules simp: harmless_def)

lemma emits_certRequeue: "emits P (certRequeue env ref ready t)"
  unfolding certRequeue_def by (auto intro!: emits_rules)

lemma emits_reconcileUserCertificate_quiet:
  "emits (\<lambda>e. \<not> is_exec e \<and> harmless e) (reconcileUserCertificate env user ref)"
  unfolding reconcileUserCertificate_def Let_def
  by (auto intro!: emits_rules simp: harmless_def)

lemma tolerated_None:
  "Option.bind (snd (admin_result args r)) (\<lambda>e. if tolerates e then None else Some e) = None \<longleftrightarrow> cmd_ok args tolerates r"
  by (auto simp: cmd_ok_def split: option.split)

text \<open>The commands that run on the first member: they do nothing without one, and otherwise run one command.\<close>

lemma wp_on_first_member:
  assumes "\<And>w'. w' = w \<Longrightarrow> Q (Some noMembers) w'"
    and "\<And>m ms. clt_Members (cl_Status cluster) = m # ms \<Longrightarrow> wp (f (cl_Namespace cluster) (nm_Pod m)) Q w"
  shows "wp (on_first_member cluster f) Q w"
  using assms by (auto simp: on_first_member_def split: list.split)

lemma wp_first_cmd:
  assumes "\<And>e. Q (Some e) w"
    and cmd: "\<And>ns pod Q w. (\<And>r o'. Q (Option.bind (snd (admin_result args r)) (\<lambda>e. if tolerates e then None else Some e))
      (w\<lparr>outside := o', trace := trace w @ [riak_cmd ns pod riakContainer args r]\<rparr>)) \<Longrightarrow> wp (f ns pod) Q w"
    and "\<And>m ms e r w'. clt_Members (cl_Status cluster) = m # ms \<Longrightarrow>
      trace w' = trace w @ [riak_cmd (cl_Namespace cluster) (nm_Pod m) riakContainer args r] \<Longrightarrow> Q (Some e) w'"
    and "\<And>m ms r w'. clt_Members (cl_Status cluster) = m # ms \<Longrightarrow>
      trace w' = trace w @ [riak_cmd (cl_Namespace cluster) (nm_Pod m) riakContainer args r] \<Longrightarrow>
      cmd_ok args tolerates r \<Longrightarrow> Q None w'"
  shows "wp (on_first_member cluster f) Q w"
proof (rule wp_on_first_member, goal_cases)
  case (2 m ms)
  show ?case
  proof (rule cmd, goal_cases)
    case (1 r o')
    show ?case
      using assms(3,4)[OF 2] tolerated_None[of args r tolerates]
      by (cases "Option.bind (snd (admin_result args r)) (\<lambda>e. if tolerates e then None else Some e)") auto
  qed
qed (use assms(1) in simp)


lemma wp_Manager_EnableSecurity:
  assumes "\<And>e. Q (Some e) w"
    and "\<And>m ms e r w'. clt_Members (cl_Status cluster) = m # ms \<Longrightarrow>
      trace w' = trace w @ [riak_cmd (cl_Namespace cluster) (nm_Pod m) riakContainer [''security'', ''enable''] r] \<Longrightarrow> Q (Some e) w'"
    and "\<And>m ms r w'. clt_Members (cl_Status cluster) = m # ms \<Longrightarrow>
      trace w' = trace w @ [riak_cmd (cl_Namespace cluster) (nm_Pod m) riakContainer [''security'', ''enable''] r] \<Longrightarrow>
      cmd_ok [''security'', ''enable''] (\<lambda>e. Contains e ''already'') r \<Longrightarrow> Q None w'"
  shows "wp (Manager_EnableSecurity env cluster) Q w"
  unfolding Manager_EnableSecurity_def
  by (rule wp_first_cmd[where args = "[''security'', ''enable'']" and tolerates = "\<lambda>e. Contains e ''already''"])
    (use assms in \<open>auto intro: enable_security.wp_cmd\<close>)

lemma wp_Manager_CreateUserForCert:
  assumes "\<And>e. Q (Some e) w"
    and "\<And>m ms e r w'. clt_Members (cl_Status cluster) = m # ms \<Longrightarrow>
      trace w' = trace w @ [riak_cmd (cl_Namespace cluster) (nm_Pod m) riakContainer [''security'', ''add-user'', u] r] \<Longrightarrow> Q (Some e) w'"
    and "\<And>m ms r w'. clt_Members (cl_Status cluster) = m # ms \<Longrightarrow>
      trace w' = trace w @ [riak_cmd (cl_Namespace cluster) (nm_Pod m) riakContainer [''security'', ''add-user'', u] r] \<Longrightarrow>
      cmd_ok [''security'', ''add-user'', u] (\<lambda>e. Contains e ''role_exists'') r \<Longrightarrow> Q None w'"
  shows "wp (Manager_CreateUserForCert env cluster u) Q w"
  unfolding Manager_CreateUserForCert_def
  by (rule wp_first_cmd[where args = "[''security'', ''add-user'', u]" and tolerates = "\<lambda>e. Contains e ''role_exists''"])
    (use assms in \<open>auto intro: add_user.wp_cmd\<close>)

lemma wp_Manager_AddSecuritySource:
  assumes "\<And>e. Q (Some e) w"
    and "\<And>m ms e r w'. clt_Members (cl_Status cluster) = m # ms \<Longrightarrow>
      trace w' = trace w @ [riak_cmd (cl_Namespace cluster) (nm_Pod m) riakContainer [''security'', ''add-source'', u, ''0.0.0.0/0'', ''certificate''] r] \<Longrightarrow> Q (Some e) w'"
    and "\<And>m ms r w'. clt_Members (cl_Status cluster) = m # ms \<Longrightarrow>
      trace w' = trace w @ [riak_cmd (cl_Namespace cluster) (nm_Pod m) riakContainer [''security'', ''add-source'', u, ''0.0.0.0/0'', ''certificate''] r] \<Longrightarrow>
      cmd_ok [''security'', ''add-source'', u, ''0.0.0.0/0'', ''certificate''] (\<lambda>_. False) r \<Longrightarrow> Q None w'"
  shows "wp (Manager_AddSecuritySource env cluster u) Q w"
  unfolding Manager_AddSecuritySource_def
  by (rule wp_first_cmd[where args = "[''security'', ''add-source'', u, ''0.0.0.0/0'', ''certificate'']" and tolerates = "\<lambda>_. False"])
    (use assms in \<open>auto intro: add_source.wp_cmd\<close>)

lemma wp_Manager_DeleteUser:
  assumes "\<And>e. Q (Some e) w"
    and "\<And>m ms e r w'. clt_Members (cl_Status cluster) = m # ms \<Longrightarrow>
      trace w' = trace w @ [riak_cmd (cl_Namespace cluster) (nm_Pod m) riakContainer [''security'', ''del-user'', u] r] \<Longrightarrow> Q (Some e) w'"
    and "\<And>m ms r w'. clt_Members (cl_Status cluster) = m # ms \<Longrightarrow>
      trace w' = trace w @ [riak_cmd (cl_Namespace cluster) (nm_Pod m) riakContainer [''security'', ''del-user'', u] r] \<Longrightarrow>
      cmd_ok [''security'', ''del-user'', u] (\<lambda>e. Contains e ''unknown_user'') r \<Longrightarrow> Q None w'"
  shows "wp (Manager_DeleteUser env cluster u) Q w"
  unfolding Manager_DeleteUser_def
  by (rule wp_first_cmd[where args = "[''security'', ''del-user'', u]" and tolerates = "\<lambda>e. Contains e ''unknown_user''"])
    (use assms in \<open>auto intro: del_user.wp_cmd\<close>)

lemma wp_markUserReady:
  assumes "\<And>r w'. trace w' = trace w \<Longrightarrow> Q r w'"
    and "\<And>r u w'. trace w' = trace w @ [UserStatus u] \<Longrightarrow> ut_Username (u_Status u) = us_Username (u_Spec user) \<Longrightarrow>
      ut_Grants (u_Status u) = us_Grants (u_Spec user) \<Longrightarrow> Q r w'"
  shows "wp (markUserReady env user cn ready reason) Q w"
proof -
  have "wp (Now env) (\<lambda>now. wp (effect (\<lambda>_. UserStatus (user\<lparr>u_Status := st\<lparr>ut_LastUpdateTime := Some now\<rparr>\<rparr>))
      (status_user env (user\<lparr>u_Status := st\<lparr>ut_LastUpdateTime := Some now\<rparr>\<rparr>)))
      (\<lambda>r. Q (case r of Inl e \<Rightarrow> Some (api_msg e) | Inr _ \<Rightarrow> None))) w'"
    if "trace w' = trace w" "ut_Username st = us_Username (u_Spec user)" "ut_Grants st = us_Grants (u_Spec user)" for w' st
    by (intro wp_Now_any wp_effect_any assms(2)[where u = "user\<lparr>u_Status := st\<lparr>ut_LastUpdateTime := Some _\<rparr>\<rparr>"])
      (use that in simp_all)
  then show ?thesis
    unfolding markUserReady_def Let_def case_prod_beta wp_bind updateUserStatus_def wp_if wp_return
    by (intro wp_setCondition) (simp add: assms(1))
qed

text \<open>A run that has kept to the rules so far, with the events \<open>es\<close>.\<close>

abbreviation kept :: "RiakUserSpec \<Rightarrow> string \<Rightarrow> 'w world \<Rightarrow> 'w world \<Rightarrow> bool" where
  "kept spec ns w0 \<equiv> reached w0 (justified (user_ok spec ns))"

interpretation user: justification "user_ok spec ns" harmless for spec ns
  by unfold_locales (rule harmless_ok)

lemmas kept_emits = user.calm_run and kept_more = user.calm_more

lemma kept_fail:
  "kept spec ns w0 w \<Longrightarrow> wp (failUser env user r msg) (\<lambda>_. wp (return x) (\<lambda>_. kept spec ns w0)) w"
  by (simp add: kept_emits emits_failUser)

lemma security_on_append: "security_on ns n es \<Longrightarrow> security_on ns n (es @ fs)"
  unfolding security_on_def set_append by blast

text \<open>Marking the user ready, once everything else has been done.\<close>

lemma kept_ready:
  assumes "kept (u_Spec user) ns w0 w" and "trace w = trace w0 @ es"
    and "provisioned (u_Spec user) es" and "security_on ns (us_ClusterName (u_Spec user)) es"
  shows "wp (markUserReady env user cn ready reason) (\<lambda>_. kept (u_Spec user) ns w0) w"
proof (rule wp_markUserReady)
  fix w' :: "'a world" assume "trace w' = trace w"
  then show "kept (u_Spec user) ns w0 w'" using assms(1) by (simp add: reached_def)
next
  fix u and w' :: "'a world"
  assume t: "trace w' = trace w @ [UserStatus u]" and u: "ut_Username (u_Status u) = us_Username (u_Spec user)"
    "ut_Grants (u_Status u) = us_Grants (u_Spec user)"
  have "user_ok (u_Spec user) ns es (UserStatus u)" using assms(3,4) u by (simp add: user_ok_def)
  moreover have "justified (user_ok (u_Spec user) ns) es" using assms(1,2) by (auto simp: reached_def)
  ultimately show "kept (u_Spec user) ns w0 w'"
    using t assms(2) by (auto simp: reached_def intro!: exI[of _ "es @ [UserStatus u]"])
qed

lemma provisionedI:
  assumes "es = pre @ [add_user_cmd ns pod (us_Username spec) r1, add_source_cmd ns pod (us_Username spec) r2] @ gev @ reads"
    and "cmd_ok [''security'', ''add-user'', us_Username spec] (\<lambda>e. Contains e ''role_exists'') r1"
    and "cmd_ok [''security'', ''add-source'', us_Username spec, ''0.0.0.0/0'', ''certificate''] (\<lambda>_. False) r2"
    and "\<forall>s0 s. replay gev s0 = Some s \<longrightarrow> s = spec_rights (us_Grants spec)" and "list_all is_read reads"
  shows "provisioned spec es"
  unfolding provisioned_def using assms by blast

text \<open>The grants: on success, the commands run leave the user with the rights of the specification.\<close>

lemma wp_GrantUserPermissions:
  assumes "\<And>w' gev. trace w' = trace w @ gev \<Longrightarrow> list_all harmless gev \<Longrightarrow>
      (\<forall>s0 s. replay gev s0 = Some s \<longrightarrow> s = spec_rights gs) \<Longrightarrow> Q None w'"
    and "\<And>e w' gev. trace w' = trace w @ gev \<Longrightarrow> list_all harmless gev \<Longrightarrow> Q (Some e) w'"
  shows "wp (GrantUserPermissions env cluster u gs) Q w"
proof (rule wpI)
  fix r w' assume run: "run_state (GrantUserPermissions env cluster u gs) w = (r, w')"
  obtain gev where gev: "trace w' = trace w @ gev" "list_all harmless gev"
    using emits_GrantUserPermissions run by (rule emitsD)
  have "\<forall>s. replay gev s0 = Some s \<longrightarrow> s = spec_rights gs" if "r = None" for s0
    using wp_run[OF run GrantUserPermissions_rights[of env cluster u gs w s0]] that gev
    by (auto simp: reached_def)
  then show "Q r w'" using assms gev by (cases r) auto
qed

lemma wp_reads:
  assumes "emits is_read m" and "\<And>a w' es. trace w' = trace w @ es \<Longrightarrow> list_all is_read es \<Longrightarrow> Q a w'"
  shows "wp m Q w"
proof (rule wpI)
  fix a w' assume "run_state m w = (a, w')"
  with assms(1) obtain es where "trace w' = trace w @ es" "list_all is_read es" by (rule emitsD)
  then show "Q a w'" by (rule assms(2))
qed

lemma list_all_read_harmless: "list_all is_read es \<Longrightarrow> list_all harmless es"
  by (auto simp: list_all_iff)

text \<open>The last part of provisioning: the certificate is looked at, the status is written, the next look is scheduled.\<close>

lemma wp_ready_part:
  assumes w: "kept (u_Spec user) ns w0 w" and t: "trace w = trace w0 @ es"
    and p: "\<And>reads. list_all is_read reads \<Longrightarrow> provisioned (u_Spec user) (es @ reads)"
    and on: "security_on ns (us_ClusterName (u_Spec user)) es"
  shows "wp (userCertificateReadiness env user ref cluster) (\<lambda>a. wp (case a of (certReady, certReason, notAfter) \<Rightarrow>
      markUserReady env user (cl_Name cluster) certReady certReason \<bind> (\<lambda>m. case m of
          None \<Rightarrow> certRequeue env ref certReady notAfter \<bind> (\<lambda>q. return (q, None))
        | Some e \<Rightarrow> return (no_requeue, Some e))) (\<lambda>_. kept (u_Spec user) ns w0)) w"
proof (rule wp_reads[OF emits_userCertificateReadiness], goal_cases)
  case (1 a w1 reads)
  obtain certReady certReason notAfter where a: "a = (certReady, certReason, notAfter)" by (cases a) auto
  have w1: "kept (u_Spec user) ns w0 w1" by (rule kept_more[OF w 1(1) list_all_read_harmless[OF 1(2)]])
  have "wp (markUserReady env user (cl_Name cluster) certReady certReason) (\<lambda>_. kept (u_Spec user) ns w0) w1"
    by (rule kept_ready[OF w1 _ p[OF 1(2)] security_on_append[OF on]]) (simp add: 1 t)
  then show ?case
    unfolding a prod.case wp_bind
    by (rule wp_mono) (auto split: option.split intro!: kept_emits emits_certRequeue)
qed

text \<open>The part from the grants on, after the user and its source were added.\<close>

lemma wp_grants_part:
  fixes user ns w0 es m r1 r2 and cluster :: RiakCluster
  defines "cmds \<equiv> [add_user_cmd (cl_Namespace cluster) (nm_Pod m) (us_Username (u_Spec user)) r1,
      add_source_cmd (cl_Namespace cluster) (nm_Pod m) (us_Username (u_Spec user)) r2]"
  assumes w: "kept (u_Spec user) ns w0 w" and t: "trace w = trace w0 @ es @ cmds"
    and on: "security_on ns (us_ClusterName (u_Spec user)) es"
    and ok: "cmd_ok [''security'', ''add-user'', us_Username (u_Spec user)] (\<lambda>e. Contains e ''role_exists'') r1"
      "cmd_ok [''security'', ''add-source'', us_Username (u_Spec user), ''0.0.0.0/0'', ''certificate''] (\<lambda>_. False) r2"
  shows "wp (GrantUserPermissions env cluster (us_Username (u_Spec user)) (us_Grants (u_Spec user))) (\<lambda>e3. wp (case e3 of
      None \<Rightarrow> userCertificateReadiness env user ref cluster \<bind> (\<lambda>a. case a of (certReady, certReason, notAfter) \<Rightarrow>
        markUserReady env user (cl_Name cluster) certReady certReason \<bind> (\<lambda>m. case m of
            None \<Rightarrow> certRequeue env ref certReady notAfter \<bind> (\<lambda>q. return (q, None))
          | Some e \<Rightarrow> return (no_requeue, Some e)))
    | Some e \<Rightarrow> failUser env user ''GrantFailed'' (''failed to grant permissions: '' @ e) \<bind> (\<lambda>_. return (requeue (10 * Second), None)))
      (\<lambda>_. kept (u_Spec user) ns w0)) w"
proof (rule wp_GrantUserPermissions, goal_cases)
  case (1 w1 gev)
  have prov: "provisioned (u_Spec user) ((es @ cmds @ gev) @ reads)" if "list_all is_read reads" for reads
    by (rule provisionedI[OF _ ok 1(3) that, where pre = es]) (simp add: cmds_def)
  show ?case
    unfolding option.case wp_bind
    by (rule wp_ready_part[OF kept_more[OF w 1(1,2)] _ prov]) (simp_all add: 1(1) t security_on_append[OF on])
next
  case (2 e w1 gev)
  show ?case unfolding option.case wp_bind by (rule kept_fail, rule kept_more[OF w 2])
qed

lemma wp_provisionUser:
  assumes w: "kept (u_Spec user) ns w0 w" and t: "trace w = trace w0 @ es"
    and on: "security_on ns (us_ClusterName (u_Spec user)) es"
  shows "wp (provisionUser env user ref cluster) (\<lambda>_. kept (u_Spec user) ns w0) w"
  unfolding provisionUser_def Let_def wp_bind
proof (rule wp_Manager_CreateUserForCert, goal_cases)
  case (1 e)
  show ?case unfolding option.case wp_bind by (rule kept_fail[OF w])
next
  case (2 m ms e r w1)
  show ?case unfolding option.case wp_bind by (rule kept_fail, rule kept_more[OF w 2(2)]) simp
next
  case added: (3 m ms r1 w1)
  have w1: "kept (u_Spec user) ns w0 w1" by (rule kept_more[OF w added(2)]) simp
  show ?case
    unfolding option.case wp_bind
  proof (rule wp_Manager_AddSecuritySource, goal_cases)
    case (1 e)
    show ?case unfolding option.case wp_bind by (rule kept_fail[OF w1])
  next
    case (2 m ms e r w2)
    show ?case unfolding option.case wp_bind by (rule kept_fail, rule kept_more[OF w1 2(2)]) simp
  next
    case sourced: (3 m' ms' r2 w2)
    have "kept (u_Spec user) ns w0 w2" by (rule kept_more[OF w1 sourced(2)]) simp
    then show ?case
      unfolding option.case wp_bind
      by (rule wp_grants_part[OF _ _ on added(3) sourced(3)]) (use added(1,2) sourced(1,2) t in simp)
  qed
qed

text \<open>Writes of a user or of a cluster's status return what was written, but for metadata.\<close>

definition user_writes :: "'w env \<Rightarrow> bool" where
  "user_writes env \<longleftrightarrow>
     (\<forall>u o1 u' o2. update_user env u o1 = (Inr u', o2) \<or> status_user env u o1 = (Inr u', o2) \<longrightarrow>
        u_Spec u' = u_Spec u \<and> u_Status u' = u_Status u \<and> u_Namespace u' = u_Namespace u)"

lemma wp_secureAndProvision:
  assumes w: "kept (u_Spec user) ns w0 w" and t: "trace w = trace w0 @ es"
    and got: "GetCluster ns (us_ClusterName (u_Spec user)) (Inr cluster) \<in> set es"
    and ready: "clt_Phase (cl_Status cluster) = PhaseReady" and quiet: "\<forall>d \<in> set es. riak_args d = []"
  shows "wp (secureAndProvision env user ref cluster) (\<lambda>_. kept (u_Spec user) ns w0) w"
proof (cases "clt_SecurityEnabled (cl_Status cluster)")
  case True
  then have "security_on ns (us_ClusterName (u_Spec user)) es" using got unfolding security_on_def by blast
  with True show ?thesis by (simp add: secureAndProvision_def wp_provisionUser[OF w t])
next
  case False
  let ?K = "kept (u_Spec user) ns w0"
  let ?c = "cluster\<lparr>cl_Status := (cl_Status cluster)\<lparr>clt_SecurityEnabled := True\<rparr>\<rparr>"
  have enable: "?K w1" if t1: "trace w1 = trace w @ [enable_cmd n pod r]" for w1 n pod r
  proof -
    have "user_ok (u_Spec user) ns es (enable_cmd n pod r)"
      using got ready False quiet unfolding user_ok_def by auto
    moreover have "justified (user_ok (u_Spec user) ns) es" using w t by (auto simp: reached_def)
    ultimately show ?thesis using t1 t by (auto simp: reached_def intro!: exI[of _ "es @ [enable_cmd n pod r]"])
  qed
  show ?thesis
    unfolding secureAndProvision_def Let_def wp_bind if_not_P[OF False]
  proof (rule wp_Manager_EnableSecurity, goal_cases)
    case (1 e)
    show ?case unfolding option.case wp_bind by (rule kept_fail[OF w])
  next
    case (2 m ms e r w1)
    show ?case unfolding option.case wp_bind by (rule kept_fail[OF enable[OF 2(2)]])
  next
    case (3 m ms r w1)
    show ?case
      unfolding option.case wp_bind
    proof (rule wp_effect_any, goal_cases)
      case (1 a w2)
      let ?es = "es @ [enable_cmd (cl_Namespace cluster) (nm_Pod m) r, ClusterStatus ?c]"
      have w2: "?K w2" by (rule kept_more[OF enable[OF 3(2)] 1]) (simp add: harmless_def)
      have "security_on ns (us_ClusterName (u_Spec user)) ?es"
        unfolding security_on_def using 3(3)
        by (intro disjI2 exI[of _ "cl_Namespace cluster"] exI[of _ "nm_Pod m"] exI[of _ r] exI[of _ ?c]) simp
      then have "wp (provisionUser env user ref c'') (\<lambda>_. ?K) w2" for c''
        by (rule wp_provisionUser[OF w2, rotated]) (simp add: 1 3(2) t)
      then show ?case by (cases a) (simp_all add: w2)
    qed
  qed
qed

text \<open>From the certificate on, for a cluster just read as ready.\<close>

lemma wp_certificate_part:
  assumes w: "kept (u_Spec user) (u_Namespace user) w0 w" and t: "trace w = trace w0 @ es"
    and got: "GetCluster (u_Namespace user) (us_ClusterName (u_Spec user)) (Inr cluster) \<in> set es"
    and ready: "clt_Phase (cl_Status cluster) = PhaseReady" and quiet: "\<forall>d \<in> set es. riak_args d = []"
    and failed: "\<And>e. emits harmless (failed e)"
  shows "wp (reconcileUserCertificate env user ref) (\<lambda>c. wp (case c of
      None \<Rightarrow> secureAndProvision env user ref cluster | Some e \<Rightarrow> failed e) (\<lambda>_. kept (u_Spec user) (u_Namespace user) w0)) w"
proof (rule wpI)
  fix c w1 assume "run_state (reconcileUserCertificate env user ref) w = (c, w1)"
  with emits_reconcileUserCertificate_quiet obtain fs where fs: "trace w1 = trace w @ fs"
      "list_all (\<lambda>e. \<not> is_exec e \<and> harmless e) fs" by (rule emitsD)
  have harm: "list_all harmless fs" and "\<forall>d \<in> set fs. riak_args d = []" using fs(2) by (auto simp: list_all_iff)
  then have "\<forall>d \<in> set (es @ fs). riak_args d = []" using quiet by auto
  moreover have w1: "kept (u_Spec user) (u_Namespace user) w0 w1" by (rule kept_more[OF w fs(1) harm])
  ultimately have "wp (secureAndProvision env user ref cluster) (\<lambda>_. kept (u_Spec user) (u_Namespace user) w0) w1"
    using got ready by (intro wp_secureAndProvision[where es = "es @ fs"]) (simp_all add: fs t)
  then show "wp (case c of None \<Rightarrow> secureAndProvision env user ref cluster | Some e \<Rightarrow> failed e)
      (\<lambda>_. kept (u_Spec user) (u_Namespace user) w0) w1"
    by (cases c) (simp_all add: kept_emits[OF failed w1])
qed

lemma wp_userOnCluster:
  assumes w: "kept (u_Spec user) (u_Namespace user) w0 w" and t: "trace w = trace w0 @ es"
    and phase: "ut_Phase (u_Status user) \<noteq> UserPhaseReady" and quiet: "\<forall>d \<in> set es. riak_args d = []"
  shows "wp (userOnCluster env user ref) (\<lambda>_. kept (u_Spec user) (u_Namespace user) w0) w"
  unfolding userOnCluster_def Let_def wp_bind
proof (rule wp_effect_any, goal_cases)
  case (1 g w1)
  let ?get = "GetCluster (u_Namespace user) (us_ClusterName (u_Spec user))"
  have w1: "kept (u_Spec user) (u_Namespace user) w0 w1" by (rule kept_more[OF w 1]) simp
  show ?case
  proof (cases g)
    case (Inl err)
    show ?thesis
      unfolding Inl sum.case by (rule kept_emits[OF _ w1]) (auto intro!: emits_rules)
  next
    case (Inr cluster)
    show ?thesis
    proof (cases "clt_Phase (cl_Status cluster) = PhaseReady")
      case True
      show ?thesis
        unfolding Inr sum.case if_not_P[OF not_not[THEN iffD2, OF True]] wp_bind
        by (rule wp_certificate_part[OF w1, where es = "es @ [?get g]"])
          (use t 1 quiet True Inr in \<open>auto intro!: emits_rules\<close>)
    next
      case False
      show ?thesis
        unfolding Inr sum.case if_P[OF False]
        by (rule kept_emits[OF _ w1])
          (auto intro!: emits_rules simp: updateUserStatus_def harmless_def phase)
    qed
  qed
qed

definition same_user :: "RiakUser \<Rightarrow> RiakUser \<Rightarrow> bool" where
  "same_user u u' \<longleftrightarrow> u_Spec u' = u_Spec u \<and> u_Status u' = u_Status u \<and> u_Namespace u' = u_Namespace u"

lemma wp_ensureUserFinalizer:
  assumes "user_writes env" and "finalizer_laws env"
    and Q: "\<And>r w'. \<exists>es. trace w' = trace w @ es \<and> list_all (\<lambda>e. \<exists>ns n. e = Update KUser ns n) es \<Longrightarrow>
      (\<And>u. r = Inr u \<Longrightarrow> same_user user u) \<Longrightarrow> Q r w'"
  shows "wp (ensureUserFinalizer env user) Q w"
proof (cases "ContainsFinalizer env (u_Meta user) riakUserFinalizerName")
  case True
  have "Q (Inr user) w" by (rule Q) (auto simp: same_user_def)
  with True show ?thesis by (simp add: ensureUserFinalizer_def)
next
  case False
  let ?u = "user\<lparr>u_Meta := AddFinalizer env (u_Meta user) riakUserFinalizerName\<rparr>"
  obtain r o' where u: "update_user env ?u (outside w) = (r, o')" by fastforce
  obtain fs where fs: "AddFinalizer env (u_Meta user) riakUserFinalizerName = (u_Meta user)\<lparr>m_Finalizers := fs\<rparr>"
    using assms(2) unfolding finalizer_laws_def by blast
  have "same_user user u'" if "r = Inr u'" for u'
    using assms(1) u that unfolding user_writes_def same_user_def by (auto simp: fs)
  then show ?thesis
    using False Q[of _ r] by (simp add: ensureUserFinalizer_def wp_effect u)
qed

lemma wp_initUserStatus:
  assumes "user_writes env" and "same_user user u" and "ut_Phase (u_Status user) \<noteq> UserPhaseReady"
    and Q: "\<And>r w'. \<exists>es. trace w' = trace w @ es \<and>
        list_all (\<lambda>e. \<exists>u. e = UserStatus u \<and> ut_Phase (u_Status u) \<noteq> UserPhaseReady) es \<Longrightarrow>
      (\<And>u'. r = Inr u' \<Longrightarrow> u_Spec u' = u_Spec user \<and> u_Namespace u' = u_Namespace user \<and>
        ut_Phase (u_Status u') \<noteq> UserPhaseReady) \<Longrightarrow> Q r w'"
  shows "wp (initUserStatus env u) Q w"
proof (cases "ut_Phase (u_Status u) = []")
  case False
  have "Q (Inr u) w" by (rule Q) (use assms(2,3) in \<open>auto simp: same_user_def\<close>)
  with False show ?thesis by (simp add: initUserStatus_def)
next
  case True
  let ?u = "u\<lparr>u_Status := (u_Status u)\<lparr>ut_Phase := UserPhaseCreating\<rparr>\<rparr>"
  obtain r o' where u: "status_user env ?u (outside w) = (r, o')" by fastforce
  have "u_Spec u' = u_Spec user \<and> u_Namespace u' = u_Namespace user \<and> ut_Phase (u_Status u') \<noteq> UserPhaseReady"
    if "r = Inr u'" for u'
    using assms(1,2) u that unfolding user_writes_def same_user_def by fastforce
  then show ?thesis
    using True Q[of _ r] by (simp add: initUserStatus_def updateUserStatus_def wp_effect u)
qed

lemma emits_finalizeUser: "emits harmless (finalizeUser env user)"
  unfolding finalizeUser_def deleteRiakUser_def Manager_DeleteUser_def Let_def
  by (auto intro!: emits_rules simp: harmless_def)

lemma emits_failMissingRef: "emits harmless (failMissingRef env user)"
  unfolding failMissingRef_def updateUserStatus_def
  by (auto intro!: emits_rules simp: harmless_def)

text \<open>From the status initialisation on.\<close>

lemma wp_initialised_user:
  assumes laws: "user_writes env" and phase: "ut_Phase (u_Status user) \<noteq> UserPhaseReady"
    and t2: "trace w2 = trace w @ es" "\<forall>d \<in> set es. riak_args d = []"
    and w2: "kept (u_Spec user) (u_Namespace user) w w2" and u1: "same_user user u1"
  shows "wp (initUserStatus env u1) (\<lambda>s. wp (case s of
      Inl err \<Rightarrow> return (no_requeue, Some (api_msg err))
    | Inr user2 \<Rightarrow>
        (case us_CertificateRef (u_Spec user2) of
           None \<Rightarrow> failMissingRef env user2
         | Some certRef \<Rightarrow> userOnCluster env user2 certRef)) (\<lambda>_. kept (u_Spec user) (u_Namespace user) w)) w2"
proof (rule wp_initUserStatus[OF laws u1 phase], goal_cases)
  case (1 s w3)
  then obtain fs where t: "trace w3 = trace w2 @ fs"
      "list_all (\<lambda>e. \<exists>u. e = UserStatus u \<and> ut_Phase (u_Status u) \<noteq> UserPhaseReady) fs" by blast
  have quiet: "\<forall>d \<in> set (es @ fs). riak_args d = []" using t2(2) t(2) by (auto simp: list_all_iff)
  have w3: "kept (u_Spec user) (u_Namespace user) w w3" by (rule kept_more[OF w2 t(1)]) (use t(2) in \<open>auto simp: list_all_iff harmless_def\<close>)
  show ?case
  proof (cases s)
    case (Inr user2)
    with 1(2) have u2: "u_Spec user2 = u_Spec user" "u_Namespace user2 = u_Namespace user"
        "ut_Phase (u_Status user2) \<noteq> UserPhaseReady" by auto
    have "wp (userOnCluster env user2 ref) (\<lambda>_. kept (u_Spec user) (u_Namespace user) w) w3" for ref
      using wp_userOnCluster[where user = user2 and ?w0.0 = w and w = w3 and es = "es @ fs" and env = env and ref = ref] w3 u2 t(1) t2(1) quiet by simp
    moreover have "wp (failMissingRef env user2) (\<lambda>_. kept (u_Spec user) (u_Namespace user) w) w3" by (rule kept_emits[OF emits_failMissingRef w3])
    ultimately show ?thesis by (simp add: Inr split: option.split)
  qed (use w3 in simp)
qed

lemma wp_User_Reconcile:
  assumes laws: "user_writes env" "finalizer_laws env"
    and got: "get_user env ns name (outside w) = (Inr user, o1)" and phase: "ut_Phase (u_Status user) \<noteq> UserPhaseReady"
  shows "wp (User_Reconcile env ns name) (\<lambda>_. kept (u_Spec user) (u_Namespace user) w) w"
proof -
  let ?K = "kept (u_Spec user) (u_Namespace user) w"
  let ?w1 = "w\<lparr>outside := o1, trace := trace w @ [Get KUser ns name]\<rparr>"
  have w1: "?K ?w1"
    by (rule kept_more[where w = w and es = "[Get KUser ns name]"]) simp_all
  have rest: "wp (case f of
        Inl err \<Rightarrow> return (no_requeue, Some (api_msg err))
      | Inr user1 \<Rightarrow> do {
          s \<leftarrow> initUserStatus env user1;
          (case s of
             Inl err \<Rightarrow> return (no_requeue, Some (api_msg err))
           | Inr user2 \<Rightarrow>
               (case us_CertificateRef (u_Spec user2) of
                  None \<Rightarrow> failMissingRef env user2
                | Some certRef \<Rightarrow> userOnCluster env user2 certRef))
        }) (\<lambda>_. ?K) w2"
    if "\<exists>es. trace w2 = trace ?w1 @ es \<and> list_all (\<lambda>e. \<exists>ns n. e = Update KUser ns n) es"
      and f: "\<And>u. f = Inr u \<Longrightarrow> same_user user u" for f w2
  proof -
    from that(1) obtain es where t: "trace w2 = trace ?w1 @ es" "list_all (\<lambda>e. \<exists>ns n. e = Update KUser ns n) es" by blast
    have w2: "?K w2" by (rule kept_more[OF w1 t(1)]) (use t(2) in \<open>auto simp: list_all_iff harmless_def\<close>)
    have "\<forall>d \<in> set (Get KUser ns name # es). riak_args d = []" using t(2) by (auto simp: list_all_iff)
    from wp_initialised_user[OF laws(1) phase _ this w2] show ?thesis
      using t(1) f w2 by (cases f) (auto simp del: riak_args_other)
  qed
  show ?thesis
    unfolding User_Reconcile_def wp_bind
    by (simp add: wp_effect got wp_if kept_emits[OF emits_finalizeUser w1])
      (intro impI wp_ensureUserFinalizer[OF laws] rest)
qed

lemma User_Reconcile_justified:
  assumes "user_writes env" "finalizer_laws env"
    and "get_user env ns name (outside w) = (Inr user, o1)" and "ut_Phase (u_Status user) \<noteq> UserPhaseReady"
  shows "justified (user_ok (u_Spec user) (u_Namespace user)) (emitted (User_Reconcile env ns name) w)"
  using wp_User_Reconcile[OF assms] by (auto simp: wp_def reached_def emitted_def split: prod.splits)




subsection \<open>Concrete users\<close>

definition issuer_cert :: UserCertificateRef where
  "issuer_cert = \<lparr>ucr_IssuerRef = Some \<lparr>ir_Name = ''ca'', ir_Kind = []\<rparr>, ucr_SecretName = [], ucr_ExternalSecretName = []\<rparr>"

definition secured_cluster :: RiakCluster where
  "secured_cluster = ready_cluster\<lparr>cl_Status := (cl_Status ready_cluster)\<lparr>clt_SecurityEnabled := True\<rparr>\<rparr>"

definition alice :: RiakUser where
  "alice = \<lparr>u_Meta = (new_meta ''alice'' ''ns'')\<lparr>m_Finalizers := [riakUserFinalizerName]\<rparr>,
     u_Spec = u_Spec (sample_user (Some issuer_cert) [\<lparr>g_Resource = ''any'', g_BucketName = [], g_Permission = ''read''\<rparr>]),
     u_Status = sample_ustatus\<lparr>ut_Phase := UserPhaseCreating\<rparr>\<rparr>"

text \<open>The user and its cluster exist, and \<^verbatim>\<open>kubectl\<close> answers every command with \<open>r\<close>.\<close>

definition user_env :: "RiakUser \<Rightarrow> RiakCluster \<Rightarrow> string res \<Rightarrow> unit env" where
  "user_env user cluster r = sample_env\<lparr>get_user := (\<lambda>ns n w. (Inr user, w)),
     get_cluster := (\<lambda>ns n w. (Inr cluster, w)), run_kubectl := (\<lambda>a w. (r, w))\<rparr>"

lemma user_env_laws: "user_writes (user_env u c r)" "finalizer_laws (user_env u c r)"
  by (auto simp: user_writes_def finalizer_laws_def user_env_def sample_env_def)

lemma user_env_alice:
  "get_user (user_env alice c r) ''ns'' ''alice'' (outside (start ())) = (Inr alice, ())"
  "ut_Phase (u_Status alice) \<noteq> UserPhaseReady" "u_Namespace alice = ''ns''" "us_ClusterName (u_Spec alice) = ''c''"
  by (simp_all add: user_env_def alice_def sample_user_def new_meta_def)

text \<open>What comes before the Riak side of the reconcile: the user, the cluster and the certificate.\<close>

definition before_riak :: "RiakCluster \<Rightarrow> unit world" where
  "before_riak c = \<lparr>outside = (), trace = [Get KUser ''ns'' ''alice'', GetCluster ''ns'' ''c'' (Inr c),
     Get KCertificate ''ns'' ''alice-client-tls'', Create KCertificate ''ns'' ''alice-client-tls'']\<rparr>"

lemma alice_meta: "u_Meta alice = (new_meta ''alice'' ''ns'')\<lparr>m_Finalizers := [riakUserFinalizerName]\<rparr>"
  by (simp add: alice_def)

lemma alice_reaches_riak:
  assumes "clt_Phase (cl_Status c) = PhaseReady"
  shows "run_state (User_Reconcile (user_env alice c r) ''ns'' ''alice'') (start ()) =
    run_state (secureAndProvision (user_env alice c r) alice issuer_cert c) (before_riak c)"
proof -
  have "run_state (reconcileUserCertificate (user_env alice c r) alice issuer_cert)
      \<lparr>outside = (), trace = [Get KUser ''ns'' ''alice'', GetCluster ''ns'' ''c'' (Inr c)]\<rparr> = (None, before_riak c)"
    by (simp add: reconcileUserCertificate_def issuer_cert_def user_env_def sample_env_def effect_def alice_meta
        new_meta_def before_riak_def userCertName_def Let_def)
  moreover have "us_CertificateRef (u_Spec alice) = Some issuer_cert" "ut_Phase (u_Status alice) \<noteq> []"
      "us_ClusterName (u_Spec alice) = ''c''"
    by (simp_all add: alice_def sample_user_def UserPhaseCreating_def)
  moreover have "ContainsFinalizer (user_env alice c r) (u_Meta alice) riakUserFinalizerName"
    by (simp add: user_env_def sample_env_def alice_meta)
  moreover have "m_DeletionTimestamp (u_Meta alice) = None" "u_Namespace alice = ''ns''"
    by (simp_all add: alice_meta new_meta_def)
  moreover have "get_user (user_env alice c r) ''ns'' ''alice'' () = (Inr alice, ())"
      "get_cluster (user_env alice c r) ''ns'' ''c'' () = (Inr c, ())"
    by (simp_all add: user_env_def)
  ultimately show ?thesis
    using assms
    by (simp add: User_Reconcile_def ensureUserFinalizer_def initUserStatus_def userOnCluster_def effect_def start_def Let_def)
qed

lemma alice_provisioned:
  "case rev (trace (snd (run_state (secureAndProvision (user_env alice secured_cluster (Inr ''ok'')) alice issuer_cert secured_cluster)
      (before_riak secured_cluster)))) of
     UserStatus u # _ \<Rightarrow> ut_Phase (u_Status u) = UserPhaseReady | _ \<Rightarrow> False"
  by code_simp



text \<open>A cluster without security whose nodes do not answer: enabling security is tried first, and fails.\<close>

lemma alice_enables:
  "map riak_args (emitted (User_Reconcile (user_env alice ready_cluster (Inl ''down'')) ''ns'' ''alice'') (start ())) =
    [[], [], [], [], [''security'', ''enable''], []]"
  by code_simp


subsection \<open>Deleting a user\<close>

text \<open>What lets a deleted user go: there is nothing to clean up, no way to, or it has been tried long enough.\<close>

definition may_go :: "RiakUser \<Rightarrow> event list \<Rightarrow> time \<Rightarrow> bool" where
  "may_go user pre now \<longleftrightarrow>
     \<not> ut_Created (u_Status user) \<or>
     (\<exists>m. GetCluster (u_Namespace user) (us_ClusterName (u_Spec user)) (Inl (NotFound m)) \<in> set pre) \<or>
     (\<exists>cl. GetCluster (u_Namespace user) (us_ClusterName (u_Spec user)) (Inr cl) \<in> set pre \<and>
        (m_DeletionTimestamp (cl_Meta cl) \<noteq> None \<or> clt_Phase (cl_Status cl) \<noteq> PhaseReady \<or> clt_Members (cl_Status cl) = [])) \<or>
     (\<exists>ns pod r. riak_cmd ns pod riakContainer [''security'', ''del-user'', us_Username (u_Spec user)] r \<in> set pre \<and>
        cmd_ok [''security'', ''del-user'', us_Username (u_Spec user)] (\<lambda>e. Contains e ''unknown_user'') r) \<or>
     (\<exists>t. m_DeletionTimestamp (u_Meta user) = Some t \<and> now - t > userDeleteGracePeriod)"

text \<open>The deletion as a whole: what it sends, and whether the finalizer goes.\<close>

text \<open>What holds a deletion back: the grace period, or an error of the lookup of the cluster.\<close>

definition held_back :: "RiakUser \<Rightarrow> event list \<Rightarrow> time \<Rightarrow> time \<Rightarrow> bool" where
  "held_back user es t now \<longleftrightarrow> now - t \<le> userDeleteGracePeriod \<or>
     (\<exists>m. GetCluster (u_Namespace user) (us_ClusterName (u_Spec user)) (Inl m) \<in> set es \<and> \<not> IsNotFound m)"

text \<open>The answer of a cleanup that has emitted \<open>es\<close>, the clock reading between \<open>t0\<close> and \<open>t1\<close>.\<close>

definition cleaned :: "RiakUser \<Rightarrow> time \<Rightarrow> time \<Rightarrow> time \<Rightarrow> event list \<Rightarrow> error option \<Rightarrow> bool" where
  "cleaned user t t0 t1 es r \<longleftrightarrow> list_all (\<lambda>e. is_read e \<or> is_exec e) es \<and>
     (case r of None \<Rightarrow> may_go user es t1 | Some _ \<Rightarrow> held_back user es t t0)"

lemma wp_grace:
  assumes clock: "\<And>o'. t0 \<le> fst (time_now env o') \<and> fst (time_now env o') \<le> t1"
    and del: "m_DeletionTimestamp (u_Meta user) = Some t"
    and Q: "\<And>w' r. trace w' = trace w \<Longrightarrow> (case r of None \<Rightarrow> t1 - t > userDeleteGracePeriod | Some _ \<Rightarrow> t0 - t \<le> userDeleteGracePeriod) \<Longrightarrow> Q r w'"
  shows "wp (Now env) (\<lambda>now. wp (return (if now - (case m_DeletionTimestamp (u_Meta user) of Some t \<Rightarrow> t | None \<Rightarrow> 0) >
      userDeleteGracePeriod then None else Some e)) Q) w"
proof -
  obtain now o' where now: "time_now env (outside w) = (now, o')" by fastforce
  have "t0 \<le> now" "now \<le> t1" using clock[of "outside w"] now by simp_all
  then show ?thesis using Q[of "w\<lparr>outside := o'\<rparr>"] by (auto simp: wp_Now now del)
qed

lemma wp_ask_deletion:
  assumes clock: "\<And>o'. t0 \<le> fst (time_now env o') \<and> fst (time_now env o') \<le> t1"
    and del: "m_DeletionTimestamp (u_Meta user) = Some t"
    and Q: "\<And>w' r fs. trace w' = trace w @ fs \<Longrightarrow> cleaned user t t0 t1 (e0 # fs) r \<Longrightarrow> Q r w'" and e0: "is_read e0"
  shows "wp (Manager_DeleteUser env cluster (us_Username (u_Spec user)) \<bind> (\<lambda>err. case err of
      None \<Rightarrow> return None
    | Some e \<Rightarrow> Now env \<bind> (\<lambda>now. return (if now - (case m_DeletionTimestamp (u_Meta user) of Some t \<Rightarrow> t | None \<Rightarrow> 0) >
        userDeleteGracePeriod then None else Some e)))) Q w"
proof -
  let ?args = "[''security'', ''del-user'', us_Username (u_Spec user)]"
  have late: "wp (Now env) (\<lambda>now. wp (return (if now - (case m_DeletionTimestamp (u_Meta user) of Some t \<Rightarrow> t | None \<Rightarrow> 0) >
      userDeleteGracePeriod then None else Some e)) Q) w1"
    if "trace w1 = trace w @ fs" "list_all is_exec fs" for w1 fs e
    by (rule wp_grace[OF clock del], rule Q[of _ fs])
      (use that e0 del in \<open>auto simp: cleaned_def may_go_def held_back_def list_all_iff split: option.splits\<close>)
  show ?thesis
    unfolding wp_bind
  proof (rule wp_Manager_DeleteUser, goal_cases)
    case (1 e)
    show ?case unfolding option.case wp_bind by (rule late[of _ "[]"]) simp_all
  next
    case (2 m ms e r w1)
    show ?case unfolding option.case wp_bind by (rule late[OF 2(2)]) simp
  next
    case (3 m ms r w1)
    let ?cmd = "riak_cmd (cl_Namespace cluster) (nm_Pod m) riakContainer ?args r"
    have "may_go user [e0, ?cmd] t1" unfolding may_go_def using 3(3) by (meson list.set_intros)
    then show ?case
      unfolding option.case wp_return using Q[OF 3(2)] e0 by (simp add: cleaned_def)
  qed
qed

lemma wp_deleteRiakUser:
  assumes clock: "\<And>o'. t0 \<le> fst (time_now env o') \<and> fst (time_now env o') \<le> t1"
    and del: "m_DeletionTimestamp (u_Meta user) = Some t"
    and Q: "\<And>w' r es. trace w' = trace w @ es \<Longrightarrow> cleaned user t t0 t1 es r \<Longrightarrow> Q r w'"
  shows "wp (deleteRiakUser env user) Q w"
proof (cases "ut_Created (u_Status user)")
  case False
  then show ?thesis using Q[of w "[]" None] by (simp add: deleteRiakUser_def cleaned_def may_go_def)
next
  case True
  let ?get = "GetCluster (u_Namespace user) (us_ClusterName (u_Spec user))"
  show ?thesis
    unfolding deleteRiakUser_def Let_def wp_bind if_not_P[OF not_not[THEN iffD2, OF True]]
  proof (rule wp_effect_any, goal_cases)
    case (1 g w1)
    have stop: "Q r w1" if "cleaned user t t0 t1 [?get g] r" for r by (rule Q[OF 1 that])
    show ?case
    proof (cases g)
      case (Inl err)
      have "cleaned user t t0 t1 [?get g] (IgnoreNotFound err)"
        unfolding Inl by (cases err) (simp_all add: cleaned_def may_go_def held_back_def IgnoreNotFound_def)
      with Inl stop show ?thesis by simp
    next
      case (Inr cluster)
      show ?thesis
      proof (cases "m_DeletionTimestamp (cl_Meta cluster) \<noteq> None \<or> clt_Phase (cl_Status cluster) \<noteq> PhaseReady \<or>
          clt_Members (cl_Status cluster) = []")
        case True
        then have "cleaned user t t0 t1 [?get g] None" unfolding Inr by (auto simp: cleaned_def may_go_def)
        with True Inr stop show ?thesis by simp
      next
        case False
        have more: "Q r w2" if "trace w2 = trace w1 @ fs" "cleaned user t t0 t1 (?get g # fs) r" for r w2 fs
          by (rule Q[OF _ that(2)]) (simp add: that(1) 1)
        have get: "is_read (?get g)" by simp
        show ?thesis
          unfolding Inr sum.case if_not_P[OF False] by (rule wp_ask_deletion[OF clock del more get])
      qed
    qed
  qed
qed

lemma wp_User_deletion:
  assumes clock: "\<And>o'. t0 \<le> fst (time_now env o') \<and> fst (time_now env o') \<le> t1"
    and got: "get_user env ns name (outside w) = (Inr user, o1)" and del: "m_DeletionTimestamp (u_Meta user) = Some t"
    and fin: "ContainsFinalizer env (u_Meta user) riakUserFinalizerName"
  shows "wp (User_Reconcile env ns name) (\<lambda>r. reached w (\<lambda>es. \<exists>mid. list_all (\<lambda>e. is_read e \<or> is_exec e) mid \<and>
      (es = mid @ [Update KUser (u_Namespace user) (u_Name user)] \<and> may_go user mid t1 \<or>
       es = mid \<and> r = (requeue (10 * Second), None) \<and> held_back user mid t t0))) w"
proof -
  have more: "may_go user es t1 \<Longrightarrow> may_go user (e # es) t1" "held_back user es t t0 \<Longrightarrow> held_back user (e # es) t t0" for e es
    by (auto simp: may_go_def held_back_def)
  show ?thesis
    unfolding User_Reconcile_def wp_bind finalizeUser_def
    apply (simp only: wp_effect got prod.case sum.case del option.distinct not_False_eq_True if_True fin wp_bind)
  proof (rule wp_deleteRiakUser[OF clock del], goal_cases)
    case (1 w' r es)
    show ?case
    proof (cases r)
      case None
      with 1(2) have "may_go user (Get KUser ns name # es) t1" by (simp add: cleaned_def more)
      with None 1 show ?thesis
        unfolding None option.case wp_bind
        by (intro wp_effect_any) (auto simp: reached_def cleaned_def intro!: exI[of _ "Get KUser ns name # es"])
    next
      case (Some e)
      with 1 show ?thesis
        by (auto simp: reached_def cleaned_def more intro!: exI[of _ "Get KUser ns name # es"])
    qed
  qed
qed

lemma User_deletion_cases:
  assumes "\<And>o'. t0 \<le> fst (time_now env o') \<and> fst (time_now env o') \<le> t1"
    and "get_user env ns name (outside w) = (Inr user, o1)" and "m_DeletionTimestamp (u_Meta user) = Some t"
    and "ContainsFinalizer env (u_Meta user) riakUserFinalizerName" and "run_state (User_Reconcile env ns name) w = (r, w')"
  obtains mid where "list_all (\<lambda>e. is_read e \<or> is_exec e) mid"
      "emitted (User_Reconcile env ns name) w = mid @ [Update KUser (u_Namespace user) (u_Name user)]" "may_go user mid t1"
  | mid where "list_all (\<lambda>e. is_read e \<or> is_exec e) mid" "emitted (User_Reconcile env ns name) w = mid"
      "r = (requeue (10 * Second), None)"
      "held_back user mid t t0"
  using wp_emitted(1)[OF wp_User_deletion[OF assms(1-4)] assms(5)] by blast

text \<open>
  C19: a deleted user's finalizer goes only when nothing is left to clean up or the cleanup cannot be done. When a reconcile of a
  user under deletion writes the user, the reads and commands before show one of: the user was never marked as
  created; its cluster is gone; its cluster is being deleted, is not ready, or has no members; \<^verbatim>\<open>del-user\<close> succeeded, or
  failed because Riak does not know the user; or the deletion is older than the grace period of two minutes.
\<close>

theorem User_deletion_cleans_up:
  assumes "\<And>o'. t0 \<le> fst (time_now env o') \<and> fst (time_now env o') \<le> t1"
    and "get_user env ns name (outside w) = (Inr user, o1)" and "m_DeletionTimestamp (u_Meta user) = Some t"
    and "ContainsFinalizer env (u_Meta user) riakUserFinalizerName"
    and "emitted (User_Reconcile env ns name) w = pre @ Update KUser ns' name' # post"
  shows "may_go user pre t1 \<and> post = []"
proof -
  obtain r w' where run: "run_state (User_Reconcile env ns name) w = (r, w')" by fastforce
  from assms(1-4) run show ?thesis
  proof (rule User_deletion_cases, goal_cases)
    case (1 mid)
    have "Update KUser ns' name' \<notin> set mid" using 1(1) by (auto simp: list_all_iff)
    with 1(2,3) assms(5) show ?thesis
      by (auto simp: append_eq_append_conv2 append_eq_Cons_conv Cons_eq_append_conv)
  next
    case (2 mid)
    then show ?thesis using assms(5) by auto
  qed
qed


text \<open>A provisioned user under deletion, on a cluster that never answers: kept within the grace period, let go after it.\<close>

definition leaving :: RiakUser where
  "leaving = alice\<lparr>u_Meta := (u_Meta alice)\<lparr>m_DeletionTimestamp := Some 0\<rparr>, u_Status := (u_Status alice)\<lparr>ut_Created := True\<rparr>\<rparr>"

definition leaving_env :: "time \<Rightarrow> string res \<Rightarrow> unit env" where
  "leaving_env now r = (user_env leaving secured_cluster r)\<lparr>time_now := (\<lambda>w. (now, w))\<rparr>"

lemma leaving_simps:
  "get_user (leaving_env now r) ''ns'' ''alice'' (outside (start ())) = (Inr leaving, ())"
  "m_DeletionTimestamp (u_Meta leaving) = Some 0"
  "ContainsFinalizer (leaving_env now r) (u_Meta leaving) riakUserFinalizerName"
  "u_Namespace leaving = ''ns''" "u_Name leaving = ''alice''" "us_ClusterName (u_Spec leaving) = ''c''"
  "now \<le> fst (time_now (leaving_env now r) o') \<and> fst (time_now (leaving_env now r) o') \<le> now"
  by (simp_all add: leaving_env_def leaving_def user_env_def sample_env_def alice_def sample_user_def new_meta_def)

lemma leaving_deleted:
  "emitted (User_Reconcile (leaving_env 0 (Inr ''ok'')) ''ns'' ''alice'') (start ()) =
    [Get KUser ''ns'' ''alice'', GetCluster ''ns'' ''c'' (Inr secured_cluster),
     riak_cmd ''ns'' (nm_Pod (hd (clt_Members (cl_Status secured_cluster)))) riakContainer [''security'', ''del-user'', ''alice''] (Inr ''ok''),
     Update KUser ''ns'' ''alice'']"
  by code_simp

lemma leaving_stuck:
  "emitted (User_Reconcile (leaving_env (3 * Minute) (Inl ''down'')) ''ns'' ''alice'') (start ()) =
    [Get KUser ''ns'' ''alice'', GetCluster ''ns'' ''c'' (Inr secured_cluster),
     riak_cmd ''ns'' (nm_Pod (hd (clt_Members (cl_Status secured_cluster)))) riakContainer [''security'', ''del-user'', ''alice''] (Inl ''down''),
     Update KUser ''ns'' ''alice'']"
  by code_simp

theorem User_deletion_cleans_up_witness:
  "may_go leaving [Get KUser ''ns'' ''alice'', GetCluster ''ns'' ''c'' (Inr secured_cluster),
     riak_cmd ''ns'' (nm_Pod (hd (clt_Members (cl_Status secured_cluster)))) riakContainer [''security'', ''del-user'', ''alice''] (Inr ''ok'')] 0"
  using User_deletion_cleans_up[where t = 0 and ?t0.0 = 0 and ?t1.0 = 0 and env = "leaving_env 0 (Inr ''ok'')" and ns = "''ns''" and
      name = "''alice''" and w = "start ()" and ns' = "''ns''" and name' = "''alice''" and post = "[]"]
    leaving_simps leaving_deleted by simp


text \<open>A cluster that accepts everything but grants.\<close>

definition no_grants_env :: "RiakUser \<Rightarrow> unit env" where
  "no_grants_env user = (user_env user secured_cluster (Inr ''ok''))\<lparr>
     run_kubectl := (\<lambda>a w. (if ''grant'' \<in> set a then Inl ''down'' else Inr ''ok'', w))\<rparr>"


end
