(* ===== verification/Monitoring.thy ===== *)
theory Monitoring
  imports User_Controller
begin

text \<open>
  Monitoring (\<^verbatim>\<open>internal/controller/monitoring.go\<close>): the exporter sidecar and its configuration, and the
  PodMonitor or ServiceMonitor of a cluster. The group-version-kind of a monitor is its object
  kind here.
\<close>

definition riakMetricsPortName :: string where "riakMetricsPortName = ''metrics''"
definition riakMetricsPort :: int where "riakMetricsPort = 7979"
definition exporterContainerName :: string where "exporterContainerName = ''metrics-exporter''"
definition defaultExporterImage :: string where
  "defaultExporterImage = ''quay.io/prometheuscommunity/json-exporter:v0.6.0''"
definition riakStatsURL :: string where "riakStatsURL = ''http://127.0.0.1:8098/stats''"

definition monitoringEnabled :: "RiakCluster \<Rightarrow> bool" where
  "monitoringEnabled cluster = (case cls_Monitoring (cl_Spec cluster) of None \<Rightarrow> False | Some m \<Rightarrow> mc_Enabled m)"

definition exporterConfigMapName :: "string \<Rightarrow> string" where
  "exporterConfigMapName clusterName = clusterName @ ''-metrics-exporter''"

definition metric :: "string \<Rightarrow> string \<Rightarrow> string \<Rightarrow> string" where
  "metric name path help =
     ''      - name: '' @ name @ [NL] @
     ''        path: '' @ [CHR 0x22] @ ''{.'' @ path @ ''}'' @ [CHR 0x22, NL] @
     ''        help: '' @ help @ [NL]"

definition exporterConfig :: string where
  "exporterConfig = ''modules:'' @ [NL] @ ''  riak:'' @ [NL] @ ''    metrics:'' @ [NL] @
     metric ''riak_node_gets'' ''node_gets'' ''GETs coordinated by this node in the last minute'' @
     metric ''riak_node_gets_total'' ''node_gets_total'' ''Total GETs coordinated by this node'' @
     metric ''riak_node_puts'' ''node_puts'' ''PUTs coordinated by this node in the last minute'' @
     metric ''riak_node_puts_total'' ''node_puts_total'' ''Total PUTs coordinated by this node'' @
     metric ''riak_node_get_fsm_time_mean'' ''node_get_fsm_time_mean'' ''Mean GET latency (microseconds) over the last minute'' @
     metric ''riak_node_get_fsm_time_median'' ''node_get_fsm_time_median'' ''Median GET latency (microseconds) over the last minute'' @
     metric ''riak_node_get_fsm_time_95'' ''node_get_fsm_time_95'' ''95th percentile GET latency (microseconds) over the last minute'' @
     metric ''riak_node_get_fsm_time_99'' ''node_get_fsm_time_99'' ''99th percentile GET latency (microseconds) over the last minute'' @
     metric ''riak_node_get_fsm_time_100'' ''node_get_fsm_time_100'' ''Maximum GET latency (microseconds) over the last minute'' @
     metric ''riak_node_put_fsm_time_mean'' ''node_put_fsm_time_mean'' ''Mean PUT latency (microseconds) over the last minute'' @
     metric ''riak_node_put_fsm_time_median'' ''node_put_fsm_time_median'' ''Median PUT latency (microseconds) over the last minute'' @
     metric ''riak_node_put_fsm_time_95'' ''node_put_fsm_time_95'' ''95th percentile PUT latency (microseconds) over the last minute'' @
     metric ''riak_node_put_fsm_time_99'' ''node_put_fsm_time_99'' ''99th percentile PUT latency (microseconds) over the last minute'' @
     metric ''riak_node_put_fsm_time_100'' ''node_put_fsm_time_100'' ''Maximum PUT latency (microseconds) over the last minute'' @
     metric ''riak_vnode_gets'' ''vnode_gets'' ''vnode GET operations in the last minute'' @
     metric ''riak_vnode_gets_total'' ''vnode_gets_total'' ''Total vnode GET operations'' @
     metric ''riak_vnode_puts'' ''vnode_puts'' ''vnode PUT operations in the last minute'' @
     metric ''riak_vnode_puts_total'' ''vnode_puts_total'' ''Total vnode PUT operations'' @
     metric ''riak_read_repairs'' ''read_repairs'' ''Read repairs in the last minute'' @
     metric ''riak_read_repairs_total'' ''read_repairs_total'' ''Total read repairs'' @
     metric ''riak_coord_redirs_total'' ''coord_redirs_total'' ''Total coordinator redirects to other nodes'' @
     metric ''riak_pbc_active'' ''pbc_active'' ''Active protocol buffers connections'' @
     metric ''riak_pbc_connects_total'' ''pbc_connects_total'' ''Total protocol buffers connections'' @
     metric ''riak_node_get_fsm_objsize_99'' ''node_get_fsm_objsize_99'' ''99th percentile object size (bytes) fetched in the last minute'' @
     metric ''riak_memory_processes'' ''memory_processes'' ''Memory (bytes) used by Erlang processes'' @
     metric ''riak_memory_system'' ''memory_system'' ''Memory (bytes) allocated by the Erlang VM'' @
     metric ''riak_sys_process_count'' ''sys_process_count'' ''Number of Erlang processes'' @
     metric ''riak_ring_num_partitions'' ''ring_num_partitions'' ''Ring size''"

definition customMetricsConfig :: "RiakCluster \<Rightarrow> KeySelector option" where
  "customMetricsConfig cluster =
     (case cls_Monitoring (cl_Spec cluster) of
        None \<Rightarrow> None
      | Some m \<Rightarrow> map_option mcs_ConfigMapKeyRef (mc_MetricsConfig m))"

definition mutate_exporter_configmap :: "'w env \<Rightarrow> RiakCluster \<Rightarrow> ConfigMap \<Rightarrow> ConfigMap res" where
  "mutate_exporter_configmap env cluster cm =
     map_sum id (\<lambda>m. cm\<lparr>cm_Data := [(''config.yml'', exporterConfig)], cm_Meta := m\<rparr>)
       (SetControllerReference env (cl_Meta cluster) (cm_Meta cm))"

definition reconcileMonitoringConfigMap :: "'w env \<Rightarrow> RiakCluster \<Rightarrow> ('w, error option) action" where
  "reconcileMonitoringConfigMap env cluster = do {
     let ns = cl_Namespace cluster;
     let own = exporterConfigMapName (cl_Name cluster);
     (case customMetricsConfig cluster of
        Some ref \<Rightarrow> do {
          g \<leftarrow> effect (\<lambda>_. Get KConfigMap ns (ks_Name ref)) (get_configmap env ns (ks_Name ref));
          (case g of
             Inl err \<Rightarrow> return (Some (if IsNotFound err
               then ''spec.monitoring.metricsConfig: ConfigMap '' @ Quote (ks_Name ref) @ '' not found''
               else api_msg err))
           | Inr cm \<Rightarrow>
               if map_of (cm_Data cm) (ks_Key ref) = None \<and> map_of (cm_BinaryData cm) (ks_Key ref) = None
               then return (Some (''spec.monitoring.metricsConfig: ConfigMap '' @ Quote (ks_Name ref) @
                 '' has no key '' @ Quote (ks_Key ref)))
               else do {
                 d \<leftarrow> effect (\<lambda>_. Delete KConfigMap ns own) (delete_obj env KConfigMap ns own);
                 return (Option.bind d IgnoreNotFound)
               })
        }
      | None \<Rightarrow> do {
          r \<leftarrow> effect (\<lambda>_. CreateOrUpdate KConfigMap ns own)
            (cou_configmap env \<lparr>cm_Meta = new_meta own ns, cm_Data = [], cm_BinaryData = []\<rparr>
              (mutate_exporter_configmap env cluster));
          return (map_option api_msg r)
        })
   }"

definition exporterContainer :: "'w env \<Rightarrow> RiakCluster \<Rightarrow> MonitoringConfig \<Rightarrow> Container" where
  "exporterContainer env cluster mon = empty_container\<lparr>
     ct_Name := exporterContainerName,
     ct_Image := (if mc_ExporterImage mon = [] then defaultExporterImage else mc_ExporterImage mon),
     ct_Args := [''--config.file=/config/config.yml''],
     ct_Ports := [\<lparr>cp_Name = riakMetricsPortName, cp_ContainerPort = riakMetricsPort, cp_Protocol = ''TCP''\<rparr>],
     ct_VolumeMounts := [\<lparr>vm_Name = ''metrics-exporter-config'', vm_MountPath = ''/config'', vm_ReadOnly = True\<rparr>],
     ct_ReadinessProbe := Some \<lparr>pr_TCPPort = FromInt32 riakMetricsPort, pr_InitialDelaySeconds = 5,
       pr_PeriodSeconds = 10, pr_TimeoutSeconds = 0, pr_FailureThreshold = 0\<rparr>,
     ct_Resources := \<lparr>
       rr_Requests = [(''cpu'', MustParse env ''10m''), (''memory'', MustParse env ''32Mi'')],
       rr_Limits = [(''cpu'', MustParse env ''100m''), (''memory'', MustParse env ''64Mi'')]\<rparr>\<rparr>"

definition exporterConfigVolume :: "RiakCluster \<Rightarrow> Volume" where
  "exporterConfigVolume cluster = \<lparr>v_Name = ''metrics-exporter-config'', v_Source =
     (case customMetricsConfig cluster of
        None \<Rightarrow> ConfigMapVolume (exporterConfigMapName (cl_Name cluster)) []
      | Some ref \<Rightarrow> ConfigMapVolume (ks_Name ref) [\<lparr>kp_Key = ks_Key ref, kp_Path = ''config.yml''\<rparr>])\<rparr>"

definition scrapeKind :: "RiakCluster \<Rightarrow> string" where
  "scrapeKind cluster =
     (case cls_Monitoring (cl_Spec cluster) of
        None \<Rightarrow> ScrapeKindPodMonitor
      | Some m \<Rightarrow> if mc_ScrapeKind m = [] then ScrapeKindPodMonitor else mc_ScrapeKind m)"

definition scrapeObjectName :: "RiakCluster \<Rightarrow> string" where
  "scrapeObjectName cluster = cl_Name cluster @ ''-metrics''"

definition exporterEndpoint :: uval where
  "exporterEndpoint = UMap [
     (''port'', UStr riakMetricsPortName),
     (''path'', UStr ''/probe''),
     (''params'', UMap [(''module'', UList [UStr ''riak'']), (''target'', UList [UStr riakStatsURL])]),
     (''interval'', UStr ''30s'')]"

definition mutate_monitor :: "'w env \<Rightarrow> RiakCluster \<Rightarrow> kind \<Rightarrow> string \<Rightarrow> Monitor \<Rightarrow> Monitor res" where
  "mutate_monitor env cluster gvk endpointsField obj =
     map_sum id (\<lambda>m. obj\<lparr>mon_Meta := m, mon_Spec := UMap [
         (''selector'', UMap [(''matchLabels'', UMap [(''app'', UStr ''riak''), (''cluster'', UStr (cl_Name cluster))])]),
         (endpointsField, UList [exporterEndpoint]),
         ((if gvk = KPodMonitor then ''podTargetLabels'' else ''targetLabels''), UList [UStr ''cluster''])]\<rparr>)
       (SetControllerReference env (cl_Meta cluster) (mon_Meta obj))"

definition reconcileMonitor :: "'w env \<Rightarrow> RiakCluster \<Rightarrow> kind \<Rightarrow> string \<Rightarrow> ('w, error option) action" where
  "reconcileMonitor env cluster gvk endpointsField = do {
     let ns = cl_Namespace cluster;
     let name = scrapeObjectName cluster;
     r \<leftarrow> effect (\<lambda>_. CreateOrUpdate gvk ns name)
       (cou_monitor env gvk \<lparr>mon_Meta = new_meta name ns, mon_Spec = UMap []\<rparr>
         (mutate_monitor env cluster gvk endpointsField));
     return (case r of
         None \<Rightarrow> None
       | Some err \<Rightarrow> if IsNoMatchError err then None else Some (api_msg err))
   }"

definition reconcileServiceMonitor :: "'w env \<Rightarrow> RiakCluster \<Rightarrow> ('w, error option) action" where
  "reconcileServiceMonitor env cluster = reconcileMonitor env cluster KServiceMonitor ''endpoints''"

definition reconcilePodMonitor :: "'w env \<Rightarrow> RiakCluster \<Rightarrow> ('w, error option) action" where
  "reconcilePodMonitor env cluster = reconcileMonitor env cluster KPodMonitor ''podMetricsEndpoints''"

definition deleteMonitor :: "'w env \<Rightarrow> RiakCluster \<Rightarrow> kind \<Rightarrow> ('w, error option) action" where
  "deleteMonitor env cluster gvk = do {
     let ns = cl_Namespace cluster;
     let name = scrapeObjectName cluster;
     r \<leftarrow> effect (\<lambda>_. Delete gvk ns name) (delete_obj env gvk ns name);
     return (case r of
         None \<Rightarrow> None
       | Some err \<Rightarrow> if IsNotFound err \<or> IsNoMatchError err then None else Some (api_msg err))
   }"

definition reconcileScrapeObject :: "'w env \<Rightarrow> RiakCluster \<Rightarrow> ('w, error option) action" where
  "reconcileScrapeObject env cluster =
     (if scrapeKind cluster = ScrapeKindServiceMonitor then do {
        err \<leftarrow> reconcileServiceMonitor env cluster;
        (case err of None \<Rightarrow> deleteMonitor env cluster KPodMonitor | Some e \<Rightarrow> return (Some e))
      }
      else if scrapeKind cluster = ScrapeKindNone then do {
        err \<leftarrow> deleteMonitor env cluster KServiceMonitor;
        (case err of None \<Rightarrow> deleteMonitor env cluster KPodMonitor | Some e \<Rightarrow> return (Some e))
      }
      else do {
        err \<leftarrow> reconcilePodMonitor env cluster;
        (case err of None \<Rightarrow> deleteMonitor env cluster KServiceMonitor | Some e \<Rightarrow> return (Some e))
      })"

definition monitoringSidecars :: "'w env \<Rightarrow> RiakCluster \<Rightarrow> Container list" where
  "monitoringSidecars env cluster =
     (case cls_Monitoring (cl_Spec cluster) of
        Some mon \<Rightarrow> if mc_Enabled mon then [exporterContainer env cluster mon] else []
      | None \<Rightarrow> [])"

subsection \<open>One scrape object at a time\<close>

text \<open>The kinds of scrape object a cluster wants, and those it must not keep.\<close>

definition wanted :: "RiakCluster \<Rightarrow> kind list" where
  "wanted cluster =
     (if scrapeKind cluster = ScrapeKindServiceMonitor then [KServiceMonitor]
      else if scrapeKind cluster = ScrapeKindNone then [] else [KPodMonitor])"

definition unwanted :: "RiakCluster \<Rightarrow> kind list" where
  "unwanted cluster = filter (\<lambda>k. k \<notin> set (wanted cluster)) [KServiceMonitor, KPodMonitor]"

definition scrape_writes :: "RiakCluster \<Rightarrow> event list" where
  "scrape_writes cluster =
     map (\<lambda>k. CreateOrUpdate k (cl_Namespace cluster) (scrapeObjectName cluster)) (wanted cluster) @
     map (\<lambda>k. Delete k (cl_Namespace cluster) (scrapeObjectName cluster)) (unwanted cluster)"

lemma wp_reconcileMonitor:
  "(\<And>r w'. trace w' = trace w @ [CreateOrUpdate k (cl_Namespace cluster) (scrapeObjectName cluster)] \<Longrightarrow> Q r w') \<Longrightarrow>
    wp (reconcileMonitor env cluster k f) Q w"
  unfolding reconcileMonitor_def Let_def wp_bind wp_return by (rule wp_effect_any)

lemma wp_deleteMonitor:
  "(\<And>r w'. trace w' = trace w @ [Delete k (cl_Namespace cluster) (scrapeObjectName cluster)] \<Longrightarrow> Q r w') \<Longrightarrow>
    wp (deleteMonitor env cluster k) Q w"
  unfolding deleteMonitor_def Let_def wp_bind wp_return by (rule wp_effect_any)

lemma ScrapeKind_distinct [simp]: "ScrapeKindNone \<noteq> ScrapeKindServiceMonitor"
  by (simp add: ScrapeKindNone_def ScrapeKindServiceMonitor_def)

text \<open>Two writes, the second only when the first returned no error.\<close>

lemma wp_two_writes:
  assumes "\<And>Q w. (\<And>r w'. trace w' = trace w @ [a] \<Longrightarrow> Q r w') \<Longrightarrow> wp m Q w"
    and "\<And>Q w. (\<And>r w'. trace w' = trace w @ [b] \<Longrightarrow> Q r w') \<Longrightarrow> wp n Q w"
  shows "wp (do {err \<leftarrow> m; (case err of None \<Rightarrow> n | Some e \<Rightarrow> return (Some e))})
    (\<lambda>r. reached w0 (\<lambda>es. if r = None then es = [a, b] else es = [a] \<or> es = [a, b])) w0"
  unfolding wp_bind
proof (rule assms(1), goal_cases)
  case (1 err w1)
  show ?case
  proof (cases err)
    case None
    show ?thesis unfolding None option.case by (rule assms(2)) (simp add: reached_def 1)
  qed (simp add: reached_def 1)
qed

text \<open>The two writes of a run, by the kind of scrape object that is configured.\<close>

lemma wp_reconcileScrapeObject:
  "\<exists>a b. scrape_writes cluster = [a, b] \<and>
    wp (reconcileScrapeObject env cluster) (\<lambda>r. reached w (\<lambda>es. if r = None then es = [a, b] else es = [a] \<or> es = [a, b])) w"
proof -
  let ?c = "\<lambda>k. CreateOrUpdate k (cl_Namespace cluster) (scrapeObjectName cluster)"
  let ?d = "\<lambda>k. Delete k (cl_Namespace cluster) (scrapeObjectName cluster)"
  consider (sm) "scrapeKind cluster = ScrapeKindServiceMonitor"
    | (none) "scrapeKind cluster \<noteq> ScrapeKindServiceMonitor" "scrapeKind cluster = ScrapeKindNone"
    | (pm) "scrapeKind cluster \<noteq> ScrapeKindServiceMonitor" "scrapeKind cluster \<noteq> ScrapeKindNone" by blast
  then show ?thesis
  proof cases
    case sm
    then have "scrape_writes cluster = [?c KServiceMonitor, ?d KPodMonitor]"
      by (simp add: scrape_writes_def wanted_def unwanted_def)
    moreover have "wp (reconcileScrapeObject env cluster)
        (\<lambda>r. reached w (\<lambda>es. if r = None then es = [?c KServiceMonitor, ?d KPodMonitor] else es = [?c KServiceMonitor] \<or> es = [?c KServiceMonitor, ?d KPodMonitor])) w"
      unfolding reconcileScrapeObject_def if_P[OF sm] reconcileServiceMonitor_def
      by (rule wp_two_writes) (erule wp_reconcileMonitor wp_deleteMonitor)+
    ultimately show ?thesis by blast
  next
    case none
    then have "scrape_writes cluster = [?d KServiceMonitor, ?d KPodMonitor]"
      by (simp add: scrape_writes_def wanted_def unwanted_def)
    moreover have "wp (reconcileScrapeObject env cluster)
        (\<lambda>r. reached w (\<lambda>es. if r = None then es = [?d KServiceMonitor, ?d KPodMonitor] else es = [?d KServiceMonitor] \<or> es = [?d KServiceMonitor, ?d KPodMonitor])) w"
      unfolding reconcileScrapeObject_def if_not_P[OF none(1)] if_P[OF none(2)]
      by (rule wp_two_writes) (erule wp_deleteMonitor)+
    ultimately show ?thesis by blast
  next
    case pm
    then have "scrape_writes cluster = [?c KPodMonitor, ?d KServiceMonitor]"
      by (simp add: scrape_writes_def wanted_def unwanted_def)
    moreover have "wp (reconcileScrapeObject env cluster)
        (\<lambda>r. reached w (\<lambda>es. if r = None then es = [?c KPodMonitor, ?d KServiceMonitor] else es = [?c KPodMonitor] \<or> es = [?c KPodMonitor, ?d KServiceMonitor])) w"
      unfolding reconcileScrapeObject_def if_not_P[OF pm(1)] if_not_P[OF pm(2)] reconcilePodMonitor_def
      by (rule wp_two_writes) (erule wp_reconcileMonitor wp_deleteMonitor)+
    ultimately show ?thesis by blast
  qed
qed



end
