(* ===== verification/Cluster_Controller.thy ===== *)
theory Cluster_Controller
  imports Monitoring "HOL-Library.Multiset"
begin

text \<open>
  The RiakCluster controller (\<^verbatim>\<open>internal/controller/riakcluster_controller.go\<close>): one reconcile of a
  cluster, from its certificate to its status, with the StatefulSet and Services it writes.
  A cluster mutated in place is returned with the result. Logging, metrics and the
  registration with the controller manager are not modelled.
\<close>

definition riakClusterFinalizerName :: string where
  "riakClusterFinalizerName = ''riak.openriak.io/cluster-finalizer''"
definition defaultRiakImage :: string where "defaultRiakImage = ''ghcr.io/marthydavid/riak:3.2.6''"
definition defaultStorageSize :: string where "defaultStorageSize = ''10Gi''"

subsection \<open>The certificate\<close>

definition reconcileTLSCertificate :: "'w env \<Rightarrow> RiakCluster \<Rightarrow> ('w, error option) action" where
  "reconcileTLSCertificate env cluster =
     (case cls_TLS (cl_Spec cluster) of
        None \<Rightarrow> return None
      | Some tls \<Rightarrow>
          if \<not> tls_Enabled tls then return None
          else (case tls_CertManager tls of
             None \<Rightarrow> return (Some ''spec.tls.certManager.issuerName must be set when tls.enabled is true'')
           | Some cm \<Rightarrow>
               if cmc_IssuerName cm = []
               then return (Some ''spec.tls.certManager.issuerName must be set when tls.enabled is true'')
               else (case SetControllerReferenceU env (cl_Meta cluster) (buildClusterCertificate cluster cm) of
                  Inl e \<Rightarrow> return (Some (''setting controller reference on TLS certificate: '' @ e))
                | Inr cert \<Rightarrow> do {
                    let ns = cl_Namespace cluster;
                    let name = clusterCertName (cl_Name cluster);
                    g \<leftarrow> effect (\<lambda>_. Get KCertificate ns name) (get_cert env ns name);
                    (case g of
                       Inl err \<Rightarrow>
                         if IsNotFound err then do {
                           r \<leftarrow> effect (\<lambda>_. Create KCertificate ns name) (create_cert env cert);
                           return (map_option api_msg r)
                         }
                         else return (Some (api_msg err))
                     | Inr _ \<Rightarrow> return None)
                  })))"

subsection \<open>The pod template\<close>

definition riakPodSecurityContext :: "RiakCluster \<Rightarrow> PodSecurityContext" where
  "riakPodSecurityContext cluster =
     (let sc = (case cls_PodSecurityContext (cl_Spec cluster) of
            Some sc \<Rightarrow> sc
          | None \<Rightarrow> \<lparr>psc_RunAsUser = None, psc_RunAsGroup = None, psc_FSGroup = None, psc_SeccompProfile = None\<rparr>)
      in if psc_SeccompProfile sc = None then sc\<lparr>psc_SeccompProfile := Some ''RuntimeDefault''\<rparr> else sc)"

definition readOnlyScratchPaths :: "(string \<times> string) list" where
  "readOnlyScratchPaths = [(''riak-etc'', ''/etc/riak''), (''riak-log'', ''/var/log/riak''),
     (''riak-run'', ''/var/run/riak''), (''riak-tmp'', ''/tmp'')]"

definition riakContainerSecurityContext :: "bool \<Rightarrow> SecurityContext" where
  "riakContainerSecurityContext readOnlyRoot =
     \<lparr>sc_AllowPrivilegeEscalation = Some False, sc_CapabilitiesDrop = [''ALL''],
      sc_ReadOnlyRootFilesystem = (if readOnlyRoot then Some True else None)\<rparr>"

definition seedEtcRiakContainer :: "string \<Rightarrow> string \<Rightarrow> Container" where
  "seedEtcRiakContainer img pullPolicy = empty_container\<lparr>
     ct_Name := ''seed-etc-riak'', ct_Image := img, ct_ImagePullPolicy := pullPolicy,
     ct_Command := [''sh'', ''-c'', ''cp -R /etc/riak/. /seed/''],
     ct_SecurityContext := Some (riakContainerSecurityContext True),
     ct_VolumeMounts := [\<lparr>vm_Name = ''riak-etc'', vm_MountPath = ''/seed'', vm_ReadOnly = False\<rparr>]\<rparr>"

definition terminationGracePeriod :: "RiakCluster \<Rightarrow> int" where
  "terminationGracePeriod cluster =
     (case cls_TerminationGracePeriodSeconds (cl_Spec cluster) of Some g \<Rightarrow> g | None \<Rightarrow> 300)"

definition riakAffinity :: "RiakCluster \<Rightarrow> PodAntiAffinity option" where
  "riakAffinity cluster =
     (let term' = \<lparr>pat_MatchLabels = [(''app'', ''riak''), (''cluster'', cl_Name cluster)],
            pat_TopologyKey = ''kubernetes.io/hostname''\<rparr>
      in if cls_PodAntiAffinity (cl_Spec cluster) = PodAntiAffinityNone then None
         else if cls_PodAntiAffinity (cl_Spec cluster) = PodAntiAffinityPreferred
         then Some \<lparr>paa_Preferred = [(100, term')], paa_Required = []\<rparr>
         else Some \<lparr>paa_Preferred = [], paa_Required = [term']\<rparr>)"

definition hasDataVolumeClaim :: "PersistentVolumeClaim list \<Rightarrow> bool" where
  "hasDataVolumeClaim templates = list_ex (\<lambda>t. pvc_Name t = ''data'') templates"

definition riakImage :: "string \<Rightarrow> RiakCluster \<Rightarrow> string" where
  "riakImage defaultImage cluster =
     (let img = cls_Image (cl_Spec cluster);
          img2 = (if img = [] then defaultImage else img)
      in if img2 = [] then defaultRiakImage else img2)"

definition riakPullPolicy :: "RiakCluster \<Rightarrow> string" where
  "riakPullPolicy cluster =
     (let p = cls_ImagePullPolicy (cl_Spec cluster) in if p = [] then ''IfNotPresent'' else p)"

definition configEnvName :: "string \<Rightarrow> string" where
  "configEnvName key = ''RIAK_CONFIG_'' @ ToUpper (ReplaceAll key (CHR ''.'') ''__'')"

definition configEnv :: "gomap \<Rightarrow> EnvVar list" where
  "configEnv config = map (\<lambda>k. \<lparr>ev_Name = configEnvName k, ev_Source = Value (map_get config k)\<rparr>) (sort (map fst config))"

definition podEnv :: "RiakCluster \<Rightarrow> EnvVar list" where
  "podEnv cluster =
     [\<lparr>ev_Name = ''POD_NAME'', ev_Source = FieldRef ''metadata.name''\<rparr>,
      \<lparr>ev_Name = ''POD_IP'', ev_Source = FieldRef ''status.podIP''\<rparr>,
      \<lparr>ev_Name = ''POD_NAMESPACE'', ev_Source = FieldRef ''metadata.namespace''\<rparr>,
      \<lparr>ev_Name = ''RIAK_CLUSTER_NAME'', ev_Source = Value (cl_Name cluster)\<rparr>] @
     configEnv (cls_RiakConfig (cl_Spec cluster)) @
     (if tlsEnabled cluster then
        [\<lparr>ev_Name = ''RIAK_CONFIG_SSL__CERTFILE'', ev_Source = Value riakTLSCertFile\<rparr>,
         \<lparr>ev_Name = ''RIAK_CONFIG_SSL__KEYFILE'', ev_Source = Value riakTLSKeyFile\<rparr>,
         \<lparr>ev_Name = ''RIAK_CONFIG_SSL__CACERTFILE'', ev_Source = Value riakTLSCACertFile\<rparr>,
         \<lparr>ev_Name = ''RIAK_CONFIG_LISTENER__HTTPS__INTERNAL'', ev_Source = Value ''0.0.0.0:8443''\<rparr>,
         \<lparr>ev_Name = ''RIAK_CONFIG_CHECK_CRL'', ev_Source = Value ''off''\<rparr>]
      else [])"

definition podVolumes :: "RiakCluster \<Rightarrow> Volume list" where
  "podVolumes cluster =
     (if tlsEnabled cluster then [tlsVolume cluster] else []) @
     (if monitoringEnabled cluster then [exporterConfigVolume cluster] else []) @
     (if cls_EphemeralStorage (cl_Spec cluster) then [\<lparr>v_Name = ''data'', v_Source = EmptyDir\<rparr>] else []) @
     (if cls_ReadOnlyRootFilesystem (cl_Spec cluster)
      then map (\<lambda>(vol, path). \<lparr>v_Name = vol, v_Source = EmptyDir\<rparr>) readOnlyScratchPaths else [])"

definition volumeMounts :: "RiakCluster \<Rightarrow> VolumeMount list" where
  "volumeMounts cluster =
     [\<lparr>vm_Name = ''data'', vm_MountPath = ''/var/lib/riak'', vm_ReadOnly = False\<rparr>] @
     (if cls_ReadOnlyRootFilesystem (cl_Spec cluster)
      then map (\<lambda>(vol, path). \<lparr>vm_Name = vol, vm_MountPath = path, vm_ReadOnly = False\<rparr>) readOnlyScratchPaths else []) @
     (if tlsEnabled cluster
      then [\<lparr>vm_Name = riakTLSVolumeName, vm_MountPath = riakTLSMountPath, vm_ReadOnly = True\<rparr>] else [])"

definition containerPorts :: "RiakCluster \<Rightarrow> ContainerPort list" where
  "containerPorts cluster =
     [\<lparr>cp_Name = ''protobuf'', cp_ContainerPort = 8087, cp_Protocol = []\<rparr>,
      \<lparr>cp_Name = ''http'', cp_ContainerPort = 8098, cp_Protocol = []\<rparr>] @
     (if tlsEnabled cluster then [\<lparr>cp_Name = riakTLSPortName, cp_ContainerPort = riakTLSPort, cp_Protocol = []\<rparr>] else [])"

definition riakResources :: "'w env \<Rightarrow> RiakCluster \<Rightarrow> ResourceRequirements" where
  "riakResources env cluster =
     (case cls_Resources (cl_Spec cluster) of
        Some r \<Rightarrow> r
      | None \<Rightarrow> \<lparr>rr_Requests = [(''cpu'', MustParse env ''1''), (''memory'', MustParse env ''2Gi'')], rr_Limits = []\<rparr>)"

definition riak_container :: "'w env \<Rightarrow> string \<Rightarrow> RiakCluster \<Rightarrow> Container" where
  "riak_container env img cluster = \<lparr>ct_Name = ''riak'', ct_Image = img,
     ct_ImagePullPolicy = riakPullPolicy cluster, ct_Command = [], ct_Args = [], ct_Stdin = True, ct_TTY = True,
     ct_Ports = containerPorts cluster, ct_Env = podEnv cluster, ct_Resources = riakResources env cluster,
     ct_VolumeMounts = volumeMounts cluster,
     ct_SecurityContext = Some (riakContainerSecurityContext (cls_ReadOnlyRootFilesystem (cl_Spec cluster))),
     ct_LivenessProbe = Some \<lparr>pr_TCPPort = FromString ''protobuf'', pr_InitialDelaySeconds = 60,
       pr_PeriodSeconds = 10, pr_TimeoutSeconds = 5, pr_FailureThreshold = 6\<rparr>,
     ct_ReadinessProbe = Some \<lparr>pr_TCPPort = FromString ''protobuf'', pr_InitialDelaySeconds = 20,
       pr_PeriodSeconds = 10, pr_TimeoutSeconds = 5, pr_FailureThreshold = 2\<rparr>\<rparr>"

definition volumeClaimTemplates :: "'w env \<Rightarrow> RiakCluster \<Rightarrow> PersistentVolumeClaim list" where
  "volumeClaimTemplates env cluster =
     (if cls_EphemeralStorage (cl_Spec cluster) then []
      else [\<lparr>pvc_Name = ''data'', pvc_AccessModes = [''ReadWriteOnce''],
        pvc_StorageClassName = cls_StorageClassName (cl_Spec cluster),
        pvc_Requests = [(''storage'', case cls_StorageSize (cl_Spec cluster) of
           Some q \<Rightarrow> q | None \<Rightarrow> MustParse env defaultStorageSize)],
        pvc_Phase = []\<rparr>])"

definition statefulSetSpec :: "'w env \<Rightarrow> string \<Rightarrow> RiakCluster \<Rightarrow> int \<Rightarrow> StatefulSetSpec" where
  "statefulSetSpec env defaultImage cluster part =
     (let img = riakImage defaultImage cluster
      in \<lparr>ss_UpdateStrategyType = ''RollingUpdate'', ss_Partition = Some part,
          ss_ServiceName = cl_Name cluster @ ''-headless'', ss_Replicas = cls_Size (cl_Spec cluster),
          ss_MatchLabels = [(''app'', ''riak''), (''cluster'', cl_Name cluster)],
          ss_Template = Some \<lparr>pt_Labels = [(''app'', ''riak''), (''cluster'', cl_Name cluster)],
            pt_Spec = \<lparr>ps_NodeSelector = cls_NodeSelector (cl_Spec cluster),
              ps_SecurityContext = riakPodSecurityContext cluster,
              ps_Volumes = podVolumes cluster,
              ps_InitContainers = (if cls_ReadOnlyRootFilesystem (cl_Spec cluster)
                then [seedEtcRiakContainer img (riakPullPolicy cluster)] else []),
              ps_Containers = riak_container env img cluster # monitoringSidecars env cluster,
              ps_TerminationGracePeriodSeconds = terminationGracePeriod cluster,
              ps_Affinity = riakAffinity cluster\<rparr>\<rparr>,
          ss_VolumeClaimTemplates = volumeClaimTemplates env cluster\<rparr>)"

definition mutate_sts :: "'w env \<Rightarrow> string \<Rightarrow> RiakCluster \<Rightarrow> StatefulSet \<Rightarrow> StatefulSet res" where
  "mutate_sts env defaultImage cluster sts =
     map_sum id (\<lambda>m. sts\<lparr>s_Meta := m,
         s_Spec := statefulSetSpec env defaultImage cluster (stsPartition sts (cls_Size (cl_Spec cluster)))\<rparr>)
       (SetControllerReference env (cl_Meta cluster) (s_Meta sts))"

definition new_sts :: "string \<Rightarrow> string \<Rightarrow> StatefulSet" where
  "new_sts name ns = \<lparr>s_Meta = new_meta name ns,
     s_Spec = \<lparr>ss_UpdateStrategyType = [], ss_Partition = None, ss_ServiceName = [], ss_Replicas = 0,
       ss_MatchLabels = [], ss_Template = None, ss_VolumeClaimTemplates = []\<rparr>,
     s_CurrentRevision = [], s_UpdateRevision = []\<rparr>"

definition show_bool :: "bool \<Rightarrow> string" where
  "show_bool b = (if b then ''true'' else ''false'')"

definition immutableStorage :: "RiakCluster \<Rightarrow> bool \<Rightarrow> error" where
  "immutableStorage cluster existingEphemeral =
     ''storage mode is immutable: StatefulSet '' @ Quote (cl_Name cluster) @ '' was created with ephemeralStorage='' @
     show_bool existingEphemeral @ '' and cannot be switched to '' @ show_bool (cls_EphemeralStorage (cl_Spec cluster)) @
     '' (StatefulSet volumeClaimTemplates are immutable); delete and recreate the cluster to change storage modes''"

definition reconcileStatefulSet :: "'w env \<Rightarrow> string \<Rightarrow> RiakCluster \<Rightarrow> ('w, error option) action" where
  "reconcileStatefulSet env defaultImage cluster = do {
     let ns = cl_Namespace cluster;
     let name = cl_Name cluster;
     g \<leftarrow> effect (GetSts ns name) (get_sts env ns name);
     (let write = do {
            r \<leftarrow> effect (\<lambda>_. CreateOrUpdate KStatefulSet ns name)
              (cou_sts env (new_sts name ns) (mutate_sts env defaultImage cluster));
            return (map_option api_msg r)
          }
      in case g of
           Inr existing \<Rightarrow>
             (let existingEphemeral = (\<not> hasDataVolumeClaim (ss_VolumeClaimTemplates (s_Spec existing)))
              in if existingEphemeral \<noteq> cls_EphemeralStorage (cl_Spec cluster)
                 then return (Some (immutableStorage cluster existingEphemeral))
                 else write)
         | Inl err \<Rightarrow> if \<not> IsNotFound err then return (Some (api_msg err)) else write)
   }"

subsection \<open>The services\<close>

definition basePorts :: "RiakCluster \<Rightarrow> ServicePort list" where
  "basePorts cluster =
     [\<lparr>sp_Name = ''protobuf'',
       sp_Port = (if cls_ServicePort (cl_Spec cluster) \<noteq> 0 then cls_ServicePort (cl_Spec cluster) else 8087),
       sp_TargetPort = FromString ''protobuf''\<rparr>,
      \<lparr>sp_Name = ''http'', sp_Port = 8098, sp_TargetPort = FromString ''http''\<rparr>] @
     (if tlsEnabled cluster
      then [\<lparr>sp_Name = riakTLSPortName, sp_Port = riakTLSPort, sp_TargetPort = FromString riakTLSPortName\<rparr>] else []) @
     (if monitoringEnabled cluster
      then [\<lparr>sp_Name = riakMetricsPortName, sp_Port = riakMetricsPort, sp_TargetPort = FromString riakMetricsPortName\<rparr>]
      else [])"

definition mutate_headless :: "'w env \<Rightarrow> RiakCluster \<Rightarrow> Service \<Rightarrow> Service res" where
  "mutate_headless env cluster svc =
     map_sum id (\<lambda>m. svc\<lparr>svc_Meta := m, svc_Spec := \<lparr>sv_Type = [], sv_ClusterIP = ''None'',
         sv_Selector = [(''app'', ''riak''), (''cluster'', cl_Name cluster)], sv_Ports = basePorts cluster,
         sv_PublishNotReadyAddresses = True\<rparr>\<rparr>)
       (SetControllerReference env (cl_Meta cluster) (svc_Meta svc))"

definition mutate_client :: "'w env \<Rightarrow> RiakCluster \<Rightarrow> Service \<Rightarrow> Service res" where
  "mutate_client env cluster svc =
     (let labelled = (svc_Meta svc)\<lparr>m_Labels :=
            map_put (map_put (m_Labels (svc_Meta svc)) ''app'' ''riak'') ''cluster'' (cl_Name cluster)\<rparr>
      in map_sum id (\<lambda>m. svc\<lparr>svc_Meta := m, svc_Spec := \<lparr>sv_Type = ''ClusterIP'', sv_ClusterIP = [],
           sv_Selector = [(''app'', ''riak''), (''cluster'', cl_Name cluster)], sv_Ports = basePorts cluster,
           sv_PublishNotReadyAddresses = False\<rparr>\<rparr>)
         (SetControllerReference env (cl_Meta cluster) labelled))"

definition new_service :: "string \<Rightarrow> string \<Rightarrow> Service" where
  "new_service name ns = \<lparr>svc_Meta = new_meta name ns, svc_Spec = \<lparr>sv_Type = [], sv_ClusterIP = [],
     sv_Selector = [], sv_Ports = [], sv_PublishNotReadyAddresses = False\<rparr>\<rparr>"

definition reconcileService :: "'w env \<Rightarrow> RiakCluster \<Rightarrow> ('w, error option) action" where
  "reconcileService env cluster = do {
     let ns = cl_Namespace cluster;
     let headless = cl_Name cluster @ ''-headless'';
     r1 \<leftarrow> effect (\<lambda>_. CreateOrUpdate KService ns headless)
       (cou_service env (new_service headless ns) (mutate_headless env cluster));
     (case r1 of
        Some err \<Rightarrow> return (Some (api_msg err))
      | None \<Rightarrow> do {
          r2 \<leftarrow> effect (\<lambda>_. CreateOrUpdate KService ns (cl_Name cluster))
            (cou_service env (new_service (cl_Name cluster) ns) (mutate_client env cluster));
          return (map_option api_msg r2)
        })
   }"

subsection \<open>The status\<close>

definition clusterStorage :: "RiakCluster \<Rightarrow> string \<times> string" where
  "clusterStorage cluster =
     (if cls_EphemeralStorage (cl_Spec cluster) then ([], [])
      else (cls_StorageClassName (cl_Spec cluster),
        case cls_StorageSize (cl_Spec cluster) of Some q \<Rightarrow> q_String q | None \<Rightarrow> defaultStorageSize))"

definition nodeStorageReady :: "'w env \<Rightarrow> RiakCluster \<Rightarrow> Pod \<Rightarrow> ('w, bool) action" where
  "nodeStorageReady env cluster pod =
     (if cls_EphemeralStorage (cl_Spec cluster) then return (p_Phase pod = ''Running'')
      else do {
        let ns = m_Namespace (p_Meta pod);
        let name = ''data-'' @ p_Name pod;
        g \<leftarrow> effect (\<lambda>_. Get KPVC ns name) (get_pvc env ns name);
        return (case g of Inl _ \<Rightarrow> False | Inr pvc \<Rightarrow> pvc_Phase pvc = ''Bound'')
      })"

definition tlsStatus :: "'w env \<Rightarrow> RiakCluster \<Rightarrow> bool \<Rightarrow> ('w, TLSStatus) action" where
  "tlsStatus env cluster allNodesReady =
     (if \<not> tlsEnabled cluster then return empty_TLSStatus
      else do {
        (ready, reason) \<leftarrow> fetchCertificateReadiness env (clusterCertName (cl_Name cluster)) (cl_Namespace cluster);
        (cas, err) \<leftarrow> trustStatus env cluster;
        return (empty_TLSStatus\<lparr>ts_Enabled := True, ts_CertManagerReady := ready, ts_CertManagerError := reason,
          ts_TrustedClientCAs := cas, ts_TrustBundleError := err,
          ts_InterNodeReady := ready \<and> allNodesReady, ts_ClientReady := ready \<and> allNodesReady\<rparr>)
      })"

fun exporter_status :: "Pod list \<Rightarrow> (string \<times> string) option" where
  "exporter_status [] = None"
| "exporter_status (p # ps) =
     (case containerReady p exporterContainerName of
        (True, _) \<Rightarrow> exporter_status ps
      | (False, reason) \<Rightarrow> Some (p_Name p, reason))"

definition monitoringStatus :: "'w env \<Rightarrow> RiakCluster \<Rightarrow> Pod list \<Rightarrow> ('w, MonitoringStatus) action" where
  "monitoringStatus env cluster pods =
     (if \<not> monitoringEnabled cluster then return empty_MonitoringStatus
      else do {
        let bad = exporter_status pods;
        let st = empty_MonitoringStatus\<lparr>ms_Enabled := True,
          ms_ExporterReady := (pods \<noteq> [] \<and> bad = None),
          ms_ExporterError := (if pods = [] then ''no Riak pods exist yet''
            else case bad of None \<Rightarrow> [] | Some (n, reason) \<Rightarrow> ''pod '' @ n @ '': '' @ reason),
          ms_ScrapeKind := scrapeKind cluster\<rparr>;
        let gvk = (if scrapeKind cluster = ScrapeKindServiceMonitor then Some KServiceMonitor
          else if scrapeKind cluster = ScrapeKindPodMonitor then Some KPodMonitor else None);
        (case gvk of
           None \<Rightarrow> return st
         | Some k \<Rightarrow> do {
             let ns = cl_Namespace cluster;
             let name = scrapeObjectName cluster;
             g \<leftarrow> effect (\<lambda>_. Get k ns name) (get_monitor env k ns name);
             let found = (case g of Inl _ \<Rightarrow> False | Inr _ \<Rightarrow> True);
             return (st\<lparr>ms_ScrapeObjectReady := found,
               ms_ServiceMonitorReady := found \<and> k = KServiceMonitor\<rparr>)
           })
      })"

definition bucketRefs :: "'w env \<Rightarrow> RiakCluster \<Rightarrow> ('w, RiakBucketRef list res) action" where
  "bucketRefs env cluster = do {
     r \<leftarrow> effect (\<lambda>_. ListKind KBucket (cl_Namespace cluster)) (list_buckets env (cl_Namespace cluster));
     return (case r of
         Inl err \<Rightarrow> Inl (api_msg err)
       | Inr items \<Rightarrow> Inr (sort_key br_Name
           (map (\<lambda>b. \<lparr>br_Name = b_Name b, br_Ready = (bt_Phase (b_Status b) = BucketPhaseReady)\<rparr>)
             (filter (\<lambda>b. bs_ClusterName (b_Spec b) = cl_Name cluster) items))))
   }"

definition userRefs :: "'w env \<Rightarrow> RiakCluster \<Rightarrow> ('w, RiakUserRef list res) action" where
  "userRefs env cluster = do {
     r \<leftarrow> effect (\<lambda>_. ListKind KUser (cl_Namespace cluster)) (list_users env (cl_Namespace cluster));
     return (case r of
         Inl err \<Rightarrow> Inl (api_msg err)
       | Inr items \<Rightarrow> Inr (sort_key ur_Name
           (map (\<lambda>u. \<lparr>ur_Name = u_Name u, ur_Ready = (ut_Phase (u_Status u) = UserPhaseReady)\<rparr>)
             (filter (\<lambda>u. us_ClusterName (u_Spec u) = cl_Name cluster) items))))
   }"

text \<open>The per-pod loop of \<^verbatim>\<open>updateClusterStatus\<close>: the number of ready pods, the members and the conditions.\<close>

type_synonym node_vars = "int \<times> RiakNodeMember list \<times> NodeCondition list"

definition previousConditions :: "NodeCondition list \<Rightarrow> string \<Rightarrow> Condition list" where
  "previousConditions ncs = fold (\<lambda>nc m. m(nc_Name nc := nc_Conditions nc)) ncs (\<lambda>_. [])"

definition node_body ::
  "'w env \<Rightarrow> RiakCluster \<Rightarrow> Pod \<Rightarrow> node_vars \<Rightarrow> ('w, unit + node_vars) action" where
  "node_body env cluster pod vars = do {
     let (readyCount, members, nodeConditions) = vars;
     let (storageClassName, storageSize) = clusterStorage cluster;
     let gen = m_Generation (cl_Meta cluster);
     let ready = podIsReady pod;
     let health = podHealth pod ready;
     storageReady \<leftarrow> nodeStorageReady env cluster pod;
     (conds1, _) \<leftarrow>
       (if ready
        then setCondition env (previousConditions (clt_NodeConditions (cl_Status cluster)) (p_Name pod))
          conditionReady True gen ''PodReady'' ''Riak node is ready''
        else setCondition env (previousConditions (clt_NodeConditions (cl_Status cluster)) (p_Name pod))
          conditionReady False gen ''PodNotReady''
          (''pod '' @ p_Name pod @ '' is in phase '' @ p_Phase pod @ '' and not ready''));
     (conds2, _) \<leftarrow>
       (if storageReady
        then setCondition env conds1 conditionStorageReady True gen ''StorageBound'' ''the node's data volume is available''
        else setCondition env conds1 conditionStorageReady False gen ''StorageUnavailable''
          ''the node's data volume is not available yet'');
     return (Inr (if ready then i32 (readyCount + 1) else readyCount,
       members @ [\<lparr>nm_Name = p_Name pod, nm_Pod = p_Name pod, nm_Ready = ready, nm_Health = health,
         nm_Phase = p_Phase pod, nm_StorageReady = storageReady, nm_Conditions = conds2\<rparr>],
       nodeConditions @ [\<lparr>nc_Name = p_Name pod, nc_Ready = ready, nc_Health = health, nc_Phase = p_Phase pod,
         nc_PodName = p_Name pod, nc_StorageReady = storageReady, nc_StorageClassName = storageClassName,
         nc_StorageSize = storageSize, nc_Conditions = conds2\<rparr>]))
   }"

definition formRing :: "'w env \<Rightarrow> RiakCluster \<Rightarrow> bool \<Rightarrow> Pod list \<Rightarrow> ('w, bool) action" where
  "formRing env cluster allReady pods =
     (if allReady \<and> cls_Size (cl_Spec cluster) > 1 then do {
        r \<leftarrow> ReconcileMembership env cluster (map p_Name pods);
        return (case r of Inl _ \<Rightarrow> False | Inr formed \<Rightarrow> formed)
      }
      else return True)"

definition writeClusterStatus ::
  "'w env \<Rightarrow> RiakCluster \<Rightarrow> Pod list \<Rightarrow> node_vars \<Rightarrow> RiakBucketRef list \<Rightarrow> RiakUserRef list \<Rightarrow> bool \<Rightarrow> bool \<Rightarrow>
    ('w, RiakCluster \<times> error option) action" where
  "writeClusterStatus env cluster pods vars buckets users allReady formed = do {
     let (readyCount, members, nodeConditions) = vars;
     let (storageClassName, storageSize) = clusterStorage cluster;
     let sz = cls_Size (cl_Spec cluster);
     let st = (cl_Status cluster)\<lparr>clt_ReadyNodes := readyCount, clt_TotalNodes := sz, clt_Members := members,
       clt_NodeConditions := nodeConditions, clt_StorageClassName := storageClassName,
       clt_StorageSize := storageSize, clt_EphemeralStorage := cls_EphemeralStorage (cl_Spec cluster)\<rparr>;
     tls \<leftarrow> tlsStatus env (cluster\<lparr>cl_Status := st\<rparr>) allReady;
     mon \<leftarrow> monitoringStatus env (cluster\<lparr>cl_Status := st\<rparr>) pods;
     let c1 = cluster\<lparr>cl_Status := st\<lparr>clt_TLSStatus := tls, clt_MonitoringStatus := mon,
       clt_Buckets := buckets, clt_Users := users\<rparr>\<rparr>;
     c2 \<leftarrow>
       (if allReady \<and> formed
        then setClusterCondition env (cl_set_phase PhaseReady c1) conditionReady True ''ClusterReady'' ''Riak cluster is ready''
        else if allReady
        then setClusterCondition env (cl_set_phase PhaseCreating c1) conditionReady False ''FormingCluster''
          ''Waiting for all Riak nodes to join the ring''
        else setClusterCondition env (cl_set_phase PhaseCreating c1) conditionReady False ''AwaitingPods''
          (''Waiting for '' @ Itoa (i32 (sz - readyCount)) @ '' pods''));
     now \<leftarrow> Now env;
     let c3 = c2\<lparr>cl_Status := (cl_Status c2)\<lparr>clt_LastUpdateTime := Some now\<rparr>\<rparr>;
     r \<leftarrow> effect (\<lambda>_. ClusterStatus c3) (status_cluster env c3);
     return (case r of Inl e \<Rightarrow> (c3, Some (api_msg e)) | Inr c4 \<Rightarrow> (c4, None))
   }"

definition updateClusterStatus :: "'w env \<Rightarrow> RiakCluster \<Rightarrow> ('w, RiakCluster \<times> error option) action" where
  "updateClusterStatus env cluster = do {
     let ns = cl_Namespace cluster;
     let labels = [(''cluster'', cl_Name cluster)];
     l \<leftarrow> effect (ListPods ns labels) (list_pods env ns labels);
     (case l of
        Inl err \<Rightarrow> return (cluster, Some (api_msg err))
      | Inr items \<Rightarrow> do {
          let pods = sort_key p_Name items;
          n \<leftarrow> for_each (node_body env cluster) pods (0, [], []);
          (case n of
             Inl _ \<Rightarrow> return (cluster, None)
           | Inr vars \<Rightarrow> do {
               b \<leftarrow> bucketRefs env cluster;
               (case b of
                  Inl e \<Rightarrow> return (cluster, Some e)
                | Inr buckets \<Rightarrow> do {
                    u \<leftarrow> userRefs env cluster;
                    (case u of
                       Inl e \<Rightarrow> return (cluster, Some e)
                     | Inr users \<Rightarrow> do {
                         let allReady = (fst vars = cls_Size (cl_Spec cluster));
                         formed \<leftarrow> formRing env cluster allReady pods;
                         writeClusterStatus env cluster pods vars buckets users allReady formed
                       })
                  })
             })
        })
   }"

subsection \<open>The reconcile\<close>

definition Cluster_handleDeletion :: "'w env \<Rightarrow> RiakCluster \<Rightarrow> ('w, outcome) action" where
  "Cluster_handleDeletion env cluster =
     (if ContainsFinalizer env (cl_Meta cluster) riakClusterFinalizerName then do {
        r \<leftarrow> effect (\<lambda>_. Update KCluster (cl_Namespace cluster) (cl_Name cluster))
          (update_cluster env (cluster\<lparr>cl_Meta := RemoveFinalizer env (cl_Meta cluster) riakClusterFinalizerName\<rparr>));
        return (case r of Inl e \<Rightarrow> (no_requeue, Some (api_msg e)) | Inr _ \<Rightarrow> (no_requeue, None))
      }
      else return (no_requeue, None))"

definition ensureClusterFinalizer :: "'w env \<Rightarrow> RiakCluster \<Rightarrow> ('w, api_error + RiakCluster) action" where
  "ensureClusterFinalizer env cluster =
     (if \<not> ContainsFinalizer env (cl_Meta cluster) riakClusterFinalizerName
      then effect (\<lambda>_. Update KCluster (cl_Namespace cluster) (cl_Name cluster))
        (update_cluster env (cluster\<lparr>cl_Meta := AddFinalizer env (cl_Meta cluster) riakClusterFinalizerName\<rparr>))
      else return (Inr cluster))"

definition initClusterStatus :: "'w env \<Rightarrow> RiakCluster \<Rightarrow> ('w, api_error + RiakCluster) action" where
  "initClusterStatus env cluster =
     (if clt_Phase (cl_Status cluster) = []
      then (let c = cl_set_phase PhaseCreating cluster in effect (\<lambda>_. ClusterStatus c) (status_cluster env c))
      else return (Inr cluster))"

text \<open>Recording a failed phase; a failed write of it is only logged.\<close>

definition failCluster :: "'w env \<Rightarrow> RiakCluster \<Rightarrow> error \<Rightarrow> ('w, outcome) action" where
  "failCluster env cluster e = do {
     let c = cl_set_phase PhaseFailed cluster;
     _ \<leftarrow> effect (\<lambda>_. ClusterStatus c) (status_cluster env c);
     return (no_requeue, Some e)
   }"

text \<open>From the services on: the budget, the rollout, the scrape object and the status.\<close>

definition finishReconcile :: "'w env \<Rightarrow> RiakCluster \<Rightarrow> ('w, outcome) action" where
  "finishReconcile env cluster = do {
     e1 \<leftarrow> reconcileService env cluster;
     (case e1 of
        Some e \<Rightarrow> return (no_requeue, Some e)
      | None \<Rightarrow> do {
          e2 \<leftarrow> reconcilePodDisruptionBudget env cluster;
          (case e2 of
             Some e \<Rightarrow> return (no_requeue, Some e)
           | None \<Rightarrow> do {
               (cluster', _) \<leftarrow> reconcileRollout env cluster;
               e3 \<leftarrow> (if monitoringEnabled cluster' then reconcileScrapeObject env cluster' else return None);
               (case e3 of
                  Some e \<Rightarrow> return (no_requeue, Some e)
                | None \<Rightarrow> do {
                    _ \<leftarrow> updateClusterStatus env cluster';
                    return (requeue (10 * Second), None)
                  })
             })
        })
   }"

definition reconcileCluster :: "'w env \<Rightarrow> string \<Rightarrow> RiakCluster \<Rightarrow> ('w, outcome) action" where
  "reconcileCluster env defaultImage cluster = do {
     e1 \<leftarrow> reconcileTLSCertificate env cluster;
     (case e1 of
        Some e \<Rightarrow> failCluster env cluster e
      | None \<Rightarrow> do {
          _ \<leftarrow> reconcileTrustBundle env cluster;
          e2 \<leftarrow> (if monitoringEnabled cluster then reconcileMonitoringConfigMap env cluster else return None);
          (case e2 of
             Some e \<Rightarrow> return (no_requeue, Some e)
           | None \<Rightarrow> do {
               e3 \<leftarrow> reconcileStatefulSet env defaultImage cluster;
               (case e3 of
                  Some e \<Rightarrow> failCluster env cluster e
                | None \<Rightarrow> finishReconcile env cluster)
             })
        })
   }"

definition Cluster_Reconcile :: "'w env \<Rightarrow> string \<Rightarrow> string \<Rightarrow> string \<Rightarrow> ('w, outcome) action" where
  "Cluster_Reconcile env defaultImage ns name = do {
     g \<leftarrow> effect (GetCluster ns name) (get_cluster env ns name);
     (case g of
        Inl err \<Rightarrow> return (no_requeue, IgnoreNotFound err)
      | Inr cluster \<Rightarrow>
          if m_DeletionTimestamp (cl_Meta cluster) \<noteq> None then Cluster_handleDeletion env cluster
          else do {
            f \<leftarrow> ensureClusterFinalizer env cluster;
            (case f of
               Inl err \<Rightarrow> return (no_requeue, Some (api_msg err))
             | Inr cluster1 \<Rightarrow> do {
                 s \<leftarrow> initClusterStatus env cluster1;
                 (case s of
                    Inl err \<Rightarrow> return (no_requeue, Some (api_msg err))
                  | Inr cluster2 \<Rightarrow> reconcileCluster env defaultImage cluster2)
               })
          })
   }"

subsection \<open>The pod template is well formed\<close>

text \<open>
  What the API server demands of a StatefulSet and what its Services need of it: every mount of a container names a
  volume of the pod or a claim template, no two of which share a name; within a container no two mounts share a
  path; container names and port names are distinct across the pod; a probe by name names a port of its own container; and the
  selector selects the pods of the template.
\<close>

definition mounts_ok :: "string list \<Rightarrow> Container \<Rightarrow> bool" where
  "mounts_ok vols c \<longleftrightarrow> list_all (\<lambda>m. vm_Name m \<in> set vols) (ct_VolumeMounts c) \<and> distinct (map vm_MountPath (ct_VolumeMounts c))"

definition probe_ok :: "Container \<Rightarrow> Probe option \<Rightarrow> bool" where
  "probe_ok c p = (case p of
     None \<Rightarrow> True
   | Some pr \<Rightarrow> (case pr_TCPPort pr of
       FromString n \<Rightarrow> n \<in> set (map cp_Name (ct_Ports c))
     | FromInt32 i \<Rightarrow> i \<in> set (map cp_ContainerPort (ct_Ports c))))"

definition pod_ports :: "PodSpec \<Rightarrow> string list" where
  "pod_ports ps = concat (map (\<lambda>c. map cp_Name (ct_Ports c)) (ps_Containers ps))"

definition sts_wf :: "StatefulSetSpec \<Rightarrow> bool" where
  "sts_wf s = (case ss_Template s of
     None \<Rightarrow> False
   | Some t \<Rightarrow>
       (let ps = pt_Spec t;
            vols = map v_Name (ps_Volumes ps) @ map pvc_Name (ss_VolumeClaimTemplates s);
            cs = ps_InitContainers ps @ ps_Containers ps
        in distinct vols \<and> distinct (map ct_Name cs) \<and> distinct (pod_ports ps) \<and>
           list_all (mounts_ok vols) cs \<and>
           list_all (\<lambda>c. probe_ok c (ct_LivenessProbe c) \<and> probe_ok c (ct_ReadinessProbe c)) cs \<and>
           ss_MatchLabels s = pt_Labels t))"

text \<open>A service routes to the pods of a StatefulSet: it selects them, and its named target ports exist.\<close>

definition routes :: "Service \<Rightarrow> StatefulSetSpec \<Rightarrow> bool" where
  "routes svc s = (case ss_Template s of
     None \<Rightarrow> False
   | Some t \<Rightarrow> sv_Selector (svc_Spec svc) = pt_Labels t \<and>
       distinct (map sp_Name (sv_Ports (svc_Spec svc))) \<and>
       list_all (\<lambda>p. case sp_TargetPort p of FromString n \<Rightarrow> n \<in> set (pod_ports (pt_Spec t)) | FromInt32 _ \<Rightarrow> True)
         (sv_Ports (svc_Spec svc)))"

text \<open>The names the parts of the template contribute, by the switches of the specification.\<close>

lemma tlsVolume_name [simp]: "v_Name (tlsVolume cluster) = riakTLSVolumeName"
  by (simp add: tlsVolume_def)

lemma podVolumes_names:
  "map v_Name (podVolumes cluster) =
     (if tlsEnabled cluster then [''riak-tls''] else []) @
     (if monitoringEnabled cluster then [''metrics-exporter-config''] else []) @
     (if cls_EphemeralStorage (cl_Spec cluster) then [''data''] else []) @
     (if cls_ReadOnlyRootFilesystem (cl_Spec cluster) then [''riak-etc'', ''riak-log'', ''riak-run'', ''riak-tmp''] else [])"
  by (simp add: podVolumes_def readOnlyScratchPaths_def exporterConfigVolume_def riakTLSVolumeName_def)

lemma data_volume: "''data'' \<in> v_Name ` set (podVolumes cluster) \<longleftrightarrow> cls_EphemeralStorage (cl_Spec cluster)"
  using arg_cong[OF podVolumes_names[of cluster], of set] by simp

lemma claim_names:
  "map pvc_Name (volumeClaimTemplates env cluster) = (if cls_EphemeralStorage (cl_Spec cluster) then [] else [''data''])"
  by (simp add: volumeClaimTemplates_def)

lemma volumeMounts_names:
  "map vm_Name (volumeMounts cluster) = ''data'' #
     (if cls_ReadOnlyRootFilesystem (cl_Spec cluster) then [''riak-etc'', ''riak-log'', ''riak-run'', ''riak-tmp''] else []) @
     (if tlsEnabled cluster then [''riak-tls''] else [])"
  "map vm_MountPath (volumeMounts cluster) = ''/var/lib/riak'' #
     (if cls_ReadOnlyRootFilesystem (cl_Spec cluster)
      then [''/etc/riak'', ''/var/log/riak'', ''/var/run/riak'', ''/tmp''] else []) @
     (if tlsEnabled cluster then [''/etc/riak/certs''] else [])"
  by (simp_all add: volumeMounts_def readOnlyScratchPaths_def riakTLSVolumeName_def riakTLSMountPath_def)

lemma containerPorts_names:
  "map cp_Name (containerPorts cluster) = [''protobuf'', ''http''] @ (if tlsEnabled cluster then [''https''] else [])"
  by (simp add: containerPorts_def riakTLSPortName_def)

lemma sidecars_cases:
  obtains "\<not> monitoringEnabled cluster" "monitoringSidecars env cluster = []"
  | mon where "monitoringEnabled cluster" "monitoringSidecars env cluster = [exporterContainer env cluster mon]"
  by (cases "cls_Monitoring (cl_Spec cluster)")
    (auto simp: monitoringSidecars_def monitoringEnabled_def split: if_splits)

lemma exporter_parts:
  "ct_Name (exporterContainer env cluster mon) = ''metrics-exporter''"
  "map cp_Name (ct_Ports (exporterContainer env cluster mon)) = [''metrics'']"
  "mounts_ok vols (exporterContainer env cluster mon) \<longleftrightarrow> ''metrics-exporter-config'' \<in> set vols"
  "probe_ok (exporterContainer env cluster mon) (ct_LivenessProbe (exporterContainer env cluster mon))"
  "probe_ok (exporterContainer env cluster mon) (ct_ReadinessProbe (exporterContainer env cluster mon))"
  by (simp_all add: exporterContainer_def exporterContainerName_def riakMetricsPortName_def mounts_ok_def probe_ok_def empty_container_def)

lemma seed_parts:
  "ct_Name (seedEtcRiakContainer img pol) = ''seed-etc-riak''"
  "mounts_ok vols (seedEtcRiakContainer img pol) \<longleftrightarrow> ''riak-etc'' \<in> set vols"
  "probe_ok (seedEtcRiakContainer img pol) (ct_LivenessProbe (seedEtcRiakContainer img pol))"
  "probe_ok (seedEtcRiakContainer img pol) (ct_ReadinessProbe (seedEtcRiakContainer img pol))"
  by (simp_all add: seedEtcRiakContainer_def mounts_ok_def probe_ok_def empty_container_def)

lemma riak_parts:
  "ct_Name (riak_container env img cluster) = ''riak''"
  "map cp_Name (ct_Ports (riak_container env img cluster)) = map cp_Name (containerPorts cluster)"
  "mounts_ok vols (riak_container env img cluster) \<longleftrightarrow>
     list_all (\<lambda>n. n \<in> set vols) (map vm_Name (volumeMounts cluster)) \<and> distinct (map vm_MountPath (volumeMounts cluster))"
  "probe_ok (riak_container env img cluster) (ct_LivenessProbe (riak_container env img cluster))"
  "probe_ok (riak_container env img cluster) (ct_ReadinessProbe (riak_container env img cluster))"
  by (simp_all add: riak_container_def mounts_ok_def probe_ok_def list.pred_map o_def containerPorts_def)

lemma map_sum_Inr_iff: "map_sum id f x = Inr y \<longleftrightarrow> (\<exists>z. x = Inr z \<and> y = f z)"
  by (cases x) auto

lemmas template_parts = podVolumes_names data_volume claim_names volumeMounts_names containerPorts_names exporter_parts seed_parts riak_parts

lemma statefulSetSpec_sts_wf: "sts_wf (statefulSetSpec env img cluster part)"
  by (cases rule: sidecars_cases[of cluster env])
    (simp_all add: sts_wf_def statefulSetSpec_def Let_def pod_ports_def template_parts list.pred_map[symmetric] del: list.set_map list.pred_map)

lemma statefulSetSpec_ports:
  "set (pod_ports (pt_Spec (the (ss_Template (statefulSetSpec env img cluster part))))) =
     {''protobuf'', ''http''} \<union> (if tlsEnabled cluster then {''https''} else {}) \<union> (if monitoringEnabled cluster then {''metrics''} else {})"
  by (cases rule: sidecars_cases[of cluster env]) (auto simp: statefulSetSpec_def Let_def pod_ports_def template_parts)

text \<open>
  C15: every StatefulSet and Service the operator writes is well formed, whatever the specification switches on: every volume
  mount has exactly one volume or claim behind it, no two containers, ports or mount paths collide, the probes and both
  Services name ports that exist, the selectors select the pods of the template, and the stored
  object records the storage mode, so that the immutability check of the next reconcile reads it back correctly.
\<close>

theorem StatefulSet_well_formed:
  assumes "mutate_sts env img cluster sts = Inr sts'"
    and "mutate_headless env cluster hl = Inr hl'" and "mutate_client env cluster svc = Inr svc'"
  shows "sts_wf (s_Spec sts') \<and> routes hl' (s_Spec sts') \<and> routes svc' (s_Spec sts') \<and>
    ss_ServiceName (s_Spec sts') = cl_Name cluster @ ''-headless'' \<and>
    hasDataVolumeClaim (ss_VolumeClaimTemplates (s_Spec sts')) = (\<not> cls_EphemeralStorage (cl_Spec cluster))"
proof -
  from assms(1) obtain part where s: "s_Spec sts' = statefulSetSpec env img cluster part"
    by (auto simp: mutate_sts_def map_sum_Inr_iff)
  have "sv_Selector (svc_Spec x) = [(''app'', ''riak''), (''cluster'', cl_Name cluster)] \<and> sv_Ports (svc_Spec x) = basePorts cluster"
    if "x = hl' \<or> x = svc'" for x
    using assms(2,3) that by (auto simp: mutate_headless_def mutate_client_def Let_def map_sum_Inr_iff)
  then have "routes x (s_Spec sts')" if "x = hl' \<or> x = svc'" for x
    using that statefulSetSpec_ports[of env img cluster part]
    by (auto simp: routes_def s statefulSetSpec_def Let_def basePorts_def riakTLSPortName_def riakMetricsPortName_def)
  then show ?thesis
    using statefulSetSpec_sts_wf[of env img cluster part]
    by (simp add: s statefulSetSpec_def Let_def hasDataVolumeClaim_def volumeClaimTemplates_def)
qed

text \<open>A cluster with everything switched on.\<close>

definition full_cluster :: RiakCluster where
  "full_cluster = tls_cluster\<lparr>cl_Spec := (cl_Spec tls_cluster)\<lparr>cls_ReadOnlyRootFilesystem := True,
     cls_Monitoring := Some \<lparr>mc_Enabled = True, mc_ExporterImage = [], mc_MetricsConfig = None, mc_ScrapeKind = []\<rparr>\<rparr>\<rparr>"

theorem StatefulSet_well_formed_witness:
  "\<exists>sts hl svc. mutate_sts (sample_env :: unit env) [] full_cluster (new_sts ''c'' ''ns'') = Inr sts \<and>
     mutate_headless (sample_env :: unit env) full_cluster (new_service ''c-headless'' ''ns'') = Inr hl \<and>
     mutate_client (sample_env :: unit env) full_cluster (new_service ''c'' ''ns'') = Inr svc \<and>
     sts_wf (s_Spec sts) \<and> routes hl (s_Spec sts) \<and> routes svc (s_Spec sts) \<and> length (sv_Ports (svc_Spec svc)) = 4"
proof -
  obtain sts hl svc where m: "mutate_sts (sample_env :: unit env) [] full_cluster (new_sts ''c'' ''ns'') = Inr sts"
      "mutate_headless (sample_env :: unit env) full_cluster (new_service ''c-headless'' ''ns'') = Inr hl"
      "mutate_client (sample_env :: unit env) full_cluster (new_service ''c'' ''ns'') = Inr svc"
    by (auto simp: mutate_sts_def mutate_headless_def mutate_client_def sample_env_def Let_def)
  have "sv_Ports (svc_Spec svc) = basePorts full_cluster"
    using m(3) by (auto simp: mutate_client_def Let_def map_sum_Inr_iff)
  moreover have "length (basePorts full_cluster) = 4" by code_simp
  ultimately show ?thesis using m StatefulSet_well_formed[OF m] by metis
qed

subsection \<open>The template does not depend on the order of a map\<close>

lemma sort_mset_cong: "mset xs = mset ys \<Longrightarrow> sort xs = sort (ys :: 'a::linorder list)"
  by (metis sorted_list_of_multiset_mset)

lemma sort_key_map_fst: "sort (map f xs) = map f (sort_key f xs)"
  by (intro properties_for_sort) (simp_all add: mset_map)

lemma map_get_cong:
  assumes "wf_map m" "mset m' = mset m" shows "map_get m' = map_get m"
proof -
  have "distinct (map fst m)" "distinct (map fst m')"
    using assms mset_eq_imp_distinct_iff[of "map fst m'" "map fst m"] by (simp_all add: wf_map_def)
  moreover have "set m' = set m" using assms(2) by (metis set_mset_mset)
  ultimately have "map_of m' = map_of m" by (simp add: map_of_inject_set)
  then show ?thesis by (simp add: map_get_def fun_eq_iff)
qed

text \<open>No other part of the template reads the configuration.\<close>

lemma config_unused:
  fixes cluster spec c
  defines "cl \<equiv> cluster\<lparr>cl_Spec := spec\<lparr>cls_RiakConfig := c\<rparr>\<rparr>" and "cl' \<equiv> cluster\<lparr>cl_Spec := spec\<rparr>"
  shows "tlsEnabled cl = tlsEnabled cl'" "podVolumes cl = podVolumes cl'" "volumeMounts cl = volumeMounts cl'"
    "containerPorts cl = containerPorts cl'" "monitoringSidecars env cl = monitoringSidecars env cl'"
    "riakResources env cl = riakResources env cl'" "volumeClaimTemplates env cl = volumeClaimTemplates env cl'"
    "riakAffinity cl = riakAffinity cl'" "terminationGracePeriod cl = terminationGracePeriod cl'"
    "riakPodSecurityContext cl = riakPodSecurityContext cl'" "riakImage img cl = riakImage img cl'" "riakPullPolicy cl = riakPullPolicy cl'"
  by (simp_all add: cl_def cl'_def tlsEnabled_def podVolumes_def volumeMounts_def containerPorts_def monitoringSidecars_def
      riakResources_def volumeClaimTemplates_def riakAffinity_def terminationGracePeriod_def riakPodSecurityContext_def
      riakImage_def riakPullPolicy_def tlsVolume_def hasAdditionalClientCAs_def monitoringEnabled_def exporterConfigVolume_def
      customMetricsConfig_def exporterContainer_def additionalClientCAs_def Let_def split: option.split)

text \<open>
  C16: a reconcile does not restart pods because Go iterates a map in another order. Two runs that see the same
  \<^verbatim>\<open>riakConfig\<close>, its entries in whatever order, render the same StatefulSet specification; and the environment of the Riak container
  has one variable per entry, with the value of the entry, in the order of the keys.
\<close>

theorem statefulSetSpec_order_independent:
  assumes "wf_map config" and "mset config' = mset config"
  shows "statefulSetSpec env img (cluster\<lparr>cl_Spec := spec\<lparr>cls_RiakConfig := config'\<rparr>\<rparr>) part =
      statefulSetSpec env img (cluster\<lparr>cl_Spec := spec\<lparr>cls_RiakConfig := config\<rparr>\<rparr>) part \<and>
    (\<exists>entries. mset entries = mset config \<and> sorted (map fst entries) \<and>
       configEnv config' = map (\<lambda>(k, v). \<lparr>ev_Name = configEnvName k, ev_Source = Value v\<rparr>) entries)"
proof -
  have cfg: "configEnv config' = configEnv config"
    unfolding configEnv_def map_get_cong[OF assms]
    by (simp add: sort_mset_cong[of "map fst config'" "map fst config"] assms(2))
  have "statefulSetSpec env img (cluster\<lparr>cl_Spec := spec\<lparr>cls_RiakConfig := config'\<rparr>\<rparr>) part =
      statefulSetSpec env img (cluster\<lparr>cl_Spec := spec\<lparr>cls_RiakConfig := config\<rparr>\<rparr>) part"
    by (simp add: statefulSetSpec_def Let_def riak_container_def podEnv_def cfg config_unused)
  moreover have "configEnv config = map (\<lambda>(k, v). \<lparr>ev_Name = configEnvName k, ev_Source = Value v\<rparr>) (sort_key fst config)"
  proof -
    have "map_get config (fst e) = snd e" if "e \<in> set config" for e
      using assms(1) that by (cases e) (auto simp: wf_map_def map_get_def)
    moreover have "sort (map fst config) = map fst (sort_key fst config)" by (simp add: sort_key_map_fst)
    ultimately show ?thesis by (auto simp: configEnv_def case_prod_beta)
  qed
  ultimately show ?thesis by (intro conjI exI[of _ "sort_key fst config"]) (auto simp: cfg)
qed

theorem statefulSetSpec_order_independent_witness:
  "statefulSetSpec (sample_env :: unit env) [] (full_cluster\<lparr>cl_Spec := (sample_spec 3)\<lparr>cls_RiakConfig := [(''b'', ''2''), (''a'', ''1'')]\<rparr>\<rparr>) 3 =
     statefulSetSpec (sample_env :: unit env) [] (full_cluster\<lparr>cl_Spec := (sample_spec 3)\<lparr>cls_RiakConfig := [(''a'', ''1''), (''b'', ''2'')]\<rparr>\<rparr>) 3"
proof -
  have "wf_map [(''a'', ''1''), (''b'', ''2'')]" "mset [(''b'', ''2''), (''a'', ''1'')] = mset [(''a'', ''1''), (''b'', ''2'')]"
    by (simp_all add: wf_map_def)
  from statefulSetSpec_order_independent[OF this] show ?thesis by (rule conjunct1)
qed

subsection \<open>What the status says\<close>

text \<open>The members and the per-node conditions, for the pods seen so far.\<close>

definition member_of :: "Pod \<Rightarrow> RiakNodeMember \<Rightarrow> bool" where
  "member_of p m \<longleftrightarrow> nm_Name m = p_Name p \<and> nm_Pod m = p_Name p \<and> nm_Ready m = podIsReady p \<and>
     nm_Health m = podHealth p (podIsReady p) \<and> nm_Phase m = p_Phase p"

definition condition_of :: "Pod \<Rightarrow> NodeCondition \<Rightarrow> bool" where
  "condition_of p c \<longleftrightarrow> nc_Name c = p_Name p \<and> nc_PodName c = p_Name p \<and> nc_Ready c = podIsReady p \<and>
     nc_Health c = podHealth p (podIsReady p) \<and> nc_Phase c = p_Phase p"

definition ready_count :: "Pod list \<Rightarrow> int" where
  "ready_count pods = i32 (int (length (filter podIsReady pods)))"

definition nodes_of :: "Pod list \<Rightarrow> node_vars \<Rightarrow> bool" where
  "nodes_of pods = (\<lambda>(n, ms, ncs). n = ready_count pods \<and> list_all2 member_of pods ms \<and> list_all2 condition_of pods ncs)"

lemma i32_add: "i32 (i32 x + y) = i32 (x + y)"
proof -
  have "i32 (i32 x + y) = ((x + 2 ^ 31) mod 2 ^ 32 + y) mod 2 ^ 32 - 2 ^ 31"
    unfolding i32_def by (rule arg_cong[where f = "\<lambda>z. z mod 2 ^ 32 - 2 ^ 31"]) simp
  also have "\<dots> = (x + 2 ^ 31 + y) mod 2 ^ 32 - 2 ^ 31" by (simp only: mod_add_left_eq)
  also have "\<dots> = i32 (x + y)" unfolding i32_def by (rule arg_cong[where f = "\<lambda>z. z mod 2 ^ 32 - 2 ^ 31"]) simp
  finally show ?thesis .
qed

lemma ready_count_snoc: "ready_count (pods @ [p]) = (if podIsReady p then i32 (ready_count pods + 1) else ready_count pods)"
  by (simp add: ready_count_def i32_add)

lemma emits_nodeStorageReady: "emits is_read (nodeStorageReady env cluster pod)"
  unfolding nodeStorageReady_def Let_def by (auto intro!: emits_rules)

lemma wp_node_body:
  assumes "nodes_of pods vars"
    and "\<And>vars' w' es. trace w' = trace w @ es \<Longrightarrow> list_all is_read es \<Longrightarrow> nodes_of (pods @ [pod]) vars' \<Longrightarrow> Q (Inr vars') w'"
  shows "wp (node_body env cluster pod vars) Q w"
proof -
  obtain n ms ncs where v: "vars = (n, ms, ncs)" by (cases vars) auto
  obtain cn sz where s: "clusterStorage cluster = (cn, sz)" by (cases "clusterStorage cluster") auto
  show ?thesis
    unfolding node_body_def v s Let_def prod.case wp_bind
  proof (rule wp_reads[OF emits_nodeStorageReady], goal_cases)
    case (1 sr w1 es)
    have "Q (Inr (if podIsReady pod then i32 (n + 1) else n,
       ms @ [\<lparr>nm_Name = p_Name pod, nm_Pod = p_Name pod, nm_Ready = podIsReady pod, nm_Health = podHealth pod (podIsReady pod),
         nm_Phase = p_Phase pod, nm_StorageReady = sr, nm_Conditions = c\<rparr>],
       ncs @ [\<lparr>nc_Name = p_Name pod, nc_Ready = podIsReady pod, nc_Health = podHealth pod (podIsReady pod), nc_Phase = p_Phase pod,
         nc_PodName = p_Name pod, nc_StorageReady = sr, nc_StorageClassName = cn,
         nc_StorageSize = sz, nc_Conditions = c\<rparr>])) w'" if "trace w' = trace w1" for w' c
      by (rule assms(2)) (use assms(1) 1 that in
          \<open>auto simp: v nodes_of_def ready_count_snoc member_of_def condition_of_def intro!: list_all2_appendI\<close>)
    then show ?case
      by (cases "podIsReady pod"; cases sr) (auto simp: wp_simps intro!: wp_setCondition split: prod.split)
  qed
qed

lemma wp_nodes:
  assumes "\<And>vars w' es. trace w' = trace w @ es \<Longrightarrow> list_all is_read es \<Longrightarrow> nodes_of pods vars \<Longrightarrow> Q (Inr vars) w'"
  shows "wp (for_each (node_body env cluster) pods (0, [], [])) Q w"
proof (rule wp_for_each_prefix_post[where I = "\<lambda>ps vars w'. nodes_of ps vars \<and> reached w (list_all is_read) w'"], goal_cases)
  case 1
  show ?case by (simp add: nodes_of_def ready_count_def i32_def)
next
  case (2 pre p post vars w1)
  then obtain fs where "trace w1 = trace w @ fs" "list_all is_read fs" by (auto simp: reached_def)
  with 2 show ?case
    by (intro wp_node_body[of pre]) (auto simp: reached_def)
next
  case (3 vars w1)
  then obtain es where "trace w1 = trace w @ es" "list_all is_read es" "nodes_of pods vars" by (auto simp: reached_def)
  then show ?case by (rule assms)
qed

definition status_reflects :: "RiakCluster \<Rightarrow> Pod list \<Rightarrow> bool \<Rightarrow> RiakCluster \<Rightarrow> bool" where
  "status_reflects cluster pods formed c \<longleftrightarrow>
     clt_ReadyNodes (cl_Status c) = ready_count pods \<and> clt_TotalNodes (cl_Status c) = cls_Size (cl_Spec cluster) \<and>
     list_all2 member_of pods (clt_Members (cl_Status c)) \<and> list_all2 condition_of pods (clt_NodeConditions (cl_Status c)) \<and>
     clt_Phase (cl_Status c) = (if ready_count pods = cls_Size (cl_Spec cluster) \<and> formed then PhaseReady else PhaseCreating)"

lemma emits_trustStatus: "emits is_read (trustStatus env cluster)"
  unfolding trustStatus_def by (auto intro!: emits_rules emits_buildTrustBundle)

lemma emits_tlsStatus: "emits is_read (tlsStatus env cluster b)"
  unfolding tlsStatus_def by (auto intro!: emits_rules emits_trustStatus)

lemma emits_monitoringStatus: "emits is_read (monitoringStatus env cluster pods)"
  unfolding monitoringStatus_def Let_def by (auto intro!: emits_rules)

lemma wp_setClusterCondition:
  "(\<And>cs w'. trace w' = trace w \<Longrightarrow> Q (cl_set_conditions cs cluster) w') \<Longrightarrow> wp (setClusterCondition env cluster t ok r m) Q w"
  unfolding setClusterCondition_def wp_bind
  by (rule wp_setCondition) (simp split: prod.split)

lemma wp_writeClusterStatus:
  assumes "nodes_of pods vars"
    and Q: "\<And>r c w' es. trace w' = trace w @ es @ [ClusterStatus c] \<Longrightarrow> list_all is_read es \<Longrightarrow>
      status_reflects cluster pods formed c \<Longrightarrow> Q r w'"
  shows "wp (writeClusterStatus env cluster pods vars bs us (fst vars = cls_Size (cl_Spec cluster)) formed) Q w"
proof -
  obtain n ms ncs where v: "vars = (n, ms, ncs)" by (cases vars) auto
  obtain cn sz where s: "clusterStorage cluster = (cn, sz)" by (cases "clusterStorage cluster") auto
  have nodes: "n = ready_count pods" "list_all2 member_of pods ms" "list_all2 condition_of pods ncs"
    using assms(1) by (auto simp: v nodes_of_def)
  have fin: "wp (Now env) (\<lambda>now. wp (effect (\<lambda>_. ClusterStatus (c2\<lparr>cl_Status := (cl_Status c2)\<lparr>clt_LastUpdateTime := Some now\<rparr>\<rparr>))
        (status_cluster env (c2\<lparr>cl_Status := (cl_Status c2)\<lparr>clt_LastUpdateTime := Some now\<rparr>\<rparr>)))
      (\<lambda>r. wp (return (case r of Inl e \<Rightarrow> (c2\<lparr>cl_Status := (cl_Status c2)\<lparr>clt_LastUpdateTime := Some now\<rparr>\<rparr>, Some (api_msg e)) | Inr c4 \<Rightarrow> (c4, None))) Q)) w1"
    if "trace w1 = trace w @ es" "list_all is_read es" "status_reflects cluster pods formed c2" for c2 w1 es
  proof (intro wp_Now_any wp_effect_any, unfold wp_return, goal_cases)
    case (1 t w2 r w3)
    show ?case
      by (rule Q[where es = es and c = "c2\<lparr>cl_Status := (cl_Status c2)\<lparr>clt_LastUpdateTime := Some t\<rparr>\<rparr>"])
        (use that 1 in \<open>simp_all add: status_reflects_def\<close>)
  qed
  show ?thesis
    unfolding writeClusterStatus_def v s Let_def prod.case fst_conv wp_bind wp_if if_bool_eq_conj
  proof (rule wp_reads[OF emits_tlsStatus], rule wp_reads[OF emits_monitoringStatus], intro conjI impI wp_setClusterCondition, goal_cases)
    case prems: (1 tls w1 es1 mon w2 es2 cs w3)
    show ?case
      by (rule fin[of _ "es1 @ es2"]) (use prems in \<open>auto simp: status_reflects_def cl_set_conditions_def cl_set_phase_def nodes\<close>)
  next
    case prems: (2 tls w1 es1 mon w2 es2 cs w3)
    show ?case
      by (rule fin[of _ "es1 @ es2"]) (use prems in \<open>auto simp: status_reflects_def cl_set_conditions_def cl_set_phase_def nodes\<close>)
  next
    case prems: (3 tls w1 es1 mon w2 es2 cs w3)
    show ?case
      by (rule fin[of _ "es1 @ es2"]) (use prems in \<open>auto simp: status_reflects_def cl_set_conditions_def cl_set_phase_def nodes\<close>)
  qed
qed

text \<open>
  A status may be written only for the pods just listed; and \<^verbatim>\<open>Ready\<close>, with more than one node, only after a run of
  \<^verbatim>\<open>ReconcileMembership\<close> on them that found the ring formed.
\<close>

definition formed_evidence :: "RiakCluster \<Rightarrow> Pod list \<Rightarrow> event list \<Rightarrow> bool" where
  "formed_evidence cluster pods pre \<longleftrightarrow>
     1 < cls_Size (cl_Spec cluster) \<longrightarrow>
     (\<exists>a mes b. pre = a @ mes @ b \<and>
        membership_result (cl_Namespace cluster) (cl_Name cluster @ ''-0'') (map p_Name pods) True mes)"

definition status_ok :: "RiakCluster \<Rightarrow> event list \<Rightarrow> event \<Rightarrow> bool" where
  "status_ok cluster pre e \<longleftrightarrow>
     (\<forall>c. e = ClusterStatus c \<longrightarrow>
        (\<exists>items formed. ListPods (cl_Namespace cluster) [(''cluster'', cl_Name cluster)] (Inr items) \<in> set pre \<and>
           status_reflects cluster (sort_key p_Name items) formed c \<and>
           (clt_Phase (cl_Status c) = PhaseReady \<longrightarrow> formed_evidence cluster (sort_key p_Name items) pre)))"

fun is_status :: "event \<Rightarrow> bool" where
  "is_status (ClusterStatus c) = True"
| "is_status _ = False"

lemma PhaseReady_PhaseCreating [simp]: "PhaseCreating \<noteq> PhaseReady" "PhaseReady \<noteq> PhaseCreating" "PhaseFailed \<noteq> PhaseReady" "PhaseReady \<noteq> PhaseFailed"
  by (simp_all add: PhaseReady_def PhaseCreating_def PhaseFailed_def)

lemma emits_join_body: "emits is_exec (join_body env ns seed sc pod joined)"
  unfolding join_body_def
  by (intro emits_rules) (auto split: list.split intro!: emits_rules join.emits_cmd)

lemma emits_plan_and_commit: "emits is_exec (plan_and_commit env ns seed)"
  unfolding plan_and_commit_def by (intro emits_rules) simp_all

lemma emits_ReconcileMembership: "emits is_exec (ReconcileMembership env cluster pods)"
  unfolding ReconcileMembership_def Let_def
  by (intro emits_rules emits_join_body emits_plan_and_commit) simp_all

lemma wp_formRing:
  assumes Q: "\<And>formed w' es. trace w' = trace w @ es \<Longrightarrow> list_all is_exec es \<Longrightarrow>
      (allReady \<and> formed \<longrightarrow> formed_evidence cluster pods es) \<Longrightarrow> Q formed w'"
  shows "wp (formRing env cluster allReady pods) Q w"
proof (cases "allReady \<and> cls_Size (cl_Spec cluster) > 1")
  case False
  then show ?thesis
    using Q[of w "[]" True] by (auto simp: formRing_def formed_evidence_def)
next
  case True
  have ex: "emits is_exec (ReconcileMembership env cluster (map p_Name pods))"
    by (rule emits_ReconcileMembership)
  show ?thesis
    unfolding formRing_def if_P[OF True] wp_bind
  proof (rule wpI)
    fix r w' assume run: "run_state (ReconcileMembership env cluster (map p_Name pods)) w = (r, w')"
    with ex obtain es where es: "trace w' = trace w @ es" "list_all is_exec es" by (rule emitsD)
    have "formed_evidence cluster pods es" if "r = Inr True"
    proof -
      have "reached w (membership_result (cl_Namespace cluster) (cl_Name cluster @ ''-0'') (map p_Name pods) True) w'"
        using wp_run[OF run ReconcileMembership_membership_result[of env cluster _ w]] that by blast
      then have "membership_result (cl_Namespace cluster) (cl_Name cluster @ ''-0'') (map p_Name pods) True es"
        by (simp add: reached_def es(1))
      moreover have "es = [] @ es @ []" by simp
      ultimately show ?thesis unfolding formed_evidence_def by blast
    qed
    then show "wp (return (case r of Inl _ \<Rightarrow> False | Inr formed \<Rightarrow> formed)) Q w'"
      using Q[OF es] by (cases r) auto
  qed
qed

definition status_run :: "RiakCluster \<Rightarrow> event list \<Rightarrow> bool" where
  "status_run cluster es \<longleftrightarrow> justified (status_ok cluster) es \<and>
     (\<exists>pre fin. es = pre @ fin \<and> list_all (\<lambda>e. is_read e \<or> is_exec e) pre \<and> (fin = [] \<or> (\<exists>c. fin = [ClusterStatus c])))"

lemma status_ok_other: "is_read e \<or> is_exec e \<Longrightarrow> status_ok cluster pre e"
  by (auto simp: status_ok_def)

lemma status_run_quiet: "list_all (\<lambda>e. is_read e \<or> is_exec e) es \<Longrightarrow> justified (status_ok cluster) es"
  by (induction es rule: rev_induct) (auto simp: status_ok_other)

lemma status_run_quietI: "list_all (\<lambda>e. is_read e \<or> is_exec e) es \<Longrightarrow> status_run cluster es"
  by (auto simp: status_run_def status_run_quiet)

lemma status_run_written:
  "list_all (\<lambda>e. is_read e \<or> is_exec e) es \<Longrightarrow> status_ok cluster es (ClusterStatus c) \<Longrightarrow> status_run cluster (es @ [ClusterStatus c])"
  by (auto simp: status_run_def status_run_quiet)

lemma formed_evidence_mono: "formed_evidence cluster pods es \<Longrightarrow> formed_evidence cluster pods (a @ es @ b)"
  unfolding formed_evidence_def by (metis append_assoc)

lemma quiet_run:
  "trace w = trace w0 @ es \<Longrightarrow> list_all (\<lambda>e. is_read e \<or> is_exec e) es \<Longrightarrow> reached w0 (status_run cluster) w"
  unfolding reached_def using status_run_quietI by blast

lemma quiet_events:
  "list_all is_read es \<Longrightarrow> list_all (\<lambda>e. is_read e \<or> is_exec e) es"
  "list_all is_exec es \<Longrightarrow> list_all (\<lambda>e. is_read e \<or> is_exec e) es"
  by (auto simp: list_all_iff)

text \<open>Everything has been read: the ring is formed and the status written.\<close>

lemma wp_form_and_write:
  assumes nodes: "nodes_of (sort_key p_Name items) vars"
    and w: "trace w = trace w0 @ es" "list_all (\<lambda>e. is_read e \<or> is_exec e) es"
    and listed: "ListPods (cl_Namespace cluster) [(''cluster'', cl_Name cluster)] (Inr items) \<in> set es"
  shows "wp (formRing env cluster (fst vars = cls_Size (cl_Spec cluster)) (sort_key p_Name items))
    (\<lambda>formed. wp (writeClusterStatus env cluster (sort_key p_Name items) vars bs us (fst vars = cls_Size (cl_Spec cluster)) formed)
      (\<lambda>_. reached w0 (status_run cluster))) w"
proof (rule wp_formRing, rule wp_writeClusterStatus[OF nodes], goal_cases)
  case f: (1 formed w5 ms r c w6 rs)
  have ev: "formed_evidence cluster (sort_key p_Name items) (es @ ms @ rs)" if "clt_Phase (cl_Status c) = PhaseReady"
    by (rule formed_evidence_mono, rule f(3)[rule_format])
      (use f(6) nodes that in \<open>auto simp: status_reflects_def nodes_of_def split: if_splits\<close>)
  have "status_ok cluster (es @ ms @ rs) (ClusterStatus c)"
    unfolding status_ok_def using f(6) ev listed by auto
  then have "status_run cluster ((es @ ms @ rs) @ [ClusterStatus c])"
    by (rule status_run_written[rotated]) (use f w quiet_events in simp)
  moreover have "trace w6 = trace w0 @ (es @ ms @ rs) @ [ClusterStatus c]" using f w by simp
  ultimately show ?case unfolding reached_def by blast
qed

lemma wp_updateClusterStatus:
  "wp (updateClusterStatus env cluster) (\<lambda>_. reached w0 (status_run cluster)) w0"
  unfolding updateClusterStatus_def Let_def wp_bind
proof (rule wp_effect_any, goal_cases)
  case pods: (1 l w1)
  show ?case
  proof (cases l)
    case (Inl err)
    show ?thesis using pods by (simp add: Inl quiet_run)
  next
    case l: (Inr items)
    show ?thesis
      unfolding l sum.case wp_bind
    proof (rule wp_nodes, unfold sum.case wp_bind bucketRefs_def userRefs_def, rule wp_effect_any, goal_cases)
      case prems: (1 vars w2 es lb w3)
      show ?case
      proof (cases lb)
        case Inl
        with pods prems show ?thesis by (simp add: quiet_run quiet_events)
      next
        case (Inr bs)
        show ?thesis
          unfolding Inr sum.case wp_bind wp_return
        proof (rule wp_effect_any, goal_cases)
          case users: (1 lu w4)
          show ?case
          proof (cases lu)
            case Inl
            with pods prems users show ?thesis by (simp add: quiet_run quiet_events)
          next
            case (Inr us)
            show ?thesis
              unfolding Inr sum.case wp_bind
              by (rule wp_form_and_write[OF prems(3)]) (use pods prems users l in simp, simp_all add: quiet_events prems(2))
          qed
        qed
      qed
    qed
  qed
qed


text \<open>A status is written whenever the lists succeed, for an outside without state.\<close>

lemma status_written:
  fixes env :: "unit env"
  defines "pods \<equiv> \<lambda>items. sort_key p_Name items"
  assumes env: "list_pods env (cl_Namespace cluster) [(''cluster'', cl_Name cluster)] () = (Inr items, ())"
      "list_buckets env (cl_Namespace cluster) () = (Inr bs, ())" "list_users env (cl_Namespace cluster) () = (Inr us, ())"
    and ring: "\<And>t. fst (run_state (formRing env cluster (ready_count (pods items) = cls_Size (cl_Spec cluster)) (pods items))
        \<lparr>outside = (), trace = t\<rparr>) = b"
  shows "wp (updateClusterStatus env cluster)
    (\<lambda>_ w'. \<exists>es c. trace w' = es @ [ClusterStatus c] \<and> status_reflects cluster (pods items) b c) w"
proof -
  let ?Q = "\<lambda>_ w'. \<exists>es c. trace w' = es @ [ClusterStatus c] \<and> status_reflects cluster (pods items) b c"
  have formed: "wp (formRing env cluster (fst vars = cls_Size (cl_Spec cluster)) (pods items)) (\<lambda>f _. f = b) w1"
    if "nodes_of (pods items) vars" for vars w1
    using ring[of "trace w1"] that by (cases w1) (auto simp: wp_def nodes_of_def split: prod.split)
  have fin: "wp (formRing env cluster (fst vars = cls_Size (cl_Spec cluster)) (pods items)) (\<lambda>f.
      wp (writeClusterStatus env cluster (pods items) vars x y (fst vars = cls_Size (cl_Spec cluster)) f) ?Q) w1"
    if "nodes_of (pods items) vars" for vars w1 x y
  proof (rule wp_mono[OF formed[OF that]], goal_cases)
    case (1 f w2)
    show ?case by (rule wp_writeClusterStatus[OF that]) (use 1 in \<open>auto simp flip: append_assoc\<close>)
  qed
  show ?thesis
    unfolding updateClusterStatus_def Let_def bucketRefs_def userRefs_def wp_bind
    by (simp add: wp_effect env flip: pods_def) (rule wp_nodes, simp add: wp_simps env fin)
qed

definition two_pods :: "Pod list" where "two_pods = [sample_pod ''c-0'' ''old'', sample_pod ''c-1'' ''new'']"

lemma two_formed: "fst (run_state (formRing rollout_env (sample_cluster 2) True two_pods) \<lparr>outside = (), trace = t\<rparr>)"
  by code_simp

lemma two_ready: "ready_count two_pods = 2" "sort_key p_Name two_pods = two_pods" "cls_Size (cl_Spec (sample_cluster 2)) = 2"
  by code_simp+

lemma two_run:
  "wp (updateClusterStatus rollout_env (sample_cluster 2))
    (\<lambda>_ w'. \<exists>es c. trace w' = es @ [ClusterStatus c] \<and> status_reflects (sample_cluster 2) two_pods True c) (start ())"
proof -
  have "list_pods rollout_env ns ls () = (Inr two_pods, ())" "list_buckets rollout_env ns () = (Inr [], ())"
      "list_users rollout_env ns () = (Inr [], ())" for ns ls
    by (simp_all add: rollout_env_def two_pods_def ring_env_def sample_env_def)
  from status_written[where env = rollout_env, OF this] show ?thesis
    using two_formed by (simp add: two_ready)
qed


text \<open>A pod of another application with the label \<^verbatim>\<open>cluster\<close>, beside the one node of a cluster.\<close>

definition stranger_pods :: "Pod list" where "stranger_pods = [sample_pod ''c-0'' ''new'', sample_pod ''web-7f9'' ''new'']"

definition stranger_env :: "unit env" where
  "stranger_env = sample_env\<lparr>list_pods := (\<lambda>ns ls w.
     (Inr (if (''app'', ''riak'') \<in> set ls then take 1 stranger_pods else stranger_pods), w))\<rparr>"

lemma stranger_ready: "ready_count stranger_pods = 2" "sort_key p_Name stranger_pods = stranger_pods"
  "map p_Name stranger_pods = [''c-0'', ''web-7f9'']"
  by code_simp+


end
