(* ===== verification/Metrics.thy ===== *)
theory Metrics
  imports Cluster_Controller
begin

text \<open>
  The CR state collector (\<^verbatim>\<open>internal/controller/metrics.go\<close>): the Prometheus samples of one scrape. A channel of
  metrics is the list of what was sent; the gauge values are counts and flags, exact in a \<^verbatim>\<open>float64\<close>, and
  are integers here. Go iterates a map in an unspecified order: the order is an argument, of which only
  that it is a permutation is assumed. The three lists the cached client returns are arguments of
  \<open>Collect_metrics\<close>; registering the collector with the metrics registry is not modelled.
\<close>

definition unsetPhase :: string where "unsetPhase = ''Pending''"

definition clusterPhases :: "string list" where
  "clusterPhases = [PhaseCreating, PhaseReady, PhaseUpdating, PhaseFailed]"

datatype Desc = descClusterPhase | descClusterNodes | descClusterMonitoringReady | descClusterTLSReady
  | descBuckets | descUsers | descUserCerts | descResources

definition Describe :: "Desc list" where
  "Describe = [descClusterPhase, descClusterNodes, descClusterMonitoringReady, descClusterTLSReady,
     descBuckets, descUsers, descUserCerts, descResources]"

definition metricsNamespace :: string where "metricsNamespace = ''openriak''"

text \<open>The name of a descriptor, and the variable labels it declares.\<close>

fun desc_fqName :: "Desc \<Rightarrow> string" where
  "desc_fqName descClusterPhase = metricsNamespace @ ''_riakcluster_phase''"
| "desc_fqName descClusterNodes = metricsNamespace @ ''_riakcluster_nodes''"
| "desc_fqName descClusterMonitoringReady = metricsNamespace @ ''_riakcluster_monitoring_ready''"
| "desc_fqName descClusterTLSReady = metricsNamespace @ ''_riakcluster_tls_ready''"
| "desc_fqName descBuckets = metricsNamespace @ ''_riakbuckets''"
| "desc_fqName descUsers = metricsNamespace @ ''_riakusers''"
| "desc_fqName descUserCerts = metricsNamespace @ ''_riakuser_certificates''"
| "desc_fqName descResources = metricsNamespace @ ''_resources''"

fun desc_labels :: "Desc \<Rightarrow> string list" where
  "desc_labels descClusterPhase = [''namespace'', ''name'', ''phase'']"
| "desc_labels descClusterNodes = [''namespace'', ''name'', ''state'']"
| "desc_labels descClusterMonitoringReady = [''namespace'', ''name'']"
| "desc_labels descClusterTLSReady = [''namespace'', ''name'']"
| "desc_labels descBuckets = [''namespace'', ''cluster'', ''phase'']"
| "desc_labels descUsers = [''namespace'', ''cluster'', ''phase'']"
| "desc_labels descUserCerts = [''namespace'', ''cluster'', ''ready'']"
| "desc_labels descResources = [''kind'', ''phase'']"

record Metric =
  me_Desc :: Desc
  me_Value :: int
  me_Labels :: "string list"

definition gauge :: "Desc \<Rightarrow> int \<Rightarrow> string list \<Rightarrow> Metric" where
  "gauge d v labels = \<lparr>me_Desc = d, me_Value = v, me_Labels = labels\<rparr>"

definition boolValue :: "bool \<Rightarrow> int" where
  "boolValue b = (if b then 1 else 0)"

definition phaseOrPending :: "string \<Rightarrow> string" where
  "phaseOrPending p = (if p = [] then unsetPhase else p)"

text \<open>A map of counters, and \<^verbatim>\<open>m[k]++\<close>.\<close>

type_synonym 'k counters = "('k \<times> int) list"

fun bump :: "'k \<Rightarrow> 'k counters \<Rightarrow> 'k counters" where
  "bump k [] = [(k, 1)]"
| "bump k ((k', n) # m) = (if k' = k then (k', n + 1) # m else (k', n) # bump k m)"

definition counter :: "'k counters \<Rightarrow> 'k \<Rightarrow> int" where
  "counter m k = (case map_of m k of None \<Rightarrow> 0 | Some n \<Rightarrow> n)"

record groupKey =
  gk_namespace :: string
  gk_cluster :: string
  gk_value :: string

definition emitGroups :: "(groupKey counters \<Rightarrow> groupKey counters) \<Rightarrow> Desc \<Rightarrow> groupKey counters \<Rightarrow> Metric list" where
  "emitGroups iter d groups = map (\<lambda>(k, n). gauge d n [gk_namespace k, gk_cluster k, gk_value k]) (iter groups)"

definition emitKindTotals :: "string \<Rightarrow> string counters \<Rightarrow> string list \<Rightarrow> Metric list" where
  "emitKindTotals kd byPhase known =
     map (\<lambda>p. gauge descResources (counter byPhase p) [kd, p]) known @
     (let n = counter byPhase unsetPhase in if n > 0 then [gauge descResources n [kd, unsetPhase]] else [])"

definition clusterMetrics :: "RiakCluster \<Rightarrow> Metric list" where
  "clusterMetrics cl =
     (let ns = cl_Namespace cl; name = cl_Name cl; st = cl_Status cl
      in map (\<lambda>p. gauge descClusterPhase (boolValue (clt_Phase st = p)) [ns, name, p]) clusterPhases @
         [gauge descClusterNodes (clt_ReadyNodes st) [ns, name, ''ready''],
          gauge descClusterNodes (clt_TotalNodes st) [ns, name, ''total''],
          gauge descClusterMonitoringReady
            (boolValue (ms_Enabled (clt_MonitoringStatus st) \<and> ms_ExporterReady (clt_MonitoringStatus st))) [ns, name],
          gauge descClusterTLSReady
            (boolValue (ts_Enabled (clt_TLSStatus st) \<and> ts_ClientReady (clt_TLSStatus st))) [ns, name]])"

definition collectClusters :: "RiakCluster list \<Rightarrow> Metric list" where
  "collectClusters items =
     (let byPhase = fold (\<lambda>cl m. bump (phaseOrPending (clt_Phase (cl_Status cl))) m) items []
      in concat (map clusterMetrics items) @ emitKindTotals ''RiakCluster'' byPhase clusterPhases)"

definition collectBuckets :: "(groupKey counters \<Rightarrow> groupKey counters) \<Rightarrow> RiakBucket list \<Rightarrow> Metric list" where
  "collectBuckets iter items =
     (let phase = (\<lambda>b. phaseOrPending (bt_Phase (b_Status b)));
          groups = fold (\<lambda>b. bump \<lparr>gk_namespace = b_Namespace b, gk_cluster = bs_ClusterName (b_Spec b), gk_value = phase b\<rparr>) items [];
          byPhase = fold (\<lambda>b. bump (phase b)) items []
      in emitGroups iter descBuckets groups @
         emitKindTotals ''RiakBucket'' byPhase [BucketPhaseCreating, BucketPhaseReady, BucketPhaseFailed])"

definition collectUsers :: "(groupKey counters \<Rightarrow> groupKey counters) \<Rightarrow> RiakUser list \<Rightarrow> Metric list" where
  "collectUsers iter items =
     (let phase = (\<lambda>u. phaseOrPending (ut_Phase (u_Status u)));
          ready = (\<lambda>u. if ut_CertificateReady (u_Status u) then ''true'' else ''false'');
          groups = fold (\<lambda>u. bump \<lparr>gk_namespace = u_Namespace u, gk_cluster = us_ClusterName (u_Spec u), gk_value = phase u\<rparr>) items [];
          certs = fold (\<lambda>u. bump \<lparr>gk_namespace = u_Namespace u, gk_cluster = us_ClusterName (u_Spec u), gk_value = ready u\<rparr>) items [];
          byPhase = fold (\<lambda>u. bump (phase u)) items []
      in emitGroups iter descUsers groups @ emitGroups iter descUserCerts certs @
         emitKindTotals ''RiakUser'' byPhase [UserPhaseCreating, UserPhaseReady, UserPhaseFailed])"

definition Collect_metrics :: "(groupKey counters \<Rightarrow> groupKey counters) \<Rightarrow> RiakCluster list res \<Rightarrow> RiakBucket list res \<Rightarrow>
    RiakUser list res \<Rightarrow> Metric list" where
  "Collect_metrics iter clusters buckets users =
     (case clusters of Inl _ \<Rightarrow> [] | Inr items \<Rightarrow> collectClusters items) @
     (case buckets of Inl _ \<Rightarrow> [] | Inr items \<Rightarrow> collectBuckets iter items) @
     (case users of Inl _ \<Rightarrow> [] | Inr items \<Rightarrow> collectUsers iter items)"

subsection \<open>Counting\<close>

lemma counter_bump: "counter (bump k m) k' = counter m k' + (if k' = k then 1 else 0)"
  by (induction m) (auto simp: counter_def)

lemma keys_bump: "set (map fst (bump k m)) = insert k (set (map fst m))"
  by (induction k m rule: bump.induct) (auto simp del: list.set_map)

lemma distinct_bump: "distinct (map fst m) \<Longrightarrow> distinct (map fst (bump k m))"
proof (induction m)
  case (Cons e m)
  have "k' \<notin> set (map fst (bump k m))" if "k' \<notin> set (map fst m)" "k' \<noteq> k" for k'
    using that unfolding keys_bump by simp
  with Cons show ?case by (cases e) auto
qed simp

text \<open>Counting the values of a function over a list.\<close>

definition tally :: "('a \<Rightarrow> 'k) \<Rightarrow> 'a list \<Rightarrow> 'k counters" where
  "tally f xs = fold (\<lambda>x. bump (f x)) xs []"

lemma tally_snoc: "tally f (xs @ [x]) = bump (f x) (tally f xs)"
  by (simp add: tally_def)

lemma counter_tally: "counter (tally f xs) k = int (length (filter (\<lambda>x. f x = k) xs))"
  by (induction xs rule: rev_induct) (auto simp: tally_snoc counter_bump, simp_all add: tally_def counter_def)

lemma keys_tally: "set (map fst (tally f xs)) = f ` set xs"
  by (induction xs rule: rev_induct) (simp_all only: tally_snoc keys_bump, auto simp: tally_def)

lemma distinct_tally: "distinct (map fst (tally f xs))"
  by (induction xs rule: rev_induct) (simp_all add: tally_snoc distinct_bump, simp add: tally_def)

text \<open>What a tally holds: every value that occurs, with the number of its occurrences.\<close>

lemma tally_mem: "(k, n) \<in> set (tally f xs) \<longleftrightarrow> 0 < n \<and> n = int (length (filter (\<lambda>x. f x = k) xs))"
proof -
  have "(k, n) \<in> set (tally f xs) \<longleftrightarrow> map_of (tally f xs) k = Some n"
    by (simp add: distinct_tally)
  moreover have "map_of (tally f xs) k = None \<longleftrightarrow> filter (\<lambda>x. f x = k) xs = []"
    using keys_tally[of f xs] by (auto simp: map_of_eq_None_iff filter_empty_conv)
  ultimately show ?thesis
    using counter_tally[of f xs k] by (cases "map_of (tally f xs) k") (auto simp: counter_def)
qed

text \<open>The iteration order of a Go map: any permutation.\<close>

definition permutes :: "('a list \<Rightarrow> 'a list) \<Rightarrow> bool" where
  "permutes iter \<longleftrightarrow> (\<forall>xs. mset (iter xs) = mset xs)"

lemma permutes_set [simp]: "permutes iter \<Longrightarrow> set (iter xs) = set xs"
  unfolding permutes_def by (metis set_mset_mset)

lemma permutes_distinct: "permutes iter \<Longrightarrow> distinct (map f (iter xs)) \<longleftrightarrow> distinct (map f xs)"
  unfolding permutes_def by (rule mset_eq_imp_distinct_iff) simp

definition series :: "Metric \<Rightarrow> Desc \<times> string list" where
  "series m = (me_Desc m, me_Labels m)"

lemma series_gauge [simp]: "series (gauge d v ls) = (d, ls)"
  by (simp add: series_def gauge_def)

lemma gauge_eq [simp]: "gauge d v ls = gauge d' v' ls' \<longleftrightarrow> d = d' \<and> v = v' \<and> ls = ls'"
  by (simp add: gauge_def)

lemma groups_series: "map series (emitGroups iter d m) = map ((\<lambda>k. (d, [gk_namespace k, gk_cluster k, gk_value k])) \<circ> fst) (iter m)"
  by (simp add: emitGroups_def case_prod_beta)

lemma groups_distinct:
  assumes "permutes iter" "distinct (map fst m)" shows "distinct (map series (emitGroups iter d m))"
proof -
  have "inj (\<lambda>k :: groupKey. (d, [gk_namespace k, gk_cluster k, gk_value k]))" by (auto intro!: injI groupKey.equality)
  then have "distinct (map (\<lambda>k. (d, [gk_namespace k, gk_cluster k, gk_value k])) (map fst (iter m)))"
    using assms permutes_distinct[of iter fst m] by (simp add: distinct_map[of _ "map fst (iter m)"] inj_on_subset[OF _ subset_UNIV] del: map_map)
  then show ?thesis by (simp only: groups_series list.map_comp)
qed

lemma groups_mem:
  "permutes iter \<Longrightarrow> gauge d' n [ns, c, v] \<in> set (emitGroups iter d m) \<longleftrightarrow>
     d' = d \<and> (\<lparr>gk_namespace = ns, gk_cluster = c, gk_value = v\<rparr>, n) \<in> set m"
  by (auto simp: emitGroups_def image_iff split: prod.splits) (metis groupKey.surjective old.unit.exhaust, force)

lemma totals_distinct:
  "distinct known \<Longrightarrow> unsetPhase \<notin> set known \<Longrightarrow> distinct (map series (emitKindTotals kd m known))"
  by (auto simp: emitKindTotals_def Let_def distinct_map inj_on_def)

subsection \<open>One scrape\<close>

lemma concat_distinct:
  assumes "distinct (map key xs)" and "\<And>x. x \<in> set xs \<Longrightarrow> distinct (f x)"
    and "\<And>x y s. s \<in> set (f x) \<Longrightarrow> s \<in> set (f y) \<Longrightarrow> key x = key y"
  shows "distinct (concat (map f xs))"
  using assms(1,2)
proof (induction xs)
  case (Cons x xs)
  have "set (f x) \<inter> set (f y) = {}" if "y \<in> set xs" for y
    using Cons.prems(1) assms(3)[of _ x y] that by (auto simp: image_iff)
  with Cons show ?case by auto
qed simp

lemma clusterMetrics_series:
  "s \<in> set (map series (clusterMetrics cl)) \<Longrightarrow>
     (\<exists>l. snd s = [cl_Namespace cl, cl_Name cl] @ l) \<and>
     fst s \<in> {descClusterPhase, descClusterNodes, descClusterMonitoringReady, descClusterTLSReady}"
  by (auto simp: clusterMetrics_def Let_def)

lemma clusterPhases_distinct: "distinct clusterPhases" "unsetPhase \<notin> set clusterPhases"
  by code_simp+

lemma clusterMetrics_distinct: "distinct (map series (clusterMetrics cl))"
  using clusterPhases_distinct(1) by (auto simp: clusterMetrics_def Let_def distinct_map inj_on_def)

lemma known_phases:
  "distinct [BucketPhaseCreating, BucketPhaseReady, BucketPhaseFailed]" "unsetPhase \<notin> set [BucketPhaseCreating, BucketPhaseReady, BucketPhaseFailed]"
  "distinct [UserPhaseCreating, UserPhaseReady, UserPhaseFailed]" "unsetPhase \<notin> set [UserPhaseCreating, UserPhaseReady, UserPhaseFailed]"
  by code_simp+

text \<open>The descriptors and the leading label that each of the three collectors uses.\<close>

lemma totals_series: "s \<in> set (map series (emitKindTotals kd m known)) \<Longrightarrow> fst s = descResources \<and> hd (snd s) = kd"
  by (auto simp: emitKindTotals_def Let_def split: if_splits)

lemma emitGroups_series: "s \<in> set (map series (emitGroups iter d m)) \<Longrightarrow> fst s = d"
  by (auto simp: groups_series)

lemma collectClusters_distinct:
  assumes "distinct (map (\<lambda>cl. (cl_Namespace cl, cl_Name cl)) items)"
  shows "distinct (map series (collectClusters items))"
proof -
  have "distinct (concat (map (\<lambda>cl. map series (clusterMetrics cl)) items))"
  proof (rule concat_distinct[OF assms clusterMetrics_distinct])
    fix x y s assume "s \<in> set (map series (clusterMetrics x))" "s \<in> set (map series (clusterMetrics y))"
    from this[THEN clusterMetrics_series] show "(cl_Namespace x, cl_Name x) = (cl_Namespace y, cl_Name y)" by auto
  qed
  moreover have "fst s \<noteq> descResources" if "s \<in> set (concat (map (\<lambda>cl. map series (clusterMetrics cl)) items))" for s
    using that clusterMetrics_series by fastforce
  moreover note totals_distinct[OF clusterPhases_distinct, of "''RiakCluster''"] totals_series
  ultimately show ?thesis
    unfolding collectClusters_def Let_def map_append map_concat list.map_comp o_def distinct_append
    by (metis (no_types, lifting) disjoint_iff)
qed

definition bucketKey :: "RiakBucket \<Rightarrow> groupKey" where
  "bucketKey b = \<lparr>gk_namespace = b_Namespace b, gk_cluster = bs_ClusterName (b_Spec b), gk_value = phaseOrPending (bt_Phase (b_Status b))\<rparr>"

definition userKey :: "RiakUser \<Rightarrow> groupKey" where
  "userKey u = \<lparr>gk_namespace = u_Namespace u, gk_cluster = us_ClusterName (u_Spec u), gk_value = phaseOrPending (ut_Phase (u_Status u))\<rparr>"

definition certKey :: "RiakUser \<Rightarrow> groupKey" where
  "certKey u = \<lparr>gk_namespace = u_Namespace u, gk_cluster = us_ClusterName (u_Spec u),
     gk_value = (if ut_CertificateReady (u_Status u) then ''true'' else ''false'')\<rparr>"

lemma collectBuckets_tally:
  "collectBuckets iter items = emitGroups iter descBuckets (tally bucketKey items) @
     emitKindTotals ''RiakBucket'' (tally (\<lambda>b. phaseOrPending (bt_Phase (b_Status b))) items)
       [BucketPhaseCreating, BucketPhaseReady, BucketPhaseFailed]"
  by (simp add: collectBuckets_def tally_def bucketKey_def)

lemma collectUsers_tally:
  "collectUsers iter items = emitGroups iter descUsers (tally userKey items) @ emitGroups iter descUserCerts (tally certKey items) @
     emitKindTotals ''RiakUser'' (tally (\<lambda>u. phaseOrPending (ut_Phase (u_Status u))) items)
       [UserPhaseCreating, UserPhaseReady, UserPhaseFailed]"
  by (simp add: collectUsers_def tally_def userKey_def certKey_def)

lemma collectBuckets_distinct: "permutes iter \<Longrightarrow> distinct (map series (collectBuckets iter items))"
  using groups_distinct[OF _ distinct_tally] totals_distinct[OF known_phases(1,2)]
    totals_series emitGroups_series unfolding collectBuckets_tally map_append distinct_append
  by (metis (no_types, lifting) Desc.distinct disjoint_iff)

lemma disjoint_by:
  "(\<And>x. x \<in> A \<Longrightarrow> f x = a) \<Longrightarrow> (\<And>y. y \<in> B \<Longrightarrow> f y = b) \<Longrightarrow> a \<noteq> b \<Longrightarrow> A \<inter> B = {}"
  by auto

lemma collectUsers_distinct: "permutes iter \<Longrightarrow> distinct (map series (collectUsers iter items))"
proof -
  assume iter: "permutes iter"
  let ?g = "emitGroups iter descUsers (tally userKey items)" and ?c = "emitGroups iter descUserCerts (tally certKey items)"
  let ?t = "emitKindTotals ''RiakUser'' (tally (\<lambda>u. phaseOrPending (ut_Phase (u_Status u))) items) [UserPhaseCreating, UserPhaseReady, UserPhaseFailed]"
  have "distinct (map series ?g)" "distinct (map series ?c)" "distinct (map series ?t)"
    by (rule groups_distinct[OF iter distinct_tally] totals_distinct[OF known_phases(3,4)])+
  moreover have "set (map series ?g) \<inter> set (map series ?c) = {}"
    by (rule disjoint_by[where f = fst, OF emitGroups_series emitGroups_series]) (assumption | rule Desc.distinct)+
  moreover have "set (map series ?g) \<inter> set (map series ?t) = {}" "set (map series ?c) \<inter> set (map series ?t) = {}"
    by (rule disjoint_by[where f = fst, OF emitGroups_series totals_series[THEN conjunct1]], (assumption | rule Desc.distinct)+)+
  ultimately show ?thesis
    unfolding collectUsers_tally map_append distinct_append set_append Int_Un_distrib by simp
qed

text \<open>The collector a series belongs to.\<close>

definition owner :: "Desc \<times> string list \<Rightarrow> string" where
  "owner s = (case fst s of
     descResources \<Rightarrow> hd (snd s) | descBuckets \<Rightarrow> ''RiakBucket'' | descUsers \<Rightarrow> ''RiakUser'' | descUserCerts \<Rightarrow> ''RiakUser''
   | _ \<Rightarrow> ''RiakCluster'')"

abbreviation owned :: "string \<Rightarrow> Metric list \<Rightarrow> bool" where
  "owned kd \<equiv> list_all (\<lambda>m. owner (series m) = kd)"

lemma owned_parts:
  "owned kd (emitKindTotals kd m known)"
  "owned ''RiakBucket'' (emitGroups iter descBuckets g)"
  "owned ''RiakUser'' (emitGroups iter descUsers g)" "owned ''RiakUser'' (emitGroups iter descUserCerts g)"
  "owned ''RiakCluster'' (clusterMetrics cl)"
  by (auto simp: emitKindTotals_def emitGroups_def clusterMetrics_def Let_def owner_def list_all_iff)

lemma list_all_concat_map: "(\<And>x. list_all P (f x)) \<Longrightarrow> list_all P (concat (map f xs))"
  by (induction xs) auto

lemma owned_collectors:
  "owned ''RiakCluster'' (collectClusters cs)" "owned ''RiakBucket'' (collectBuckets iter bs)" "owned ''RiakUser'' (collectUsers iter us)"
  by (simp_all add: collectClusters_def Let_def collectBuckets_tally collectUsers_tally owned_parts list_all_concat_map)

lemma owned_disjoint: "owned k xs \<Longrightarrow> owned k' ys \<Longrightarrow> k \<noteq> k' \<Longrightarrow> set (map series xs) \<inter> set (map series ys) = {}"
  by (auto simp: list_all_iff)

definition well_labelled :: "Metric \<Rightarrow> bool" where
  "well_labelled m \<longleftrightarrow> me_Desc m \<in> set Describe \<and> length (me_Labels m) = length (desc_labels (me_Desc m))"

lemma well_labelled_gauge [simp]: "well_labelled (gauge d v ls) \<longleftrightarrow> length ls = length (desc_labels d)"
  by (cases d) (auto simp: well_labelled_def gauge_def Describe_def)

lemma well_labelled_groups: "length (desc_labels d) = 3 \<Longrightarrow> list_all well_labelled (emitGroups iter d m)"
  by (auto simp: emitGroups_def list_all_iff)

lemma well_labelled_totals: "list_all well_labelled (emitKindTotals kd m known)"
  by (auto simp: emitKindTotals_def list_all_iff Let_def)

lemma well_labelled_cluster: "list_all well_labelled (clusterMetrics cl)"
  by (auto simp: clusterMetrics_def list_all_iff Let_def)

lemma well_labelled_collectors:
  "list_all well_labelled (collectClusters cs)" "list_all well_labelled (collectBuckets iter bs)" "list_all well_labelled (collectUsers iter us)"
  by (simp_all add: collectClusters_def Let_def collectBuckets_tally collectUsers_tally
      well_labelled_groups well_labelled_totals well_labelled_cluster list_all_concat_map)

text \<open>
  C31: a scrape is never refused as inconsistent. Clusters have distinct namespaces and names (the API server's guarantee), and
  whatever order Go iterates its maps in, no two samples of a scrape are of the same series (descriptor and label
  values; no two descriptors share a name), every sample's descriptor is one that \<open>Describe\<close> announced, and it has as many label values as the descriptor has
  labels (the constructor of a sample panics otherwise).
\<close>

theorem Collect_consistent:
  assumes "permutes iter"
    and "\<And>items. clusters = Inr items \<Longrightarrow> distinct (map (\<lambda>cl. (cl_Namespace cl, cl_Name cl)) items)"
  shows "distinct (map series (Collect_metrics iter clusters buckets users)) \<and>
    list_all well_labelled (Collect_metrics iter clusters buckets users) \<and> distinct (map desc_fqName Describe)"
proof -
  have fq: "distinct (map desc_fqName Describe)" by code_simp
  define A where "A = (case clusters of Inl _ \<Rightarrow> [] | Inr items \<Rightarrow> collectClusters items)"
  define B where "B = (case buckets of Inl _ \<Rightarrow> [] | Inr items \<Rightarrow> collectBuckets iter items)"
  define C where "C = (case users of Inl _ \<Rightarrow> [] | Inr items \<Rightarrow> collectUsers iter items)"
  have split: "Collect_metrics iter clusters buckets users = A @ B @ C" by (simp add: Collect_metrics_def A_def B_def C_def)
  have "distinct (map series A)" "distinct (map series B)" "distinct (map series C)"
    using assms collectClusters_distinct collectBuckets_distinct collectUsers_distinct
    by (auto simp: A_def B_def C_def split: sum.split)
  moreover have own: "owned ''RiakCluster'' A" "owned ''RiakBucket'' B" "owned ''RiakUser'' C"
    by (simp_all add: A_def B_def C_def owned_collectors split: sum.split)
  have "set (map series A) \<inter> set (map series B) = {}" "set (map series A) \<inter> set (map series C) = {}"
      "set (map series B) \<inter> set (map series C) = {}"
    by (rule owned_disjoint[OF own(1,2)] owned_disjoint[OF own(1,3)] owned_disjoint[OF own(2,3)], simp)+
  moreover have "list_all well_labelled A" "list_all well_labelled B" "list_all well_labelled C"
    by (simp_all add: A_def B_def C_def well_labelled_collectors split: sum.split)
  ultimately show ?thesis
    unfolding split map_append distinct_append set_append list_all_append Int_Un_distrib using fq by simp
qed

text \<open>
  C32: the counts a scrape reports are the true counts. For every namespace, cluster and phase there is a sample of
  \<^verbatim>\<open>openriak_riakbuckets\<close> (\<^verbatim>\<open>openriak_riakusers\<close>, and \<^verbatim>\<open>openriak_riakuser_certificates\<close> by whether the certificate is issued) exactly when some
  listed object is in that group, and its value is the number of those objects, an unset phase counting as
  \<^verbatim>\<open>Pending\<close>; and a list that fails leaves the samples of the other kinds as they are.
\<close>

theorem Collect_counts:
  assumes "permutes iter"
  shows "(gauge descBuckets n [ns, c, v] \<in> set (Collect_metrics iter clusters (Inr buckets) users) \<longleftrightarrow>
       0 < n \<and> n = int (length (filter (\<lambda>b. b_Namespace b = ns \<and> bs_ClusterName (b_Spec b) = c \<and>
         phaseOrPending (bt_Phase (b_Status b)) = v) buckets))) \<and>
     (gauge descUsers n [ns, c, v] \<in> set (Collect_metrics iter clusters bs (Inr us)) \<longleftrightarrow>
       0 < n \<and> n = int (length (filter (\<lambda>u. u_Namespace u = ns \<and> us_ClusterName (u_Spec u) = c \<and>
         phaseOrPending (ut_Phase (u_Status u)) = v) us))) \<and>
     (gauge descUserCerts n [ns, c, v] \<in> set (Collect_metrics iter clusters bs (Inr us)) \<longleftrightarrow>
       0 < n \<and> n = int (length (filter (\<lambda>u. u_Namespace u = ns \<and> us_ClusterName (u_Spec u) = c \<and>
         (if ut_CertificateReady (u_Status u) then ''true'' else ''false'') = v) us)))"
proof -
  have other: "gauge d n [ns, c, v] \<notin> set (emitKindTotals kd m known)" "gauge d n [ns, c, v] \<notin> set (collectClusters cs)"
    if "d = descBuckets \<or> d = descUsers \<or> d = descUserCerts" for d kd m known cs
    using that by (auto simp: emitKindTotals_def collectClusters_def clusterMetrics_def Let_def)
  have buckets: "gauge d n [ns, c, v] \<in> set (collectBuckets iter xs) \<longleftrightarrow> d = descBuckets \<and> (\<lparr>gk_namespace = ns, gk_cluster = c, gk_value = v\<rparr>, n) \<in> set (tally bucketKey xs)"
    if "d = descBuckets \<or> d = descUsers \<or> d = descUserCerts" for d xs
    using groups_mem[OF assms] other[OF that] by (auto simp: collectBuckets_tally)
  have users: "gauge d n [ns, c, v] \<in> set (collectUsers iter xs) \<longleftrightarrow>
      d = descUsers \<and> (\<lparr>gk_namespace = ns, gk_cluster = c, gk_value = v\<rparr>, n) \<in> set (tally userKey xs) \<or>
      d = descUserCerts \<and> (\<lparr>gk_namespace = ns, gk_cluster = c, gk_value = v\<rparr>, n) \<in> set (tally certKey xs)"
    if "d = descBuckets \<or> d = descUsers \<or> d = descUserCerts" for d xs
    using groups_mem[OF assms] other[OF that] by (auto simp: collectUsers_tally)
  show ?thesis
    by (auto simp: Collect_metrics_def other buckets users tally_mem bucketKey_def userKey_def certKey_def split: sum.split)
qed

lemma permutes_rev: "permutes rev"
  by (simp add: permutes_def)

theorem Collect_consistent_witness:
  "distinct (map series (Collect_metrics rev (Inr [sample_cluster 3]) (Inl ''timeout'') (Inr [alice, leaving]))) \<and>
   length (Collect_metrics rev (Inr [sample_cluster 3]) (Inl ''timeout'') (Inr [alice, leaving])) = 18"
proof -
  have "distinct (map (\<lambda>cl. (cl_Namespace cl, cl_Name cl)) items)" if "Inr [sample_cluster 3] = (Inr items :: RiakCluster list res)" for items
    using that by auto
  note names = this
  have "length (Collect_metrics rev (Inr [sample_cluster 3]) (Inl ''timeout'') (Inr [alice, leaving])) = 18" by code_simp
  with Collect_consistent[OF permutes_rev names, where clusters = "Inr [sample_cluster 3]" and buckets = "Inl ''timeout''" and users = "Inr [alice, leaving]"]
  show ?thesis by simp
qed

theorem Collect_counts_witness:
  "gauge descUsers 2 [''ns'', ''c'', ''Creating''] \<in> set (Collect_metrics rev (Inl ''timeout'') (Inl ''timeout'') (Inr [alice, leaving]))"
proof -
  have "length (filter (\<lambda>u. u_Namespace u = ''ns'' \<and> us_ClusterName (u_Spec u) = ''c'' \<and>
      phaseOrPending (ut_Phase (u_Status u)) = ''Creating'') [alice, leaving]) = 2" by code_simp
  with Collect_counts[OF permutes_rev, where n = 2 and ns = "''ns''" and c = "''c''" and v = "''Creating''" and us = "[alice, leaving]" and bs = "Inl ''timeout''"]
  show ?thesis by simp
qed

end
