(* ===== verification/Main_Program.thy ===== *)
theory Main_Program
  imports Metrics
begin

text \<open>
  The program (\<^verbatim>\<open>cmd/main.go\<close>): its flags, the options it builds from them, and the steps of its start in order. The steps call
  controller-runtime, so whether each one succeeds is an argument; \<^verbatim>\<open>Start\<close> runs the controllers until the process is told to stop.
  The parsing of the command line itself is the Go standard library's; \<open>flag_defaults\<close> is what it gives with no arguments.
\<close>

record Flags =
  f_metricsAddr :: string
  f_probeAddr :: string
  f_enableLeaderElection :: bool
  f_secureMetrics :: bool
  f_enableHTTP2 :: bool
  f_riakImage :: string
  f_maxConcurrentReconciles :: int

definition flag_defaults :: Flags where
  "flag_defaults = \<lparr>f_metricsAddr = ''0'', f_probeAddr = '':8081'', f_enableLeaderElection = False, f_secureMetrics = True,
     f_enableHTTP2 = False, f_riakImage = ''ghcr.io/marthydavid/riak:3.2.6'', f_maxConcurrentReconciles = 1\<rparr>"

text \<open>The part of a \<^verbatim>\<open>tls.Config\<close> the options change.\<close>

record TLSServerConfig =
  tc_NextProtos :: "string list"

definition disableHTTP2 :: "TLSServerConfig \<Rightarrow> TLSServerConfig" where
  "disableHTTP2 c = c\<lparr>tc_NextProtos := [''http/1.1'']\<rparr>"

definition main_tlsOpts :: "Flags \<Rightarrow> (TLSServerConfig \<Rightarrow> TLSServerConfig) list" where
  "main_tlsOpts fl = [] @ (if \<not> f_enableHTTP2 fl then [disableHTTP2] else [])"

datatype FilterProvider = WithAuthenticationAndAuthorization

record MetricsServerOptions =
  mso_BindAddress :: string
  mso_SecureServing :: bool
  mso_TLSOpts :: "(TLSServerConfig \<Rightarrow> TLSServerConfig) list"
  mso_FilterProvider :: "FilterProvider option"

definition metricsServerOptions :: "Flags \<Rightarrow> MetricsServerOptions" where
  "metricsServerOptions fl =
     (let opts = \<lparr>mso_BindAddress = f_metricsAddr fl, mso_SecureServing = f_secureMetrics fl,
            mso_TLSOpts = main_tlsOpts fl, mso_FilterProvider = None\<rparr>
      in if f_secureMetrics fl then opts\<lparr>mso_FilterProvider := Some WithAuthenticationAndAuthorization\<rparr> else opts)"

record ManagerOptions =
  mo_Metrics :: MetricsServerOptions
  mo_WebhookTLSOpts :: "(TLSServerConfig \<Rightarrow> TLSServerConfig) list"
  mo_HealthProbeBindAddress :: string
  mo_LeaderElection :: bool
  mo_LeaderElectionID :: string

definition managerOptions :: "Flags \<Rightarrow> ManagerOptions" where
  "managerOptions fl = \<lparr>mo_Metrics = metricsServerOptions fl, mo_WebhookTLSOpts = main_tlsOpts fl,
     mo_HealthProbeBindAddress = f_probeAddr fl, mo_LeaderElection = f_enableLeaderElection fl,
     mo_LeaderElectionID = ''8d4788ca.openriak.io''\<rparr>"

subsection \<open>The controllers\<close>

text \<open>What a controller is registered for; all three ignore events that leave the generation as it was.\<close>

record ControllerSetup =
  cs_Named :: string
  cs_For :: kind
  cs_Owns :: "kind list"
  cs_GenerationChanged :: bool
  cs_MaxConcurrentReconciles :: int

definition controllerOptions :: "int \<Rightarrow> int" where
  "controllerOptions maxConcurrent = (if maxConcurrent > 0 then maxConcurrent else 0)"

definition Cluster_SetupWithManager :: "int \<Rightarrow> ControllerSetup" where
  "Cluster_SetupWithManager maxConcurrent = \<lparr>cs_Named = ''riakcluster'', cs_For = KCluster, cs_Owns = [KStatefulSet, KService],
     cs_GenerationChanged = True, cs_MaxConcurrentReconciles = controllerOptions maxConcurrent\<rparr>"

definition Bucket_SetupWithManager :: "int \<Rightarrow> ControllerSetup" where
  "Bucket_SetupWithManager maxConcurrent = \<lparr>cs_Named = ''riakbucket'', cs_For = KBucket, cs_Owns = [],
     cs_GenerationChanged = True, cs_MaxConcurrentReconciles = controllerOptions maxConcurrent\<rparr>"

definition User_SetupWithManager :: "int \<Rightarrow> ControllerSetup" where
  "User_SetupWithManager maxConcurrent = \<lparr>cs_Named = ''riakuser'', cs_For = KUser, cs_Owns = [],
     cs_GenerationChanged = True, cs_MaxConcurrentReconciles = controllerOptions maxConcurrent\<rparr>"

subsection \<open>The start\<close>

datatype main_step =
    AddToScheme string             \<comment> \<open>in \<^verbatim>\<open>init\<close>; a failure panics\<close>
  | NewManager ManagerOptions
  | SetupCluster string ControllerSetup   \<comment> \<open>with the default image\<close>
  | SetupBucket ControllerSetup
  | SetupUser ControllerSetup
  | RegisterCRStateMetrics
  | AddHealthzCheck
  | AddReadyzCheck
  | Start

definition init_steps :: "main_step list" where
  "init_steps = [AddToScheme ''client-go'', AddToScheme ''riak/v1'']"

definition main_steps :: "Flags \<Rightarrow> main_step list" where
  "main_steps fl = init_steps @ [NewManager (managerOptions fl),
     SetupCluster (f_riakImage fl) (Cluster_SetupWithManager (f_maxConcurrentReconciles fl)),
     SetupBucket (Bucket_SetupWithManager (f_maxConcurrentReconciles fl)),
     SetupUser (User_SetupWithManager (f_maxConcurrentReconciles fl)),
     RegisterCRStateMetrics, AddHealthzCheck, AddReadyzCheck, Start]"

definition exit_code :: "main_step \<Rightarrow> nat" where
  "exit_code s = (case s of AddToScheme _ \<Rightarrow> 2 | _ \<Rightarrow> 1)"

text \<open>The steps attempted, and the exit code of the process.\<close>

fun run_steps :: "(main_step \<Rightarrow> bool) \<Rightarrow> main_step list \<Rightarrow> main_step list \<times> nat" where
  "run_steps fails [] = ([], 0)"
| "run_steps fails (s # ss) =
     (if fails s then ([s], exit_code s)
      else (case run_steps fails ss of (tried, code) \<Rightarrow> (s # tried, code)))"

definition main_run :: "(main_step \<Rightarrow> bool) \<Rightarrow> Flags \<Rightarrow> main_step list \<times> nat" where
  "main_run fails fl = run_steps fails (main_steps fl)"

lemma run_steps_ok: "list_all (\<lambda>s. \<not> fails s) ss \<Longrightarrow> run_steps fails ss = (ss, 0)"
  by (induction ss) auto

lemma run_steps_fail:
  "list_all (\<lambda>s. \<not> fails s) pre \<Longrightarrow> fails s \<Longrightarrow> run_steps fails (pre @ s # post) = (pre @ [s], exit_code s)"
  by (induction pre) auto

lemma run_steps_cases:
  obtains "list_all (\<lambda>s. \<not> fails s) ss" "run_steps fails ss = (ss, 0)"
  | pre s post where "ss = pre @ s # post" "list_all (\<lambda>s. \<not> fails s) pre" "fails s" "run_steps fails ss = (pre @ [s], exit_code s)"
proof (cases "list_all (\<lambda>s. \<not> fails s) ss")
  case False
  then obtain pre s post where "ss = pre @ s # post" "fails s" "\<forall>x \<in> set pre. \<not> fails x"
    using split_list_first_prop[of ss fails] by (auto simp: list_all_iff)
  with that(2) run_steps_fail show thesis by (metis list_all_iff)
qed (use that(1) run_steps_ok in blast)


end
