(* ===== verification/Go_Memory.thy ===== *)
theory Go_Memory
  imports Prelude "HOL-Library.AList"
begin

text \<open>
  The part of Go's memory that \<^verbatim>\<open>api/v1/zz_generated.deepcopy.go\<close> depends on: structs are values, but pointers, slices and
  maps refer to cells that several values may share. A type says where a value has such references; \<open>reads\<close> follows
  them and yields what the value looks like as a tree, with the addresses it depends on. A copier is correct (\<open>copies\<close>) when its result
  looks the same and depends on new cells only, each of them once. The lemmas give this for the shapes that
  generated code is made of.
\<close>

named_theorems copies_rules \<open>correct copiers\<close>

subsection \<open>Values, types and memory\<close>

text \<open>A slice is the address of its array, an offset and a length; \<open>None\<close> is \<^verbatim>\<open>nil\<close>.\<close>

datatype gval =
    GInt int
  | GBool bool
  | GStr string
  | GStruct "(string \<times> gval) list"
  | GPtr "nat option"
  | GSlice "(nat \<times> nat \<times> nat) option"
  | GMap "nat option"

datatype cell = Obj gval | Arr "gval list" | Table "(string \<times> string) list"

datatype gtype =
    TInt
  | TBool
  | TStr
  | TStruct "(string \<times> gtype) list"
  | TPtr gtype
  | TSlice gtype
  | TMap

type_synonym memory = "cell list"
type_synonym 'a mem = "(memory, 'a) prog"
type_synonym copier = "gval \<Rightarrow> gval mem"

definition cell_at :: "memory \<Rightarrow> nat \<Rightarrow> cell option" where
  "cell_at h a = (if a < length h then Some (h ! a) else None)"

lemma cell_at_less: "cell_at h a = Some c \<Longrightarrow> a < length h"
  by (simp add: cell_at_def split: if_splits)

lemma cell_at_append: "a < length h \<Longrightarrow> cell_at (h @ h') a = cell_at h a"
  by (simp add: cell_at_def nth_append)

lemma cell_at_end: "cell_at (h @ c # h') (length h) = Some c"
  by (simp add: cell_at_def)

lemma cell_at_update: "cell_at (h[b := c]) a = (if a = b \<and> a < length h then Some c else cell_at h a)"
  by (simp add: cell_at_def)

subsection \<open>Reading a value\<close>

datatype tree =
    LInt int
  | LBool bool
  | LStr string
  | LNil
  | LPtr tree
  | LStruct "(string \<times> tree) list"
  | LSlice "tree list"
  | LMap "string \<rightharpoonup> string"

primrec all_some :: "'a option list \<Rightarrow> 'a list option" where
  "all_some [] = Some []"
| "all_some (x # xs) = (case x of None \<Rightarrow> None | Some y \<Rightarrow> map_option (Cons y) (all_some xs))"

lemma all_some_alt: "all_some xs = (if None \<in> set xs then None else Some (map the xs))"
  by (induction xs) (auto split: option.split)

fun reads :: "memory \<Rightarrow> gtype \<Rightarrow> gval \<Rightarrow> (tree \<times> nat list) option"
  and reads_fields :: "memory \<Rightarrow> (string \<times> gtype) list \<Rightarrow> (string \<times> gval) list \<Rightarrow> ((string \<times> tree) list \<times> nat list) option"
where
  "reads h TInt (GInt i) = Some (LInt i, [])"
| "reads h TBool (GBool b) = Some (LBool b, [])"
| "reads h TStr (GStr s) = Some (LStr s, [])"
| "reads h (TStruct fs) (GStruct vs) = map_option (\<lambda>(x, as). (LStruct x, as)) (reads_fields h fs vs)"
| "reads h (TPtr t) (GPtr None) = Some (LNil, [])"
| "reads h (TPtr t) (GPtr (Some a)) =
     (case cell_at h a of
        Some (Obj v) \<Rightarrow> map_option (\<lambda>(x, as). (LPtr x, a # as)) (reads h t v)
      | _ \<Rightarrow> None)"
| "reads h (TSlice t) (GSlice None) = Some (LNil, [])"
| "reads h (TSlice t) (GSlice (Some (a, off, n))) =
     (case cell_at h a of
        Some (Arr xs) \<Rightarrow>
          if off + n \<le> length xs
          then map_option (\<lambda>ps. (LSlice (map fst ps), a # concat (map snd ps)))
            (all_some (map (reads h t) (take n (drop off xs))))
          else None
      | _ \<Rightarrow> None)"
| "reads h TMap (GMap None) = Some (LNil, [])"
| "reads h TMap (GMap (Some a)) =
     (case cell_at h a of
        Some (Table kvs) \<Rightarrow> if distinct (map fst kvs) then Some (LMap (map_of kvs), [a]) else None
      | _ \<Rightarrow> None)"
| "reads h _ _ = None"
| "reads_fields h [] [] = Some ([], [])"
| "reads_fields h ((n, t) # fs) ((m, v) # vs) =
     (if n = m then
        (case reads h t v of
           None \<Rightarrow> None
         | Some (x, as) \<Rightarrow> map_option (\<lambda>(xs, bs). ((n, x) # xs, as @ bs)) (reads_fields h fs vs))
      else None)"
| "reads_fields h _ _ = None"

lemma all_some_map_cong: "(\<And>x. x \<in> set xs \<Longrightarrow> f x = g x) \<Longrightarrow> all_some (map f xs) = all_some (map g xs)"
  by (metis map_cong)

text \<open>A value depends on nothing but the cells it is said to depend on.\<close>

lemma reads_frame:
  "reads h t v = Some (x, as) \<Longrightarrow> (\<And>a. a \<in> set as \<Longrightarrow> cell_at h' a = cell_at h a) \<Longrightarrow> reads h' t v = Some (x, as)"
  "reads_fields h fs vs = Some (xs, as) \<Longrightarrow> (\<And>a. a \<in> set as \<Longrightarrow> cell_at h' a = cell_at h a) \<Longrightarrow>
     reads_fields h' fs vs = Some (xs, as)"
proof (induction h t v and h fs vs arbitrary: x as and xs as rule: reads_reads_fields.induct)
  case (8 h t a off n)
  then obtain ys ps where c: "cell_at h a = Some (Arr ys)" "off + n \<le> length ys"
      "all_some (map (reads h t) (take n (drop off ys))) = Some ps" "x = LSlice (map fst ps)" "as = a # concat (map snd ps)"
    by (auto split: option.splits cell.splits if_splits)
  let ?l = "take n (drop off ys)"
  have ps: "ps = map (the \<circ> reads h t) ?l" "None \<notin> set (map (reads h t) ?l)"
    using c(3) by (auto simp: all_some_alt split: if_splits)
  have "reads h' t y = reads h t y" if y: "y \<in> set ?l" for y
  proof -
    have "reads h t y \<noteq> None" using ps(2) y by (metis image_eqI set_map)
    then obtain z bs where z: "reads h t y = Some (z, bs)" by auto
    moreover have "set bs \<subseteq> set as" using c(5) ps(1) y z by force
    ultimately show ?thesis using "8.IH"[OF c(1) refl c(2) y] "8.prems"(2) by (metis subsetD)
  qed
  then have "all_some (map (reads h' t) ?l) = Some ps" using c(3) all_some_map_cong by metis
  moreover have "cell_at h' a = cell_at h a" using "8.prems"(2) c(5) by simp
  ultimately show ?case using c by simp
qed (auto split: option.splits cell.splits if_splits)


lemma reads_inside:
  "reads h t v = Some (x, as) \<Longrightarrow> a \<in> set as \<Longrightarrow> a < length h"
  "reads_fields h fs vs = Some (xs, as) \<Longrightarrow> a \<in> set as \<Longrightarrow> a < length h"
proof (induction h t v and h fs vs arbitrary: x as a and xs as a rule: reads_reads_fields.induct)
  case (8 h t b off n)
  then obtain ys ps where c: "cell_at h b = Some (Arr ys)" "off + n \<le> length ys"
      "all_some (map (reads h t) (take n (drop off ys))) = Some ps" "as = b # concat (map snd ps)"
    by (auto split: option.splits cell.splits if_splits)
  let ?l = "take n (drop off ys)"
  have ps: "ps = map (the \<circ> reads h t) ?l" "None \<notin> set (map (reads h t) ?l)"
    using c(3) by (auto simp: all_some_alt split: if_splits)
  show ?case
  proof (cases "a = b")
    case False
    then obtain y where y: "y \<in> set ?l" "a \<in> set (snd (the (reads h t y)))"
      using "8.prems"(2) c(4) ps(1) by auto
    have "reads h t y \<noteq> None" using ps(2) y(1) by (metis image_eqI set_map)
    then show ?thesis using "8.IH"[OF c(1) refl c(2) y(1)] y(2) by auto
  qed (use c(1) cell_at_less in simp)
qed (auto split: option.splits cell.splits if_splits dest: cell_at_less)

fun flat :: "gtype \<Rightarrow> bool" where
  "flat (TStruct fs) = list_all (\<lambda>(_, t). flat t) fs"
| "flat (TPtr t) = False"
| "flat (TSlice t) = False"
| "flat TMap = False"
| "flat _ = True"

text \<open>A value of a type without references depends on no cell.\<close>

lemma reads_flat:
  "reads h t v = Some (x, as) \<Longrightarrow> flat t \<Longrightarrow> as = []"
  "reads_fields h fs vs = Some (xs, as) \<Longrightarrow> list_all (\<lambda>(_, t). flat t) fs \<Longrightarrow> as = []"
  by (induction h t v and h fs vs arbitrary: x as and xs as rule: reads_reads_fields.induct)
    (auto split: option.splits cell.splits if_splits)

subsection \<open>Operations on memory\<close>

definition alloc :: "cell \<Rightarrow> nat mem" where
  "alloc c = State (\<lambda>h. (length h, h @ [c]))"

definition load :: "nat \<Rightarrow> gval mem" where
  "load a = State (\<lambda>h. (case cell_at h a of Some (Obj v) \<Rightarrow> v | _ \<Rightarrow> GStruct [], h))"

definition store :: "nat \<Rightarrow> gval \<Rightarrow> unit mem" where
  "store a v = State (\<lambda>h. ((), h[a := Obj v]))"

definition elem :: "nat \<Rightarrow> nat \<Rightarrow> gval mem" where
  "elem a i = State (\<lambda>h. (case cell_at h a of
     Some (Arr xs) \<Rightarrow> if i < length xs then xs ! i else GStruct [] | _ \<Rightarrow> GStruct [], h))"

definition set_elem :: "nat \<Rightarrow> nat \<Rightarrow> gval \<Rightarrow> unit mem" where
  "set_elem a i v = State (\<lambda>h. ((), case cell_at h a of Some (Arr xs) \<Rightarrow> h[a := Arr (xs[i := v])] | _ \<Rightarrow> h))"

definition entries :: "nat \<Rightarrow> (string \<times> string) list mem" where
  "entries a = State (\<lambda>h. (case cell_at h a of Some (Table kvs) \<Rightarrow> kvs | _ \<Rightarrow> [], h))"

definition set_entry :: "nat \<Rightarrow> string \<Rightarrow> string \<Rightarrow> unit mem" where
  "set_entry a k v = State (\<lambda>h. ((), case cell_at h a of Some (Table kvs) \<Rightarrow> h[a := Table (AList.update k v kvs)] | _ \<Rightarrow> h))"

lemma wp_memory [simp]:
  "wp (alloc c) Q0 = (\<lambda>h. Q0 (length h) (h @ [c]))"
  "wp (load a) Q1 = (\<lambda>h. Q1 (case cell_at h a of Some (Obj v) \<Rightarrow> v | _ \<Rightarrow> GStruct []) h)"
  "wp (store a v) Q2 = (\<lambda>h. Q2 () (h[a := Obj v]))"
  "wp (elem a i) Q3 = (\<lambda>h. Q3 (case cell_at h a of Some (Arr xs) \<Rightarrow> if i < length xs then xs ! i else GStruct [] | _ \<Rightarrow> GStruct []) h)"
  "wp (set_elem a i v) Q4 = (\<lambda>h. Q4 () (case cell_at h a of Some (Arr xs) \<Rightarrow> h[a := Arr (xs[i := v])] | _ \<Rightarrow> h))"
  "wp (entries a) Q5 = (\<lambda>h. Q5 (case cell_at h a of Some (Table kvs) \<Rightarrow> kvs | _ \<Rightarrow> []) h)"
  "wp (set_entry a k s) Q6 = (\<lambda>h. Q6 () (case cell_at h a of Some (Table kvs) \<Rightarrow> h[a := Table (AList.update k s kvs)] | _ \<Rightarrow> h))"
  by (simp_all add: fun_eq_iff wp_def alloc_def load_def store_def elem_def set_elem_def entries_def set_entry_def)

subsection \<open>The shapes of generated code\<close>

text \<open>
  \<^verbatim>\<open>*out = new(T); (*in).DeepCopyInto(*out)\<close> under a test for \<^verbatim>\<open>nil\<close>. A plain assignment \<^verbatim>\<open>**out = **in\<close> is the copier
  \<open>return\<close>.
\<close>

definition copy_ptr :: "copier \<Rightarrow> copier" where
  "copy_ptr into v = (case v of
     GPtr (Some a) \<Rightarrow> do {
       b \<leftarrow> alloc (Obj (GStruct []));
       x \<leftarrow> load a;
       y \<leftarrow> into x;
       store b y;
       return (GPtr (Some b))
     }
   | _ \<Rightarrow> return v)"

text \<open>\<^verbatim>\<open>x := (*in).DeepCopy(); *out = &x\<close> under a test for \<^verbatim>\<open>nil\<close>.\<close>

definition copy_to_new :: "copier \<Rightarrow> copier" where
  "copy_to_new f v = (case v of
     GPtr (Some a) \<Rightarrow> do {
       x \<leftarrow> load a;
       y \<leftarrow> f x;
       b \<leftarrow> alloc (Obj y);
       return (GPtr (Some b))
     }
   | _ \<Rightarrow> return v)"

text \<open>\<^verbatim>\<open>*out = (*in).DeepCopy()\<close> under a test for \<^verbatim>\<open>nil\<close>, for a method that returns a pointer.\<close>

definition unless_nil :: "copier \<Rightarrow> copier" where
  "unless_nil f v = (if v = GPtr None then return v else f v)"

text \<open>\<^verbatim>\<open>*out = make([]T, len(*in))\<close> and a loop over the elements; \<^verbatim>\<open>copy\<close> is the loop of plain assignments.\<close>

primrec copy_elems :: "copier \<Rightarrow> nat \<Rightarrow> nat \<Rightarrow> nat \<Rightarrow> nat list \<Rightarrow> unit mem" where
  "copy_elems into a off b [] = return ()"
| "copy_elems into a off b (i # is) = do {
     x \<leftarrow> elem a (off + i);
     y \<leftarrow> into x;
     set_elem b i y;
     copy_elems into a off b is
   }"

definition copy_slice :: "copier \<Rightarrow> copier" where
  "copy_slice into v = (case v of
     GSlice (Some (a, off, n)) \<Rightarrow> do {
       b \<leftarrow> alloc (Arr (replicate n (GStruct [])));
       copy_elems into a off b [0..<n];
       return (GSlice (Some (b, 0, n)))
     }
   | _ \<Rightarrow> return v)"

text \<open>\<^verbatim>\<open>*out = make(map[string]string, len(*in))\<close> and a loop over the entries.\<close>

primrec copy_entries :: "nat \<Rightarrow> (string \<times> string) list \<Rightarrow> unit mem" where
  "copy_entries b [] = return ()"
| "copy_entries b (kv # kvs) = do {
     set_entry b (fst kv) (snd kv);
     copy_entries b kvs
   }"

definition copy_map :: copier where
  "copy_map v = (case v of
     GMap (Some a) \<Rightarrow> do {
       b \<leftarrow> alloc (Table []);
       kvs \<leftarrow> entries a;
       copy_entries b kvs;
       return (GMap (Some b))
     }
   | _ \<Rightarrow> return v)"

text \<open>\<^verbatim>\<open>*out = *in\<close>, then the fields that need more, in order.\<close>

definition field :: "(string \<times> gval) list \<Rightarrow> string \<Rightarrow> gval" where
  "field vs n = (case map_of vs n of Some v \<Rightarrow> v | None \<Rightarrow> GStruct [])"

definition set_field :: "string \<Rightarrow> gval \<Rightarrow> (string \<times> gval) list \<Rightarrow> (string \<times> gval) list" where
  "set_field n y = map (\<lambda>(m, v). (m, if m = n then y else v))"

primrec copy_fields :: "(string \<times> copier) list \<Rightarrow> (string \<times> gval) list \<Rightarrow> (string \<times> gval) list \<Rightarrow> (string \<times> gval) list mem" where
  "copy_fields [] inp out = return out"
| "copy_fields (nc # cs) inp out = do {
     y \<leftarrow> snd nc (field inp (fst nc));
     copy_fields cs inp (set_field (fst nc) y out)
   }"

definition copy_struct :: "(string \<times> copier) list \<Rightarrow> copier" where
  "copy_struct cs v = (case v of
     GStruct vs \<Rightarrow> do {
       out \<leftarrow> copy_fields cs vs vs;
       return (GStruct out)
     }
   | _ \<Rightarrow> return v)"

subsection \<open>Correct copiers\<close>

text \<open>
  What a copier may do to memory and what it returns: old cells keep their contents, and the result looks like the
  original, without a cell of the original and with every cell used once.
\<close>

definition extends :: "memory \<Rightarrow> memory \<Rightarrow> bool" where
  "extends h h' \<longleftrightarrow> take (length h) h' = h"

definition copies :: "copier \<Rightarrow> gtype \<Rightarrow> bool" where
  "copies c t \<longleftrightarrow> (\<forall>h v x as. reads h t v = Some (x, as) \<longrightarrow>
     wp (c v) (\<lambda>v' h'. extends h h' \<and>
       (\<exists>bs. reads h' t v' = Some (x, bs) \<and> distinct bs \<and> (\<forall>b \<in> set bs. length h \<le> b))) h)"

lemma extends_length: "extends h h' \<Longrightarrow> length h \<le> length h'"
  unfolding extends_def by (metis length_take min.absorb_iff1 min.commute)

lemma extends_cell: "extends h h' \<Longrightarrow> a < length h \<Longrightarrow> cell_at h' a = cell_at h a"
  using extends_length[of h h'] unfolding extends_def cell_at_def by (metis nth_take order.strict_trans2)

lemma extends_refl [simp]: "extends h h" by (simp add: extends_def)

lemma extends_trans: "extends h h' \<Longrightarrow> extends h' h'' \<Longrightarrow> extends h h''"
  unfolding extends_def by (metis append_take_drop_id length_append take_take min.absorb1 le_add1)

lemma extends_append [simp]: "extends h (h @ h')" by (simp add: extends_def)

lemma extends_update: "extends h h' \<Longrightarrow> length h \<le> a \<Longrightarrow> extends h (h'[a := c])"
  by (simp add: extends_def)

lemma reads_extends: "reads h t v = Some (x, as) \<Longrightarrow> extends h h' \<Longrightarrow> reads h' t v = Some (x, as)"
  by (rule reads_frame(1)) (auto simp: extends_cell reads_inside)

lemma copiesI:
  assumes "\<And>h v x as. reads h t v = Some (x, as) \<Longrightarrow>
     wp (c v) (\<lambda>v' h'. extends h h' \<and> (\<exists>bs. reads h' t v' = Some (x, bs) \<and> distinct bs \<and> (\<forall>b \<in> set bs. length h \<le> b))) h"
  shows "copies c t"
  using assms by (simp add: copies_def)

lemma copiesE:
  assumes "copies c t" and "reads h t v = Some (x, as)"
    and "\<And>v' h' bs. extends h h' \<Longrightarrow> reads h' t v' = Some (x, bs) \<Longrightarrow> distinct bs \<Longrightarrow> (\<And>b. b \<in> set bs \<Longrightarrow> length h \<le> b) \<Longrightarrow> Q v' h'"
  shows "wp (c v) Q h"
proof -
  have "wp (c v) (\<lambda>v' h'. extends h h' \<and>
       (\<exists>bs. reads h' t v' = Some (x, bs) \<and> distinct bs \<and> (\<forall>b \<in> set bs. length h \<le> b))) h"
    using assms(1,2) unfolding copies_def by blast
  then show ?thesis by (rule wp_mono) (use assms(3) in blast)
qed

lemma copies_return [copies_rules]: "flat t \<Longrightarrow> copies return t"
  by (rule copiesI) (auto dest: reads_flat(1))


lemma copies_unless_nil [copies_rules]: "copies c (TPtr t) \<Longrightarrow> copies (unless_nil c) (TPtr t)"
  by (auto simp: copies_def unless_nil_def)

lemma copies_ptr [copies_rules]:
  assumes "copies c t" shows "copies (copy_ptr c) (TPtr t)"
proof (rule copiesI)
  fix h v x as assume r: "reads h (TPtr t) v = Some (x, as)"
  consider (nil) "v = GPtr None" | (ref) a where "v = GPtr (Some a)"
    using r by (cases v) (auto simp: split_option_ex intro: option.exhaust)
  then show "wp (copy_ptr c v) (\<lambda>v' h'. extends h h' \<and>
      (\<exists>bs. reads h' (TPtr t) v' = Some (x, bs) \<and> distinct bs \<and> (\<forall>b \<in> set bs. length h \<le> b))) h"
  proof cases
    case ref
    with r obtain u y as' where u: "cell_at h a = Some (Obj u)" "reads h t u = Some (y, as')" "x = LPtr y"
      by (auto split: option.splits cell.splits)
    let ?h1 = "h @ [Obj (GStruct [])]"
    have "cell_at ?h1 a = Some (Obj u)" using u(1) cell_at_append cell_at_less by metis
    moreover have "reads ?h1 t u = Some (y, as')" using u(2) by (rule reads_extends) simp
    then have "wp (c u) (\<lambda>u' h2. extends h (h2[length h := Obj u']) \<and>
        (\<exists>bs. reads (h2[length h := Obj u']) (TPtr t) (GPtr (Some (length h))) = Some (x, bs) \<and> distinct bs \<and>
          (\<forall>b \<in> set bs. length h \<le> b))) ?h1"
    proof (rule copiesE[OF assms])
      fix u' h2 bs
      assume h2: "extends ?h1 h2" and bs: "reads h2 t u' = Some (y, bs)" "distinct bs" "\<And>b. b \<in> set bs \<Longrightarrow> length ?h1 \<le> b"
      let ?h3 = "h2[length h := Obj u']"
      have "reads ?h3 t u' = Some (y, bs)" by (rule reads_frame(1)[OF bs(1)]) (use bs(3) in \<open>fastforce simp: cell_at_update\<close>)
      moreover have "cell_at ?h3 (length h) = Some (Obj u')" using extends_length[OF h2] by (simp add: cell_at_update)
      moreover have "extends h ?h3" by (rule extends_update[OF extends_trans[OF _ h2]]) simp_all
      ultimately show "extends h ?h3 \<and> (\<exists>bs. reads ?h3 (TPtr t) (GPtr (Some (length h))) = Some (x, bs) \<and> distinct bs \<and>
          (\<forall>b \<in> set bs. length h \<le> b))" using bs(2,3) u(3) by fastforce
    qed
    ultimately show ?thesis by (simp add: copy_ptr_def ref)
  qed (use r in \<open>simp add: copy_ptr_def\<close>)
qed

lemma copies_to_new [copies_rules]:
  assumes "copies c t" shows "copies (copy_to_new c) (TPtr t)"
proof (rule copiesI)
  fix h v x as assume r: "reads h (TPtr t) v = Some (x, as)"
  consider (nil) "v = GPtr None" | (ref) a where "v = GPtr (Some a)"
    using r by (cases v) (auto simp: split_option_ex intro: option.exhaust)
  then show "wp (copy_to_new c v) (\<lambda>v' h'. extends h h' \<and>
      (\<exists>bs. reads h' (TPtr t) v' = Some (x, bs) \<and> distinct bs \<and> (\<forall>b \<in> set bs. length h \<le> b))) h"
  proof cases
    case ref
    with r obtain u y as' where u: "cell_at h a = Some (Obj u)" "reads h t u = Some (y, as')" "x = LPtr y"
      by (auto split: option.splits cell.splits)
    show ?thesis
      unfolding copy_to_new_def ref gval.case option.case wp_bind wp_memory u(1) cell.case
    proof (rule copiesE[OF assms u(2)])
      fix u' h2 bs
      assume h2: "extends h h2" and bs: "reads h2 t u' = Some (y, bs)" "distinct bs" "\<And>b. b \<in> set bs \<Longrightarrow> length h \<le> b"
      have "reads (h2 @ [Obj u']) t u' = Some (y, bs)" using bs(1) by (rule reads_extends) simp
      then have "reads (h2 @ [Obj u']) (TPtr t) (GPtr (Some (length h2))) = Some (x, length h2 # bs)"
        by (simp add: cell_at_def u(3))
      moreover have "distinct (length h2 # bs)" using bs(2) reads_inside(1)[OF bs(1)] by auto
      moreover have "extends h (h2 @ [Obj u'])" by (rule extends_trans[OF h2]) simp
      ultimately show "wp (return (GPtr (Some (length h2)))) (\<lambda>v' h'. extends h h' \<and>
          (\<exists>bs. reads h' (TPtr t) v' = Some (x, bs) \<and> distinct bs \<and> (\<forall>b \<in> set bs. length h \<le> b))) (h2 @ [Obj u'])"
        using bs(3) extends_length[OF h2] by auto
    qed
  qed (use r in \<open>simp add: copy_to_new_def\<close>)
qed

lemma wp_copy_entries:
  "cell_at h b = Some (Table acc) \<Longrightarrow>
   wp (copy_entries b kvs) Q h = Q () (h[b := Table (fold (\<lambda>kv. AList.update (fst kv) (snd kv)) kvs acc)])"
proof (induction kvs arbitrary: h acc)
  case Nil
  then have "h[b := Table acc] = h" by (simp add: cell_at_def list_update_same_conv split: if_splits)
  then show ?case by simp
next
  case (Cons kv kvs)
  have "cell_at (h[b := Table (AList.update (fst kv) (snd kv) acc)]) b = Some (Table (AList.update (fst kv) (snd kv) acc))"
    using Cons.prems cell_at_less by (simp add: cell_at_update)
  from Cons.IH[OF this] Cons.prems show ?case by simp
qed

lemma fold_update:
  assumes "distinct (map fst acc)"
  shows "distinct (map fst (fold (\<lambda>kv. AList.update (fst kv) (snd kv)) kvs acc))"
    "distinct (map fst kvs) \<Longrightarrow> map_of (fold (\<lambda>kv. AList.update (fst kv) (snd kv)) kvs acc) = map_of acc ++ map_of kvs"
  using assms
proof (induction kvs arbitrary: acc)
  case (Cons kv kvs)
  {
    case 1
    then show ?case using Cons.IH(1) by (simp add: AList.distinct_update)
  next
    case 2
    then have "map_of kvs (fst kv) = None" by (simp add: map_of_eq_None_iff)
    with 2 Cons.IH(2)[of "AList.update (fst kv) (snd kv) acc"] show ?case
      by (auto simp: AList.distinct_update AList.update_conv' map_add_def fun_eq_iff split: option.split)
  }
qed simp_all

lemma copies_map [copies_rules]: "copies copy_map TMap"
proof (rule copiesI)
  fix h v x as assume r: "reads h TMap v = Some (x, as)"
  consider (nil) "v = GMap None" | (ref) a where "v = GMap (Some a)"
    using r by (cases v) (auto simp: split_option_ex intro: option.exhaust)
  then show "wp (copy_map v) (\<lambda>v' h'. extends h h' \<and>
      (\<exists>bs. reads h' TMap v' = Some (x, bs) \<and> distinct bs \<and> (\<forall>b \<in> set bs. length h \<le> b))) h"
  proof cases
    case ref
    with r obtain kvs where k: "cell_at h a = Some (Table kvs)" "distinct (map fst kvs)" "x = LMap (map_of kvs)"
      by (auto split: option.splits cell.splits if_splits)
    have "cell_at (h @ [Table []]) a = Some (Table kvs)" using k(1) cell_at_append cell_at_less by metis
    then show ?thesis
      using k fold_update[of "[]" kvs]
      by (simp add: copy_map_def ref wp_copy_entries cell_at_end cell_at_update extends_update)
  qed (use r in \<open>simp add: copy_map_def\<close>)
qed


text \<open>Slices: the elements before \<open>j\<close> have been copied.\<close>

definition copied_upto :: "memory \<Rightarrow> gtype \<Rightarrow> nat \<Rightarrow> tree list \<Rightarrow> nat \<Rightarrow> memory \<Rightarrow> bool" where
  "copied_upto h0 t b xs j h \<longleftrightarrow> extends h0 h \<and> length h0 \<le> b \<and>
     (\<exists>ys ps. cell_at h b = Some (Arr ys) \<and> length ys = length xs \<and>
        all_some (map (reads h t) (take j ys)) = Some ps \<and> map fst ps = take j xs \<and>
        distinct (concat (map snd ps)) \<and> (\<forall>a \<in> set (concat (map snd ps)). length h0 \<le> a \<and> a \<noteq> b))"

lemma all_some_append:
  "all_some (xs @ ys) = (case all_some xs of None \<Rightarrow> None | Some a \<Rightarrow> map_option ((@) a) (all_some ys))"
  by (auto simp: all_some_alt)

lemma all_some_Some: "all_some (map f xs) = Some ps \<longleftrightarrow> list_all2 (\<lambda>x p. f x = Some p) xs ps"
proof (induction xs arbitrary: ps)
  case (Cons x xs)
  then show ?case by (cases ps) (auto split: option.splits)
qed auto

lemma reads_list_frame:
  assumes "all_some (map (reads h t) ys) = Some ps" and "\<And>a. a \<in> set (concat (map snd ps)) \<Longrightarrow> cell_at h' a = cell_at h a"
  shows "all_some (map (reads h' t) ys) = Some ps"
  using assms unfolding all_some_Some
proof (induction ys ps rule: list_all2_induct)
  case (Cons y ys p ps)
  obtain x as where p: "p = (x, as)" by (cases p)
  have "reads h' t y = Some p"
    unfolding p by (rule reads_frame(1)[of h]) (use Cons p in simp_all)
  with Cons show ?case by simp
qed simp

lemma reads_list_inside:
  assumes "all_some (map (reads h t) ys) = Some ps" and "a \<in> set (concat (map snd ps))"
  shows "a < length h"
  using assms unfolding all_some_Some by (induction ys ps rule: list_all2_induct) (auto dest: reads_inside(1))

lemma copied_elem:
  assumes pre: "copied_upto h0 t b xs j h" and j: "j < length xs"
    and y: "extends h h1" "reads h1 t y = Some (xs ! j, bs)" "distinct bs" "\<And>a. a \<in> set bs \<Longrightarrow> length h \<le> a"
  shows "copied_upto h0 t b xs (Suc j) (case cell_at h1 b of Some (Arr ys) \<Rightarrow> h1[b := Arr (ys[j := y])] | _ \<Rightarrow> h1)"
proof -
  from pre obtain ys ps where h: "extends h0 h" "length h0 \<le> b" "cell_at h b = Some (Arr ys)" "length ys = length xs"
      "all_some (map (reads h t) (take j ys)) = Some ps" "map fst ps = take j xs" "distinct (concat (map snd ps))"
      "\<forall>a \<in> set (concat (map snd ps)). length h0 \<le> a \<and> a \<noteq> b"
    unfolding copied_upto_def by blast
  let ?h2 = "h1[b := Arr (ys[j := y])]"
  have b: "b < length h" using h(3) by (rule cell_at_less)
  have c1: "cell_at h1 b = Some (Arr ys)" using extends_cell[OF y(1) b] h(3) by simp
  have bs: "b \<notin> set bs" using y(4) b by fastforce
  have "reads ?h2 t y = Some (xs ! j, bs)"
    by (rule reads_frame(1)[OF y(2)]) (use bs in \<open>auto simp: cell_at_update\<close>)
  moreover have "all_some (map (reads ?h2 t) (take j ys)) = Some ps"
  proof (rule reads_list_frame[OF h(5)])
    fix a assume a: "a \<in> set (concat (map snd ps))"
    with h(8) have "a \<noteq> b" by blast
    then show "cell_at ?h2 a = cell_at h a"
      using extends_cell[OF y(1) reads_list_inside[OF h(5) a]] by (simp add: cell_at_update)
  qed
  moreover have "take (Suc j) (ys[j := y]) = take j ys @ [y]"
    using j h(4) by (simp add: take_Suc_conv_app_nth)
  ultimately have "all_some (map (reads ?h2 t) (take (Suc j) (ys[j := y]))) = Some (ps @ [(xs ! j, bs)])"
    by (simp add: all_some_append)
  moreover have "cell_at ?h2 b = Some (Arr (ys[j := y]))"
    using b extends_length[OF y(1)] by (simp add: cell_at_update)
  moreover have "extends h0 ?h2" by (rule extends_update[OF extends_trans[OF h(1) y(1)] h(2)])
  moreover have "map fst (ps @ [(xs ! j, bs)]) = take (Suc j) xs" using h(6) j by (simp add: take_Suc_conv_app_nth)
  moreover have "set (concat (map snd ps)) \<inter> set bs = {}" using reads_list_inside[OF h(5)] y(4) by fastforce
  then have "distinct (concat (map snd (ps @ [(xs ! j, bs)])))" using h(7) y(3) by simp
  moreover have "\<forall>a \<in> set (concat (map snd (ps @ [(xs ! j, bs)]))). length h0 \<le> a \<and> a \<noteq> b"
    using h(8) y(4) bs extends_length[OF h(1)] by fastforce
  ultimately show ?thesis unfolding copied_upto_def c1 option.case cell.case using h(2,4) length_list_update by metis
qed

lemma wp_copy_elems:
  assumes c: "copies c t" and a: "cell_at h0 a = Some (Arr zs)" "off + n \<le> length zs"
    and r: "all_some (map (reads h0 t) (take n (drop off zs))) = Some qs"
  shows "copied_upto h0 t b (map fst qs) j h \<Longrightarrow> j \<le> n \<Longrightarrow> (\<And>h'. copied_upto h0 t b (map fst qs) n h' \<Longrightarrow> Q () h') \<Longrightarrow>
    wp (copy_elems c a off b [j..<n]) Q h"
proof (induction "n - j" arbitrary: j h)
  case (Suc m)
  then have j: "j < n" by simp
  have qs: "length qs = n" "\<And>i. i < n \<Longrightarrow> reads h0 t (zs ! (off + i)) = Some (qs ! i)"
    using r a(2) unfolding all_some_Some by (auto simp: list_all2_conv_all_nth)
  have "extends h0 h" using Suc.prems(1) by (simp add: copied_upto_def)
  note h = extends_cell[OF this cell_at_less[OF a(1)]] reads_extends[OF _ this]
  have cell: "cell_at h a = Some (Arr zs)" using h(1) a(1) by simp
  have "reads h t (zs ! (off + j)) = Some (fst (qs ! j), snd (qs ! j))" using h(2) qs(2)[OF j] by (metis surjective_pairing)
  note copy = copiesE[OF c this]
  have "wp (c (zs ! (off + j))) (\<lambda>y. wp (set_elem b j y) (\<lambda>_. wp (copy_elems c a off b [Suc j..<n]) Q)) h"
  proof (rule copy)
    fix y h1 bs
    assume y: "extends h h1" "reads h1 t y = Some (fst (qs ! j), bs)" "distinct bs" "\<And>b. b \<in> set bs \<Longrightarrow> length h \<le> b"
    have "copied_upto h0 t b (map fst qs) (Suc j) (case cell_at h1 b of Some (Arr ys) \<Rightarrow> h1[b := Arr (ys[j := y])] | _ \<Rightarrow> h1)"
      by (rule copied_elem[OF Suc.prems(1) _ y(1) _ y(3,4)]) (use qs j y(2) in simp_all)
    then show "wp (set_elem b j y) (\<lambda>_. wp (copy_elems c a off b [Suc j..<n]) Q) h1"
      unfolding wp_memory by (rule Suc.hyps(1)[rotated]) (use Suc in auto)
  qed
  with j a(2) cell show ?case by (simp add: upt_conv_Cons)
qed simp

lemma copies_slice [copies_rules]:
  assumes "copies c t" shows "copies (copy_slice c) (TSlice t)"
proof (rule copiesI)
  fix h v x as assume r: "reads h (TSlice t) v = Some (x, as)"
  consider (nil) "v = GSlice None" | (ref) a off n where "v = GSlice (Some (a, off, n))"
  proof -
    obtain s where "v = GSlice s" using r by (cases v) auto
    with that show ?thesis by (metis option.exhaust prod_cases3)
  qed
  then show "wp (copy_slice c v) (\<lambda>v' h'. extends h h' \<and>
      (\<exists>bs. reads h' (TSlice t) v' = Some (x, bs) \<and> distinct bs \<and> (\<forall>b \<in> set bs. length h \<le> b))) h"
  proof cases
    case ref
    with r obtain zs qs where z: "cell_at h a = Some (Arr zs)" "off + n \<le> length zs"
        "all_some (map (reads h t) (take n (drop off zs))) = Some qs" "x = LSlice (map fst qs)"
      by (auto split: option.splits cell.splits if_splits)
    have n: "length qs = n" using z(2,3) unfolding all_some_Some by (auto dest: list_all2_lengthD)
    let ?h1 = "h @ [Arr (replicate n (GStruct []))]"
    have "cell_at ?h1 (length h) = Some (Arr (replicate n (GStruct [])))" by (simp add: cell_at_def)
    then have "copied_upto h t (length h) (map fst qs) 0 ?h1" by (simp add: copied_upto_def n)
    then have "wp (copy_elems c a off (length h) [0..<n])
        (\<lambda>_ h'. extends h h' \<and> (\<exists>bs. reads h' (TSlice t) (GSlice (Some (length h, 0, n))) = Some (x, bs) \<and> distinct bs \<and>
          (\<forall>b \<in> set bs. length h \<le> b))) ?h1"
    proof (rule wp_copy_elems[OF assms z(1-3)])
      fix h' assume "copied_upto h t (length h) (map fst qs) n h'"
      then obtain ys ps where "extends h h'" "cell_at h' (length h) = Some (Arr ys)" "length ys = n"
          "all_some (map (reads h' t) ys) = Some ps" "map fst ps = map fst qs" "distinct (concat (map snd ps))"
          "\<forall>a \<in> set (concat (map snd ps)). length h \<le> a \<and> a \<noteq> length h"
        unfolding copied_upto_def using n by auto
      then show "extends h h' \<and> (\<exists>bs. reads h' (TSlice t) (GSlice (Some (length h, 0, n))) = Some (x, bs) \<and> distinct bs \<and>
          (\<forall>b \<in> set bs. length h \<le> b))"
        using z(4) by auto
    qed simp
    then show ?thesis by (simp add: copy_slice_def ref)
  qed (use r in \<open>simp add: copy_slice_def\<close>)
qed


text \<open>Structs: a copier for each field with references, in the order of the fields.\<close>

inductive fits :: "(string \<times> copier) list \<Rightarrow> (string \<times> gtype) list \<Rightarrow> bool" where
  fits_Nil: "fits [] []"
| fits_flat: "flat t \<Longrightarrow> fits cs fs \<Longrightarrow> fits cs ((n, t) # fs)"
| fits_copy: "copies c t \<Longrightarrow> fits cs fs \<Longrightarrow> fits ((n, c) # cs) ((n, t) # fs)"

text \<open>The rules for fields with literal names.\<close>

lemma fits_plain: "flat t \<Longrightarrow> fits cs fs \<Longrightarrow> fits cs ((n, t) # fs)"
  and fits_copied: "m = n \<Longrightarrow> copies c t \<Longrightarrow> fits cs fs \<Longrightarrow> fits ((m, c) # cs) ((n, t) # fs)"
  by (auto intro: fits.intros)

lemma fits_names: "fits cs fs \<Longrightarrow> fst ` set cs \<subseteq> fst ` set fs"
  by (induction rule: fits.induct) auto

lemma reads_fields_names: "reads_fields h fs vs = Some (xs, as) \<Longrightarrow> map fst vs = map fst fs"
  by (induction h fs vs arbitrary: xs as rule: reads_reads_fields.induct(2)[where P = "\<lambda>_ _ _. True"])
    (auto split: option.splits if_splits)

lemma set_field_other: "n \<notin> fst ` set vs \<Longrightarrow> set_field n y vs = vs"
  by (induction vs) (auto simp: set_field_def)

lemma field_append: "n \<notin> fst ` set vs \<Longrightarrow> field (vs @ ws) n = field ws n"
  by (simp add: field_def map_add_def map_of_eq_None_iff[THEN iffD2] split: option.split)

lemma reads_fields_cons:
  assumes "reads h t v = Some (x, as)" and "reads_fields h' fs vs = Some (xs, bs)" and "extends h h'"
    and "distinct as" "distinct bs" and "\<And>a. a \<in> set as \<Longrightarrow> length h0 \<le> a" "\<And>b. b \<in> set bs \<Longrightarrow> length h \<le> b"
    and "extends h0 h"
  shows "extends h0 h' \<and> (\<exists>cs. reads_fields h' ((n, t) # fs) ((n, v) # vs) = Some ((n, x) # xs, cs) \<and> distinct cs \<and>
    (\<forall>c \<in> set cs. length h0 \<le> c))"
proof -
  have "reads h' t v = Some (x, as)" using assms(1,3) by (rule reads_extends)
  with assms(2) have "reads_fields h' ((n, t) # fs) ((n, v) # vs) = Some ((n, x) # xs, as @ bs)" by simp
  moreover have "distinct (as @ bs)" using assms(4,5,7) reads_inside(1)[OF assms(1)] by fastforce
  moreover have "\<forall>c \<in> set (as @ bs). length h0 \<le> c" using assms(6,7) extends_length[OF assms(8)] by fastforce
  ultimately show ?thesis using extends_trans[OF assms(8,3)] by blast
qed

lemma wp_field_done:
  assumes "wp m (\<lambda>r h'. extends h1 h' \<and> (\<exists>ws bs. r = (out @ [(n, y)]) @ ws \<and> reads_fields h' fs ws = Some (xs, bs) \<and>
      distinct bs \<and> (\<forall>b \<in> set bs. length h1 \<le> b))) h1"
    and y: "extends h h1" "reads h1 t y = Some (x, as)" "distinct as" "\<And>b. b \<in> set as \<Longrightarrow> length h \<le> b"
  shows "wp m (\<lambda>r h'. extends h h' \<and> (\<exists>ws bs. r = out @ ws \<and> reads_fields h' ((n, t) # fs) ws = Some ((n, x) # xs, bs) \<and>
      distinct bs \<and> (\<forall>b \<in> set bs. length h \<le> b))) h1"
  using assms(1)
proof (rule wp_mono)
  fix r h' assume "extends h1 h' \<and> (\<exists>ws bs. r = (out @ [(n, y)]) @ ws \<and> reads_fields h' fs ws = Some (xs, bs) \<and>
      distinct bs \<and> (\<forall>b \<in> set bs. length h1 \<le> b))"
  then obtain ws bs where w: "extends h1 h'" "r = out @ (n, y) # ws" "reads_fields h' fs ws = Some (xs, bs)"
      "distinct bs" "\<forall>b \<in> set bs. length h1 \<le> b" by auto
  show "extends h h' \<and> (\<exists>ws bs. r = out @ ws \<and> reads_fields h' ((n, t) # fs) ws = Some ((n, x) # xs, bs) \<and>
      distinct bs \<and> (\<forall>b \<in> set bs. length h \<le> b))"
    using reads_fields_cons[OF y(2) w(3,1) y(3) w(4) y(4) _ y(1)] w(2,5) by blast
qed

lemma wp_copy_fields:
  assumes "fits cs fs"
  shows "reads_fields h fs vs = Some (xs, as) \<Longrightarrow> distinct (map fst fs) \<Longrightarrow> fst ` set inp \<inter> fst ` set fs = {} \<Longrightarrow>
    fst ` set out \<inter> fst ` set fs = {} \<Longrightarrow>
    wp (copy_fields cs (inp @ vs) (out @ vs)) (\<lambda>r h'. extends h h' \<and> (\<exists>ws bs. r = out @ ws \<and>
      reads_fields h' fs ws = Some (xs, bs) \<and> distinct bs \<and> (\<forall>b \<in> set bs. length h \<le> b))) h"
  using assms
proof (induction arbitrary: h vs xs as inp out rule: fits.induct)
  case fits_Nil
  then show ?case by (cases vs) auto
next
  case (fits_flat t cs fs n)
  from fits_flat.prems(1) obtain v vs' x xs' as' bs' where v: "vs = (n, v) # vs'" "reads h t v = Some (x, as')"
      "reads_fields h fs vs' = Some (xs', bs')" "xs = (n, x) # xs'"
    by (cases vs) (auto split: option.splits if_splits)
  have flat: "as' = []" using reads_flat(1)[OF v(2) fits_flat.hyps(1)] .
  have "wp (copy_fields cs ((inp @ [(n, v)]) @ vs') ((out @ [(n, v)]) @ vs')) (\<lambda>r h'. extends h h' \<and>
      (\<exists>ws bs. r = (out @ [(n, v)]) @ ws \<and> reads_fields h' fs ws = Some (xs', bs) \<and> distinct bs \<and>
        (\<forall>b \<in> set bs. length h \<le> b))) h"
    by (rule fits_flat.IH[OF v(3)]) (use fits_flat.prems in auto)
  from wp_field_done[OF this extends_refl v(2)] flat v show ?case by simp
next
  case (fits_copy c t cs fs n)
  from fits_copy.prems(1) obtain v vs' x xs' as' bs' where v: "vs = (n, v) # vs'" "reads h t v = Some (x, as')"
      "reads_fields h fs vs' = Some (xs', bs')" "xs = (n, x) # xs'"
    by (cases vs) (auto split: option.splits if_splits)
  have new: "n \<notin> fst ` set inp" "n \<notin> fst ` set out" "n \<notin> fst ` set vs'"
    using fits_copy.prems reads_fields_names[OF v(3)] by (auto simp flip: set_map)
  have f: "field (inp @ vs) n = v" by (simp only: field_append[OF new(1)]) (simp add: v(1) field_def)
  have s: "set_field n y (out @ vs) = (out @ [(n, y)]) @ vs'" for y
    using set_field_other[OF new(2)] set_field_other[OF new(3)] by (simp add: v(1) set_field_def)
  show ?case
    unfolding copy_fields.simps fst_conv snd_conv wp_bind f s
  proof (rule copiesE[OF fits_copy.hyps(1) v(2)])
    fix y h1 bs1
    assume y: "extends h h1" "reads h1 t y = Some (x, bs1)" "distinct bs1" "\<And>b. b \<in> set bs1 \<Longrightarrow> length h \<le> b"
    have "reads_fields h1 fs vs' = Some (xs', bs')"
      by (rule reads_frame(2)[OF v(3)]) (use extends_cell[OF y(1)] reads_inside(2)[OF v(3)] in blast)
    then have "wp (copy_fields cs ((inp @ [(n, v)]) @ vs') ((out @ [(n, y)]) @ vs')) (\<lambda>r h'. extends h1 h' \<and>
        (\<exists>ws bs. r = (out @ [(n, y)]) @ ws \<and> reads_fields h' fs ws = Some (xs', bs) \<and> distinct bs \<and>
          (\<forall>b \<in> set bs. length h1 \<le> b))) h1"
      by (rule fits_copy.IH) (use fits_copy.prems in auto)
    from wp_field_done[OF this y] show "wp (copy_fields cs (inp @ vs) ((out @ [(n, y)]) @ vs')) (\<lambda>r h'. extends h h' \<and>
        (\<exists>ws bs. r = out @ ws \<and> reads_fields h' ((n, t) # fs) ws = Some (xs, bs) \<and> distinct bs \<and>
          (\<forall>b \<in> set bs. length h \<le> b))) h1"
      unfolding v(1,4) by simp
  qed
qed

lemma copies_struct:
  assumes "fits cs fs" and "distinct (map fst fs)"
  shows "copies (copy_struct cs) (TStruct fs)"
proof (rule copiesI)
  fix h v x as assume "reads h (TStruct fs) v = Some (x, as)"
  then obtain vs xs where v: "v = GStruct vs" "reads_fields h fs vs = Some (xs, as)" "x = LStruct xs"
    by (cases v) auto
  show "wp (copy_struct cs v) (\<lambda>v' h'. extends h h' \<and>
      (\<exists>bs. reads h' (TStruct fs) v' = Some (x, bs) \<and> distinct bs \<and> (\<forall>b \<in> set bs. length h \<le> b))) h"
    unfolding copy_struct_def v(1) gval.case wp_bind
    by (rule wp_mono, rule wp_copy_fields[OF assms(1) v(2) assms(2), where inp = "[]" and out = "[]", simplified])
      (auto simp: v(3))
qed

end
