(* ===== verification/Deep_Copy.thy ===== *)
theory Deep_Copy
  imports Go_Memory
begin

text \<open>
  \<^verbatim>\<open>api/v1/zz_generated.deepcopy.go\<close>: the deep copies of the custom resources. The controllers change the objects they have
  read in place, and the client's cache relies on these functions to keep its own copies apart, so a reference that a
  copier forgets would be shared state between reconciles. The structs of \<^verbatim>\<open>api/v1\<close> are types of \<open>Go_Memory\<close>, field by
  field, and every copier is shown to copy its type.
\<close>

subsection \<open>Types and copiers of other packages\<close>

text \<open>
  The structs of \<^verbatim>\<open>k8s.io\<close> that the resources embed, with their own \<^verbatim>\<open>DeepCopyInto\<close> and \<^verbatim>\<open>DeepCopy\<close>.
\<close>

record external =
  x_type :: "string \<Rightarrow> gtype"
  x_DeepCopyInto :: "string \<Rightarrow> copier"
  x_DeepCopy :: "string \<Rightarrow> copier"

text \<open>
  What the generated code relies on: those copiers copy, and the types it assigns plainly have no references.
\<close>

definition external_laws :: "external \<Rightarrow> bool" where
  "external_laws E \<longleftrightarrow>
     (\<forall>n \<in> set [''corev1.ConfigMapKeySelector'', ''corev1.SecretKeySelector'', ''corev1.PodSecurityContext'',
         ''corev1.ResourceRequirements'', ''metav1.Condition'', ''metav1.ObjectMeta'', ''metav1.ListMeta''].
        copies (x_DeepCopyInto E n) (x_type E n)) \<and>
     copies (x_DeepCopy E ''metav1.Time'') (TPtr (x_type E ''metav1.Time'')) \<and>
     copies (x_DeepCopy E ''resource.Quantity'') (x_type E ''resource.Quantity'') \<and>
     (\<forall>n \<in> set [''metav1.TypeMeta'', ''metav1.Duration'', ''corev1.PullPolicy'']. flat (x_type E n))"

lemma external_lawsD:
  assumes "external_laws E"
  shows "copies (x_DeepCopyInto E ''corev1.ConfigMapKeySelector'') (x_type E ''corev1.ConfigMapKeySelector'')"
    "copies (x_DeepCopyInto E ''corev1.SecretKeySelector'') (x_type E ''corev1.SecretKeySelector'')"
    "copies (x_DeepCopyInto E ''corev1.PodSecurityContext'') (x_type E ''corev1.PodSecurityContext'')"
    "copies (x_DeepCopyInto E ''corev1.ResourceRequirements'') (x_type E ''corev1.ResourceRequirements'')"
    "copies (x_DeepCopyInto E ''metav1.Condition'') (x_type E ''metav1.Condition'')"
    "copies (x_DeepCopyInto E ''metav1.ObjectMeta'') (x_type E ''metav1.ObjectMeta'')"
    "copies (x_DeepCopyInto E ''metav1.ListMeta'') (x_type E ''metav1.ListMeta'')"
    "copies (x_DeepCopy E ''metav1.Time'') (TPtr (x_type E ''metav1.Time''))"
    "copies (x_DeepCopy E ''resource.Quantity'') (x_type E ''resource.Quantity'')"
    "flat (x_type E ''metav1.TypeMeta'')" "flat (x_type E ''metav1.Duration'')" "flat (x_type E ''corev1.PullPolicy'')"
  using assms unfolding external_laws_def by (auto simp only: list.set insert_iff ball_simps)

text \<open>\<^verbatim>\<open>DeepCopyObject\<close> turns a \<^verbatim>\<open>nil\<close> pointer into a \<^verbatim>\<open>nil\<close> interface.\<close>

definition as_object :: "copier \<Rightarrow> copier" where
  "as_object f v = do {
     c \<leftarrow> f v;
     (if c \<noteq> GPtr None then return c else return (GPtr None))
   }"

lemma as_object [simp]: "as_object f = f"
proof -
  have "(\<lambda>c. if c \<noteq> GPtr None then return c else return (GPtr None)) = return" by auto
  note eta = this
  show ?thesis by (intro ext) (simp add: as_object_def eta)
qed

subsection \<open>The structs of the API\<close>

definition type_BucketNodeRef :: "external \<Rightarrow> gtype" where
  "type_BucketNodeRef E = TStruct
     [(''Name'', TStr), (''Pod'', TStr), (''Ready'', TBool), (''Health'', TStr)]"

definition type_CertIssuerRef :: "external \<Rightarrow> gtype" where
  "type_CertIssuerRef E = TStruct
     [(''Name'', TStr), (''Kind'', TStr)]"

definition type_CertManagerConfig :: "external \<Rightarrow> gtype" where
  "type_CertManagerConfig E = TStruct
     [(''IssuerName'', TStr), (''IssuerKind'', TStr)]"

definition type_Grant :: "external \<Rightarrow> gtype" where
  "type_Grant E = TStruct
     [(''Resource'', TStr), (''BucketName'', TStr), (''Permission'', TStr)]"

definition type_MetricsConfigSource :: "external \<Rightarrow> gtype" where
  "type_MetricsConfigSource E = TStruct
     [(''ConfigMapKeyRef'', x_type E ''corev1.ConfigMapKeySelector'')]"

definition type_MonitoringConfig :: "external \<Rightarrow> gtype" where
  "type_MonitoringConfig E = TStruct
     [(''Enabled'', TBool), (''ExporterImage'', TStr), (''MetricsConfig'', TPtr (type_MetricsConfigSource E)),
      (''ScrapeKind'', TStr)]"

definition type_MonitoringStatus :: "external \<Rightarrow> gtype" where
  "type_MonitoringStatus E = TStruct
     [(''Enabled'', TBool), (''ExporterReady'', TBool), (''ScrapeKind'', TStr), (''ScrapeObjectReady'', TBool),
      (''ServiceMonitorReady'', TBool), (''ExporterError'', TStr)]"

definition type_NodeCondition :: "external \<Rightarrow> gtype" where
  "type_NodeCondition E = TStruct
     [(''Name'', TStr), (''Ready'', TBool), (''Health'', TStr), (''Phase'', TStr), (''PodName'', TStr),
      (''StorageReady'', TBool), (''StorageClassName'', TStr), (''StorageSize'', TStr),
      (''Conditions'', TSlice (x_type E ''metav1.Condition''))]"

definition type_PodDisruptionBudgetConfig :: "external \<Rightarrow> gtype" where
  "type_PodDisruptionBudgetConfig E = TStruct
     [(''Enabled'', TPtr TBool)]"

definition type_RiakBucketSpec :: "external \<Rightarrow> gtype" where
  "type_RiakBucketSpec E = TStruct
     [(''ClusterName'', TStr), (''BucketName'', TStr), (''BucketType'', TStr), (''ReplicationFactor'', TInt),
      (''AllowMulti'', TBool), (''NVal'', TInt), (''Properties'', TMap)]"

definition type_RiakBucketStatus :: "external \<Rightarrow> gtype" where
  "type_RiakBucketStatus E = TStruct
     [(''Phase'', TStr), (''Created'', TBool), (''LastUpdateTime'', TPtr (x_type E ''metav1.Time'')),
      (''Error'', TStr), (''BucketName'', TStr), (''BucketType'', TStr), (''ReplicationFactor'', TInt),
      (''NVal'', TInt), (''Properties'', TMap), (''Nodes'', TSlice (type_BucketNodeRef E)),
      (''Conditions'', TSlice (x_type E ''metav1.Condition''))]"

definition type_RiakBucket :: "external \<Rightarrow> gtype" where
  "type_RiakBucket E = TStruct
     [(''TypeMeta'', x_type E ''metav1.TypeMeta''), (''ObjectMeta'', x_type E ''metav1.ObjectMeta''),
      (''Spec'', type_RiakBucketSpec E), (''Status'', type_RiakBucketStatus E)]"

definition type_RiakBucketList :: "external \<Rightarrow> gtype" where
  "type_RiakBucketList E = TStruct
     [(''TypeMeta'', x_type E ''metav1.TypeMeta''), (''ListMeta'', x_type E ''metav1.ListMeta''),
      (''Items'', TSlice (type_RiakBucket E))]"

definition type_RiakBucketRef :: "external \<Rightarrow> gtype" where
  "type_RiakBucketRef E = TStruct
     [(''Name'', TStr), (''Ready'', TBool)]"

definition type_TrustedCASource :: "external \<Rightarrow> gtype" where
  "type_TrustedCASource E = TStruct
     [(''SecretRef'', TPtr (x_type E ''corev1.SecretKeySelector'')),
      (''ConfigMapRef'', TPtr (x_type E ''corev1.ConfigMapKeySelector''))]"

definition type_TLSConfig :: "external \<Rightarrow> gtype" where
  "type_TLSConfig E = TStruct
     [(''Enabled'', TBool), (''CertManager'', TPtr (type_CertManagerConfig E)),
      (''AdditionalClientCAs'', TSlice (type_TrustedCASource E))]"

definition type_RolloutConfig :: "external \<Rightarrow> gtype" where
  "type_RolloutConfig E = TStruct
     [(''WaitForTransfers'', TPtr TBool), (''Paused'', TBool),
      (''StallTimeout'', TPtr (x_type E ''metav1.Duration''))]"

definition type_RiakClusterSpec :: "external \<Rightarrow> gtype" where
  "type_RiakClusterSpec E = TStruct
     [(''Size'', TInt), (''Image'', TStr), (''ImagePullPolicy'', x_type E ''corev1.PullPolicy''),
      (''Resources'', TPtr (x_type E ''corev1.ResourceRequirements'')), (''StorageClassName'', TStr),
      (''StorageSize'', TPtr (x_type E ''resource.Quantity'')), (''EphemeralStorage'', TBool),
      (''RiakConfig'', TMap), (''TLS'', TPtr (type_TLSConfig E)), (''Monitoring'', TPtr (type_MonitoringConfig E)),
      (''ServicePort'', TInt), (''NodeSelector'', TMap), (''PodAntiAffinity'', TStr),
      (''PodSecurityContext'', TPtr (x_type E ''corev1.PodSecurityContext'')), (''ReadOnlyRootFilesystem'', TBool),
      (''Rollout'', TPtr (type_RolloutConfig E)), (''TerminationGracePeriodSeconds'', TPtr TInt),
      (''PodDisruptionBudget'', TPtr (type_PodDisruptionBudgetConfig E))]"

definition type_RiakNodeMember :: "external \<Rightarrow> gtype" where
  "type_RiakNodeMember E = TStruct
     [(''Name'', TStr), (''Pod'', TStr), (''Ready'', TBool), (''Health'', TStr), (''Phase'', TStr),
      (''StorageReady'', TBool), (''Conditions'', TSlice (x_type E ''metav1.Condition''))]"

definition type_TLSStatus :: "external \<Rightarrow> gtype" where
  "type_TLSStatus E = TStruct
     [(''Enabled'', TBool), (''CertManagerReady'', TBool), (''CertManagerError'', TStr), (''InterNodeReady'', TBool),
      (''ClientReady'', TBool), (''TrustedClientCAs'', TInt), (''TrustBundleError'', TStr)]"

definition type_RiakUserRef :: "external \<Rightarrow> gtype" where
  "type_RiakUserRef E = TStruct
     [(''Name'', TStr), (''Ready'', TBool)]"

definition type_RiakClusterStatus :: "external \<Rightarrow> gtype" where
  "type_RiakClusterStatus E = TStruct
     [(''Phase'', TStr), (''ReadyNodes'', TInt), (''TotalNodes'', TInt),
      (''Conditions'', TSlice (x_type E ''metav1.Condition'')),
      (''LastUpdateTime'', TPtr (x_type E ''metav1.Time'')), (''Members'', TSlice (type_RiakNodeMember E)),
      (''SecurityEnabled'', TBool), (''StorageClassName'', TStr), (''StorageSize'', TStr),
      (''EphemeralStorage'', TBool), (''TLSStatus'', type_TLSStatus E),
      (''MonitoringStatus'', type_MonitoringStatus E), (''Buckets'', TSlice (type_RiakBucketRef E)),
      (''Users'', TSlice (type_RiakUserRef E)), (''NodeConditions'', TSlice (type_NodeCondition E))]"

definition type_RiakCluster :: "external \<Rightarrow> gtype" where
  "type_RiakCluster E = TStruct
     [(''TypeMeta'', x_type E ''metav1.TypeMeta''), (''ObjectMeta'', x_type E ''metav1.ObjectMeta''),
      (''Spec'', type_RiakClusterSpec E), (''Status'', type_RiakClusterStatus E)]"

definition type_RiakClusterList :: "external \<Rightarrow> gtype" where
  "type_RiakClusterList E = TStruct
     [(''TypeMeta'', x_type E ''metav1.TypeMeta''), (''ListMeta'', x_type E ''metav1.ListMeta''),
      (''Items'', TSlice (type_RiakCluster E))]"

definition type_UserCertificateRef :: "external \<Rightarrow> gtype" where
  "type_UserCertificateRef E = TStruct
     [(''IssuerRef'', TPtr (type_CertIssuerRef E)), (''SecretName'', TStr), (''ExternalSecretName'', TStr)]"

definition type_RiakUserSpec :: "external \<Rightarrow> gtype" where
  "type_RiakUserSpec E = TStruct
     [(''ClusterName'', TStr), (''Username'', TStr), (''Grants'', TSlice (type_Grant E)),
      (''CertificateRef'', TPtr (type_UserCertificateRef E))]"

definition type_RiakUserStatus :: "external \<Rightarrow> gtype" where
  "type_RiakUserStatus E = TStruct
     [(''Phase'', TStr), (''Created'', TBool), (''LastUpdateTime'', TPtr (x_type E ''metav1.Time'')),
      (''Error'', TStr), (''Username'', TStr), (''CertificateReady'', TBool), (''CertificateError'', TStr),
      (''ClusterName'', TStr), (''Grants'', TSlice (type_Grant E)),
      (''Conditions'', TSlice (x_type E ''metav1.Condition''))]"

definition type_RiakUser :: "external \<Rightarrow> gtype" where
  "type_RiakUser E = TStruct
     [(''TypeMeta'', x_type E ''metav1.TypeMeta''), (''ObjectMeta'', x_type E ''metav1.ObjectMeta''),
      (''Spec'', type_RiakUserSpec E), (''Status'', type_RiakUserStatus E)]"

definition type_RiakUserList :: "external \<Rightarrow> gtype" where
  "type_RiakUserList E = TStruct
     [(''TypeMeta'', x_type E ''metav1.TypeMeta''), (''ListMeta'', x_type E ''metav1.ListMeta''),
      (''Items'', TSlice (type_RiakUser E))]"

subsection \<open>The copiers\<close>

definition DeepCopyInto_BucketNodeRef :: "external \<Rightarrow> copier" where
  "DeepCopyInto_BucketNodeRef E = copy_struct
     []"

definition DeepCopy_BucketNodeRef :: "external \<Rightarrow> copier" where
  "DeepCopy_BucketNodeRef E = copy_ptr (DeepCopyInto_BucketNodeRef E)"

definition DeepCopyInto_CertIssuerRef :: "external \<Rightarrow> copier" where
  "DeepCopyInto_CertIssuerRef E = copy_struct
     []"

definition DeepCopy_CertIssuerRef :: "external \<Rightarrow> copier" where
  "DeepCopy_CertIssuerRef E = copy_ptr (DeepCopyInto_CertIssuerRef E)"

definition DeepCopyInto_CertManagerConfig :: "external \<Rightarrow> copier" where
  "DeepCopyInto_CertManagerConfig E = copy_struct
     []"

definition DeepCopy_CertManagerConfig :: "external \<Rightarrow> copier" where
  "DeepCopy_CertManagerConfig E = copy_ptr (DeepCopyInto_CertManagerConfig E)"

definition DeepCopyInto_Grant :: "external \<Rightarrow> copier" where
  "DeepCopyInto_Grant E = copy_struct
     []"

definition DeepCopy_Grant :: "external \<Rightarrow> copier" where
  "DeepCopy_Grant E = copy_ptr (DeepCopyInto_Grant E)"

definition DeepCopyInto_MetricsConfigSource :: "external \<Rightarrow> copier" where
  "DeepCopyInto_MetricsConfigSource E = copy_struct
     [(''ConfigMapKeyRef'', x_DeepCopyInto E ''corev1.ConfigMapKeySelector'')]"

definition DeepCopy_MetricsConfigSource :: "external \<Rightarrow> copier" where
  "DeepCopy_MetricsConfigSource E = copy_ptr (DeepCopyInto_MetricsConfigSource E)"

definition DeepCopyInto_MonitoringConfig :: "external \<Rightarrow> copier" where
  "DeepCopyInto_MonitoringConfig E = copy_struct
     [(''MetricsConfig'', copy_ptr (DeepCopyInto_MetricsConfigSource E))]"

definition DeepCopy_MonitoringConfig :: "external \<Rightarrow> copier" where
  "DeepCopy_MonitoringConfig E = copy_ptr (DeepCopyInto_MonitoringConfig E)"

definition DeepCopyInto_MonitoringStatus :: "external \<Rightarrow> copier" where
  "DeepCopyInto_MonitoringStatus E = copy_struct
     []"

definition DeepCopy_MonitoringStatus :: "external \<Rightarrow> copier" where
  "DeepCopy_MonitoringStatus E = copy_ptr (DeepCopyInto_MonitoringStatus E)"

definition DeepCopyInto_NodeCondition :: "external \<Rightarrow> copier" where
  "DeepCopyInto_NodeCondition E = copy_struct
     [(''Conditions'', copy_slice (x_DeepCopyInto E ''metav1.Condition''))]"

definition DeepCopy_NodeCondition :: "external \<Rightarrow> copier" where
  "DeepCopy_NodeCondition E = copy_ptr (DeepCopyInto_NodeCondition E)"

definition DeepCopyInto_PodDisruptionBudgetConfig :: "external \<Rightarrow> copier" where
  "DeepCopyInto_PodDisruptionBudgetConfig E = copy_struct
     [(''Enabled'', copy_ptr return)]"

definition DeepCopy_PodDisruptionBudgetConfig :: "external \<Rightarrow> copier" where
  "DeepCopy_PodDisruptionBudgetConfig E = copy_ptr (DeepCopyInto_PodDisruptionBudgetConfig E)"

definition DeepCopyInto_RiakBucketSpec :: "external \<Rightarrow> copier" where
  "DeepCopyInto_RiakBucketSpec E = copy_struct
     [(''Properties'', copy_map)]"

definition DeepCopy_RiakBucketSpec :: "external \<Rightarrow> copier" where
  "DeepCopy_RiakBucketSpec E = copy_ptr (DeepCopyInto_RiakBucketSpec E)"

definition DeepCopyInto_RiakBucketStatus :: "external \<Rightarrow> copier" where
  "DeepCopyInto_RiakBucketStatus E = copy_struct
     [(''LastUpdateTime'', unless_nil (x_DeepCopy E ''metav1.Time'')), (''Properties'', copy_map),
      (''Nodes'', copy_slice return), (''Conditions'', copy_slice (x_DeepCopyInto E ''metav1.Condition''))]"

definition DeepCopy_RiakBucketStatus :: "external \<Rightarrow> copier" where
  "DeepCopy_RiakBucketStatus E = copy_ptr (DeepCopyInto_RiakBucketStatus E)"

definition DeepCopyInto_RiakBucket :: "external \<Rightarrow> copier" where
  "DeepCopyInto_RiakBucket E = copy_struct
     [(''TypeMeta'', return), (''ObjectMeta'', x_DeepCopyInto E ''metav1.ObjectMeta''),
      (''Spec'', DeepCopyInto_RiakBucketSpec E), (''Status'', DeepCopyInto_RiakBucketStatus E)]"

definition DeepCopy_RiakBucket :: "external \<Rightarrow> copier" where
  "DeepCopy_RiakBucket E = copy_ptr (DeepCopyInto_RiakBucket E)"

definition DeepCopyObject_RiakBucket :: "external \<Rightarrow> copier" where
  "DeepCopyObject_RiakBucket E = as_object (DeepCopy_RiakBucket E)"

definition DeepCopyInto_RiakBucketList :: "external \<Rightarrow> copier" where
  "DeepCopyInto_RiakBucketList E = copy_struct
     [(''TypeMeta'', return), (''ListMeta'', x_DeepCopyInto E ''metav1.ListMeta''),
      (''Items'', copy_slice (DeepCopyInto_RiakBucket E))]"

definition DeepCopy_RiakBucketList :: "external \<Rightarrow> copier" where
  "DeepCopy_RiakBucketList E = copy_ptr (DeepCopyInto_RiakBucketList E)"

definition DeepCopyObject_RiakBucketList :: "external \<Rightarrow> copier" where
  "DeepCopyObject_RiakBucketList E = as_object (DeepCopy_RiakBucketList E)"

definition DeepCopyInto_RiakBucketRef :: "external \<Rightarrow> copier" where
  "DeepCopyInto_RiakBucketRef E = copy_struct
     []"

definition DeepCopy_RiakBucketRef :: "external \<Rightarrow> copier" where
  "DeepCopy_RiakBucketRef E = copy_ptr (DeepCopyInto_RiakBucketRef E)"

definition DeepCopyInto_TrustedCASource :: "external \<Rightarrow> copier" where
  "DeepCopyInto_TrustedCASource E = copy_struct
     [(''SecretRef'', copy_ptr (x_DeepCopyInto E ''corev1.SecretKeySelector'')),
      (''ConfigMapRef'', copy_ptr (x_DeepCopyInto E ''corev1.ConfigMapKeySelector''))]"

definition DeepCopy_TrustedCASource :: "external \<Rightarrow> copier" where
  "DeepCopy_TrustedCASource E = copy_ptr (DeepCopyInto_TrustedCASource E)"

definition DeepCopyInto_TLSConfig :: "external \<Rightarrow> copier" where
  "DeepCopyInto_TLSConfig E = copy_struct
     [(''CertManager'', copy_ptr return), (''AdditionalClientCAs'', copy_slice (DeepCopyInto_TrustedCASource E))]"

definition DeepCopy_TLSConfig :: "external \<Rightarrow> copier" where
  "DeepCopy_TLSConfig E = copy_ptr (DeepCopyInto_TLSConfig E)"

definition DeepCopyInto_RolloutConfig :: "external \<Rightarrow> copier" where
  "DeepCopyInto_RolloutConfig E = copy_struct
     [(''WaitForTransfers'', copy_ptr return), (''StallTimeout'', copy_ptr return)]"

definition DeepCopy_RolloutConfig :: "external \<Rightarrow> copier" where
  "DeepCopy_RolloutConfig E = copy_ptr (DeepCopyInto_RolloutConfig E)"

definition DeepCopyInto_RiakClusterSpec :: "external \<Rightarrow> copier" where
  "DeepCopyInto_RiakClusterSpec E = copy_struct
     [(''Resources'', copy_ptr (x_DeepCopyInto E ''corev1.ResourceRequirements'')),
      (''StorageSize'', copy_to_new (x_DeepCopy E ''resource.Quantity'')), (''RiakConfig'', copy_map),
      (''TLS'', copy_ptr (DeepCopyInto_TLSConfig E)), (''Monitoring'', copy_ptr (DeepCopyInto_MonitoringConfig E)),
      (''NodeSelector'', copy_map),
      (''PodSecurityContext'', copy_ptr (x_DeepCopyInto E ''corev1.PodSecurityContext'')),
      (''Rollout'', copy_ptr (DeepCopyInto_RolloutConfig E)), (''TerminationGracePeriodSeconds'', copy_ptr return),
      (''PodDisruptionBudget'', copy_ptr (DeepCopyInto_PodDisruptionBudgetConfig E))]"

definition DeepCopy_RiakClusterSpec :: "external \<Rightarrow> copier" where
  "DeepCopy_RiakClusterSpec E = copy_ptr (DeepCopyInto_RiakClusterSpec E)"

definition DeepCopyInto_RiakNodeMember :: "external \<Rightarrow> copier" where
  "DeepCopyInto_RiakNodeMember E = copy_struct
     [(''Conditions'', copy_slice (x_DeepCopyInto E ''metav1.Condition''))]"

definition DeepCopy_RiakNodeMember :: "external \<Rightarrow> copier" where
  "DeepCopy_RiakNodeMember E = copy_ptr (DeepCopyInto_RiakNodeMember E)"

definition DeepCopyInto_TLSStatus :: "external \<Rightarrow> copier" where
  "DeepCopyInto_TLSStatus E = copy_struct
     []"

definition DeepCopy_TLSStatus :: "external \<Rightarrow> copier" where
  "DeepCopy_TLSStatus E = copy_ptr (DeepCopyInto_TLSStatus E)"

definition DeepCopyInto_RiakUserRef :: "external \<Rightarrow> copier" where
  "DeepCopyInto_RiakUserRef E = copy_struct
     []"

definition DeepCopy_RiakUserRef :: "external \<Rightarrow> copier" where
  "DeepCopy_RiakUserRef E = copy_ptr (DeepCopyInto_RiakUserRef E)"

definition DeepCopyInto_RiakClusterStatus :: "external \<Rightarrow> copier" where
  "DeepCopyInto_RiakClusterStatus E = copy_struct
     [(''Conditions'', copy_slice (x_DeepCopyInto E ''metav1.Condition'')),
      (''LastUpdateTime'', unless_nil (x_DeepCopy E ''metav1.Time'')),
      (''Members'', copy_slice (DeepCopyInto_RiakNodeMember E)), (''TLSStatus'', return),
      (''MonitoringStatus'', return), (''Buckets'', copy_slice return), (''Users'', copy_slice return),
      (''NodeConditions'', copy_slice (DeepCopyInto_NodeCondition E))]"

definition DeepCopy_RiakClusterStatus :: "external \<Rightarrow> copier" where
  "DeepCopy_RiakClusterStatus E = copy_ptr (DeepCopyInto_RiakClusterStatus E)"

definition DeepCopyInto_RiakCluster :: "external \<Rightarrow> copier" where
  "DeepCopyInto_RiakCluster E = copy_struct
     [(''TypeMeta'', return), (''ObjectMeta'', x_DeepCopyInto E ''metav1.ObjectMeta''),
      (''Spec'', DeepCopyInto_RiakClusterSpec E), (''Status'', DeepCopyInto_RiakClusterStatus E)]"

definition DeepCopy_RiakCluster :: "external \<Rightarrow> copier" where
  "DeepCopy_RiakCluster E = copy_ptr (DeepCopyInto_RiakCluster E)"

definition DeepCopyObject_RiakCluster :: "external \<Rightarrow> copier" where
  "DeepCopyObject_RiakCluster E = as_object (DeepCopy_RiakCluster E)"

definition DeepCopyInto_RiakClusterList :: "external \<Rightarrow> copier" where
  "DeepCopyInto_RiakClusterList E = copy_struct
     [(''TypeMeta'', return), (''ListMeta'', x_DeepCopyInto E ''metav1.ListMeta''),
      (''Items'', copy_slice (DeepCopyInto_RiakCluster E))]"

definition DeepCopy_RiakClusterList :: "external \<Rightarrow> copier" where
  "DeepCopy_RiakClusterList E = copy_ptr (DeepCopyInto_RiakClusterList E)"

definition DeepCopyObject_RiakClusterList :: "external \<Rightarrow> copier" where
  "DeepCopyObject_RiakClusterList E = as_object (DeepCopy_RiakClusterList E)"

definition DeepCopyInto_UserCertificateRef :: "external \<Rightarrow> copier" where
  "DeepCopyInto_UserCertificateRef E = copy_struct
     [(''IssuerRef'', copy_ptr return)]"

definition DeepCopy_UserCertificateRef :: "external \<Rightarrow> copier" where
  "DeepCopy_UserCertificateRef E = copy_ptr (DeepCopyInto_UserCertificateRef E)"

definition DeepCopyInto_RiakUserSpec :: "external \<Rightarrow> copier" where
  "DeepCopyInto_RiakUserSpec E = copy_struct
     [(''Grants'', copy_slice return), (''CertificateRef'', copy_ptr (DeepCopyInto_UserCertificateRef E))]"

definition DeepCopy_RiakUserSpec :: "external \<Rightarrow> copier" where
  "DeepCopy_RiakUserSpec E = copy_ptr (DeepCopyInto_RiakUserSpec E)"

definition DeepCopyInto_RiakUserStatus :: "external \<Rightarrow> copier" where
  "DeepCopyInto_RiakUserStatus E = copy_struct
     [(''LastUpdateTime'', unless_nil (x_DeepCopy E ''metav1.Time'')), (''Grants'', copy_slice return),
      (''Conditions'', copy_slice (x_DeepCopyInto E ''metav1.Condition''))]"

definition DeepCopy_RiakUserStatus :: "external \<Rightarrow> copier" where
  "DeepCopy_RiakUserStatus E = copy_ptr (DeepCopyInto_RiakUserStatus E)"

definition DeepCopyInto_RiakUser :: "external \<Rightarrow> copier" where
  "DeepCopyInto_RiakUser E = copy_struct
     [(''TypeMeta'', return), (''ObjectMeta'', x_DeepCopyInto E ''metav1.ObjectMeta''),
      (''Spec'', DeepCopyInto_RiakUserSpec E), (''Status'', DeepCopyInto_RiakUserStatus E)]"

definition DeepCopy_RiakUser :: "external \<Rightarrow> copier" where
  "DeepCopy_RiakUser E = copy_ptr (DeepCopyInto_RiakUser E)"

definition DeepCopyObject_RiakUser :: "external \<Rightarrow> copier" where
  "DeepCopyObject_RiakUser E = as_object (DeepCopy_RiakUser E)"

definition DeepCopyInto_RiakUserList :: "external \<Rightarrow> copier" where
  "DeepCopyInto_RiakUserList E = copy_struct
     [(''TypeMeta'', return), (''ListMeta'', x_DeepCopyInto E ''metav1.ListMeta''),
      (''Items'', copy_slice (DeepCopyInto_RiakUser E))]"

definition DeepCopy_RiakUserList :: "external \<Rightarrow> copier" where
  "DeepCopy_RiakUserList E = copy_ptr (DeepCopyInto_RiakUserList E)"

definition DeepCopyObject_RiakUserList :: "external \<Rightarrow> copier" where
  "DeepCopyObject_RiakUserList E = as_object (DeepCopy_RiakUserList E)"

text \<open>All of them, with the type they copy a pointer to.\<close>

definition deep_copies :: "external \<Rightarrow> (gtype \<times> copier) list" where
  "deep_copies E =
     [(type_BucketNodeRef E, DeepCopy_BucketNodeRef E), (type_CertIssuerRef E, DeepCopy_CertIssuerRef E),
      (type_CertManagerConfig E, DeepCopy_CertManagerConfig E), (type_Grant E, DeepCopy_Grant E),
      (type_MetricsConfigSource E, DeepCopy_MetricsConfigSource E),
      (type_MonitoringConfig E, DeepCopy_MonitoringConfig E), (type_MonitoringStatus E, DeepCopy_MonitoringStatus E),
      (type_NodeCondition E, DeepCopy_NodeCondition E),
      (type_PodDisruptionBudgetConfig E, DeepCopy_PodDisruptionBudgetConfig E),
      (type_RiakBucketSpec E, DeepCopy_RiakBucketSpec E), (type_RiakBucketStatus E, DeepCopy_RiakBucketStatus E),
      (type_RiakBucket E, DeepCopy_RiakBucket E), (type_RiakBucketList E, DeepCopy_RiakBucketList E),
      (type_RiakBucketRef E, DeepCopy_RiakBucketRef E), (type_TrustedCASource E, DeepCopy_TrustedCASource E),
      (type_TLSConfig E, DeepCopy_TLSConfig E), (type_RolloutConfig E, DeepCopy_RolloutConfig E),
      (type_RiakClusterSpec E, DeepCopy_RiakClusterSpec E), (type_RiakNodeMember E, DeepCopy_RiakNodeMember E),
      (type_TLSStatus E, DeepCopy_TLSStatus E), (type_RiakUserRef E, DeepCopy_RiakUserRef E),
      (type_RiakClusterStatus E, DeepCopy_RiakClusterStatus E), (type_RiakCluster E, DeepCopy_RiakCluster E),
      (type_RiakClusterList E, DeepCopy_RiakClusterList E),
      (type_UserCertificateRef E, DeepCopy_UserCertificateRef E), (type_RiakUserSpec E, DeepCopy_RiakUserSpec E),
      (type_RiakUserStatus E, DeepCopy_RiakUserStatus E), (type_RiakUser E, DeepCopy_RiakUser E),
      (type_RiakUserList E, DeepCopy_RiakUserList E), (type_RiakBucket E, DeepCopyObject_RiakBucket E),
      (type_RiakBucketList E, DeepCopyObject_RiakBucketList E), (type_RiakCluster E, DeepCopyObject_RiakCluster E),
      (type_RiakClusterList E, DeepCopyObject_RiakClusterList E), (type_RiakUser E, DeepCopyObject_RiakUser E),
      (type_RiakUserList E, DeepCopyObject_RiakUserList E)]"

subsection \<open>They copy\<close>

lemma flat_types:
  "flat (type_BucketNodeRef E)" "flat (type_CertIssuerRef E)" "flat (type_CertManagerConfig E)" "flat (type_Grant E)"
  "flat (type_MonitoringStatus E)" "flat (type_TLSStatus E)" "flat (type_RiakBucketRef E)" "flat (type_RiakUserRef E)"
  by (simp_all add: type_BucketNodeRef_def type_CertIssuerRef_def type_CertManagerConfig_def type_Grant_def
      type_MonitoringStatus_def type_TLSStatus_def type_RiakBucketRef_def type_RiakUserRef_def)

lemmas copying = fits_Nil fits_plain fits_copied external_lawsD flat_types

lemma copies_BucketNodeRef [copies_rules]: "external_laws E \<Longrightarrow> copies (DeepCopyInto_BucketNodeRef E) (type_BucketNodeRef E)"
  unfolding DeepCopyInto_BucketNodeRef_def type_BucketNodeRef_def by (rule copies_struct) (simp_all add: copying copies_rules)

lemma copies_CertIssuerRef [copies_rules]: "external_laws E \<Longrightarrow> copies (DeepCopyInto_CertIssuerRef E) (type_CertIssuerRef E)"
  unfolding DeepCopyInto_CertIssuerRef_def type_CertIssuerRef_def by (rule copies_struct) (simp_all add: copying copies_rules)

lemma copies_CertManagerConfig [copies_rules]: "external_laws E \<Longrightarrow> copies (DeepCopyInto_CertManagerConfig E) (type_CertManagerConfig E)"
  unfolding DeepCopyInto_CertManagerConfig_def type_CertManagerConfig_def by (rule copies_struct) (simp_all add: copying copies_rules)

lemma copies_Grant [copies_rules]: "external_laws E \<Longrightarrow> copies (DeepCopyInto_Grant E) (type_Grant E)"
  unfolding DeepCopyInto_Grant_def type_Grant_def by (rule copies_struct) (simp_all add: copying copies_rules)

lemma copies_MetricsConfigSource [copies_rules]: "external_laws E \<Longrightarrow> copies (DeepCopyInto_MetricsConfigSource E) (type_MetricsConfigSource E)"
  unfolding DeepCopyInto_MetricsConfigSource_def type_MetricsConfigSource_def by (rule copies_struct) (simp_all add: copying copies_rules)

lemma copies_MonitoringConfig [copies_rules]: "external_laws E \<Longrightarrow> copies (DeepCopyInto_MonitoringConfig E) (type_MonitoringConfig E)"
  unfolding DeepCopyInto_MonitoringConfig_def type_MonitoringConfig_def by (rule copies_struct) (simp_all add: copying copies_rules)

lemma copies_MonitoringStatus [copies_rules]: "external_laws E \<Longrightarrow> copies (DeepCopyInto_MonitoringStatus E) (type_MonitoringStatus E)"
  unfolding DeepCopyInto_MonitoringStatus_def type_MonitoringStatus_def by (rule copies_struct) (simp_all add: copying copies_rules)

lemma copies_NodeCondition [copies_rules]: "external_laws E \<Longrightarrow> copies (DeepCopyInto_NodeCondition E) (type_NodeCondition E)"
  unfolding DeepCopyInto_NodeCondition_def type_NodeCondition_def by (rule copies_struct) (simp_all add: copying copies_rules)

lemma copies_PodDisruptionBudgetConfig [copies_rules]: "external_laws E \<Longrightarrow> copies (DeepCopyInto_PodDisruptionBudgetConfig E) (type_PodDisruptionBudgetConfig E)"
  unfolding DeepCopyInto_PodDisruptionBudgetConfig_def type_PodDisruptionBudgetConfig_def by (rule copies_struct) (simp_all add: copying copies_rules)

lemma copies_RiakBucketSpec [copies_rules]: "external_laws E \<Longrightarrow> copies (DeepCopyInto_RiakBucketSpec E) (type_RiakBucketSpec E)"
  unfolding DeepCopyInto_RiakBucketSpec_def type_RiakBucketSpec_def by (rule copies_struct) (simp_all add: copying copies_rules)

lemma copies_RiakBucketStatus [copies_rules]: "external_laws E \<Longrightarrow> copies (DeepCopyInto_RiakBucketStatus E) (type_RiakBucketStatus E)"
  unfolding DeepCopyInto_RiakBucketStatus_def type_RiakBucketStatus_def by (rule copies_struct) (simp_all add: copying copies_rules)

lemma copies_RiakBucket [copies_rules]: "external_laws E \<Longrightarrow> copies (DeepCopyInto_RiakBucket E) (type_RiakBucket E)"
  unfolding DeepCopyInto_RiakBucket_def type_RiakBucket_def by (rule copies_struct) (simp_all add: copying copies_rules)

lemma copies_RiakBucketList [copies_rules]: "external_laws E \<Longrightarrow> copies (DeepCopyInto_RiakBucketList E) (type_RiakBucketList E)"
  unfolding DeepCopyInto_RiakBucketList_def type_RiakBucketList_def by (rule copies_struct) (simp_all add: copying copies_rules)

lemma copies_RiakBucketRef [copies_rules]: "external_laws E \<Longrightarrow> copies (DeepCopyInto_RiakBucketRef E) (type_RiakBucketRef E)"
  unfolding DeepCopyInto_RiakBucketRef_def type_RiakBucketRef_def by (rule copies_struct) (simp_all add: copying copies_rules)

lemma copies_TrustedCASource [copies_rules]: "external_laws E \<Longrightarrow> copies (DeepCopyInto_TrustedCASource E) (type_TrustedCASource E)"
  unfolding DeepCopyInto_TrustedCASource_def type_TrustedCASource_def by (rule copies_struct) (simp_all add: copying copies_rules)

lemma copies_TLSConfig [copies_rules]: "external_laws E \<Longrightarrow> copies (DeepCopyInto_TLSConfig E) (type_TLSConfig E)"
  unfolding DeepCopyInto_TLSConfig_def type_TLSConfig_def by (rule copies_struct) (simp_all add: copying copies_rules)

lemma copies_RolloutConfig [copies_rules]: "external_laws E \<Longrightarrow> copies (DeepCopyInto_RolloutConfig E) (type_RolloutConfig E)"
  unfolding DeepCopyInto_RolloutConfig_def type_RolloutConfig_def by (rule copies_struct) (simp_all add: copying copies_rules)

lemma copies_RiakClusterSpec [copies_rules]: "external_laws E \<Longrightarrow> copies (DeepCopyInto_RiakClusterSpec E) (type_RiakClusterSpec E)"
  unfolding DeepCopyInto_RiakClusterSpec_def type_RiakClusterSpec_def by (rule copies_struct) (simp_all add: copying copies_rules)

lemma copies_RiakNodeMember [copies_rules]: "external_laws E \<Longrightarrow> copies (DeepCopyInto_RiakNodeMember E) (type_RiakNodeMember E)"
  unfolding DeepCopyInto_RiakNodeMember_def type_RiakNodeMember_def by (rule copies_struct) (simp_all add: copying copies_rules)

lemma copies_TLSStatus [copies_rules]: "external_laws E \<Longrightarrow> copies (DeepCopyInto_TLSStatus E) (type_TLSStatus E)"
  unfolding DeepCopyInto_TLSStatus_def type_TLSStatus_def by (rule copies_struct) (simp_all add: copying copies_rules)

lemma copies_RiakUserRef [copies_rules]: "external_laws E \<Longrightarrow> copies (DeepCopyInto_RiakUserRef E) (type_RiakUserRef E)"
  unfolding DeepCopyInto_RiakUserRef_def type_RiakUserRef_def by (rule copies_struct) (simp_all add: copying copies_rules)

lemma copies_RiakClusterStatus [copies_rules]: "external_laws E \<Longrightarrow> copies (DeepCopyInto_RiakClusterStatus E) (type_RiakClusterStatus E)"
  unfolding DeepCopyInto_RiakClusterStatus_def type_RiakClusterStatus_def by (rule copies_struct) (simp_all add: copying copies_rules)

lemma copies_RiakCluster [copies_rules]: "external_laws E \<Longrightarrow> copies (DeepCopyInto_RiakCluster E) (type_RiakCluster E)"
  unfolding DeepCopyInto_RiakCluster_def type_RiakCluster_def by (rule copies_struct) (simp_all add: copying copies_rules)

lemma copies_RiakClusterList [copies_rules]: "external_laws E \<Longrightarrow> copies (DeepCopyInto_RiakClusterList E) (type_RiakClusterList E)"
  unfolding DeepCopyInto_RiakClusterList_def type_RiakClusterList_def by (rule copies_struct) (simp_all add: copying copies_rules)

lemma copies_UserCertificateRef [copies_rules]: "external_laws E \<Longrightarrow> copies (DeepCopyInto_UserCertificateRef E) (type_UserCertificateRef E)"
  unfolding DeepCopyInto_UserCertificateRef_def type_UserCertificateRef_def by (rule copies_struct) (simp_all add: copying copies_rules)

lemma copies_RiakUserSpec [copies_rules]: "external_laws E \<Longrightarrow> copies (DeepCopyInto_RiakUserSpec E) (type_RiakUserSpec E)"
  unfolding DeepCopyInto_RiakUserSpec_def type_RiakUserSpec_def by (rule copies_struct) (simp_all add: copying copies_rules)

lemma copies_RiakUserStatus [copies_rules]: "external_laws E \<Longrightarrow> copies (DeepCopyInto_RiakUserStatus E) (type_RiakUserStatus E)"
  unfolding DeepCopyInto_RiakUserStatus_def type_RiakUserStatus_def by (rule copies_struct) (simp_all add: copying copies_rules)

lemma copies_RiakUser [copies_rules]: "external_laws E \<Longrightarrow> copies (DeepCopyInto_RiakUser E) (type_RiakUser E)"
  unfolding DeepCopyInto_RiakUser_def type_RiakUser_def by (rule copies_struct) (simp_all add: copying copies_rules)

lemma copies_RiakUserList [copies_rules]: "external_laws E \<Longrightarrow> copies (DeepCopyInto_RiakUserList E) (type_RiakUserList E)"
  unfolding DeepCopyInto_RiakUserList_def type_RiakUserList_def by (rule copies_struct) (simp_all add: copying copies_rules)


lemmas deep_copy_defs =
  DeepCopy_BucketNodeRef_def DeepCopy_CertIssuerRef_def DeepCopy_CertManagerConfig_def DeepCopy_Grant_def
  DeepCopy_MetricsConfigSource_def DeepCopy_MonitoringConfig_def DeepCopy_MonitoringStatus_def DeepCopy_NodeCondition_def
  DeepCopy_PodDisruptionBudgetConfig_def DeepCopy_RiakBucketSpec_def DeepCopy_RiakBucketStatus_def DeepCopy_RiakBucket_def
  DeepCopyObject_RiakBucket_def DeepCopy_RiakBucketList_def DeepCopyObject_RiakBucketList_def DeepCopy_RiakBucketRef_def
  DeepCopy_TrustedCASource_def DeepCopy_TLSConfig_def DeepCopy_RolloutConfig_def DeepCopy_RiakClusterSpec_def
  DeepCopy_RiakNodeMember_def DeepCopy_TLSStatus_def DeepCopy_RiakUserRef_def DeepCopy_RiakClusterStatus_def
  DeepCopy_RiakCluster_def DeepCopyObject_RiakCluster_def DeepCopy_RiakClusterList_def DeepCopyObject_RiakClusterList_def
  DeepCopy_UserCertificateRef_def DeepCopy_RiakUserSpec_def DeepCopy_RiakUserStatus_def DeepCopy_RiakUser_def
  DeepCopyObject_RiakUser_def DeepCopy_RiakUserList_def DeepCopyObject_RiakUserList_def

lemma deep_copies_copy:
  assumes "external_laws E" and "(t, c) \<in> set (deep_copies E)"
  shows "copies c (TPtr t)"
proof -
  have "list_all (\<lambda>(t, c). copies c (TPtr t)) (deep_copies E)"
    using assms(1) unfolding deep_copies_def by (simp add: copies_rules deep_copy_defs)
  with assms(2) show ?thesis by (auto simp: list_all_iff)
qed


lemma update_fresh:
  assumes "reads h t v = Some (x, as)" and "extends h h'" and "length h \<le> a"
  shows "reads (h'[a := c]) t v = Some (x, as)"
  by (rule reads_extends[OF assms(1) extends_update[OF assms(2,3)]])

lemma update_elsewhere:
  assumes "reads h t v = Some (x, as)" and "a \<notin> set as"
  shows "reads (h[a := c]) t v = Some (x, as)"
  by (rule reads_frame(1)[OF assms(1)]) (use assms(2) in \<open>auto simp: cell_at_update\<close>)

text \<open>
  C6: a deep copy of a custom resource is a copy, and shares no memory with the original. For each of the structs of the API,
  when a pointer reads as some tree, the pointer that \<^verbatim>\<open>DeepCopy\<close> (or \<^verbatim>\<open>DeepCopyObject\<close>) returns reads as the
  same tree, \<^verbatim>\<open>nil\<close> pointers, slices and maps included; the copy uses each of its cells once and none of the original's; overwriting any
  cell of the copy leaves what the original reads as, and overwriting any other cell leaves what the copy reads as.
\<close>

theorem DeepCopy_isolates:
  assumes "external_laws E" and "(t, copy) \<in> set (deep_copies E)"
    and "reads h (TPtr t) p = Some (x, as)" and "run_state (copy p) h = (p', h')"
  shows "\<exists>bs. reads h' (TPtr t) p' = Some (x, bs) \<and> distinct bs \<and> set as \<inter> set bs = {} \<and>
    (\<forall>a c. a \<in> set bs \<longrightarrow> reads (h'[a := c]) (TPtr t) p = Some (x, as)) \<and>
    (\<forall>a c. a \<notin> set bs \<longrightarrow> reads (h'[a := c]) (TPtr t) p' = Some (x, bs))"
proof -
  have "wp (copy p) (\<lambda>v' h'. extends h h' \<and>
      (\<exists>bs. reads h' (TPtr t) v' = Some (x, bs) \<and> distinct bs \<and> (\<forall>b \<in> set bs. length h \<le> b))) h"
    using deep_copies_copy[OF assms(1,2)] assms(3) unfolding copies_def by blast
  from wp_run[OF assms(4) this] obtain bs where bs: "extends h h'" "reads h' (TPtr t) p' = Some (x, bs)" "distinct bs"
      "\<forall>b \<in> set bs. length h \<le> b" by blast
  have "set as \<inter> set bs = {}" using reads_inside(1)[OF assms(3)] bs(4) by fastforce
  then show ?thesis
    using bs update_fresh[OF assms(3) bs(1)] update_elsewhere[OF bs(2)] by blast
qed

definition sample_external :: external where
  "sample_external = \<lparr>
     x_type = (\<lambda>n. if n \<in> set [''metav1.TypeMeta'', ''metav1.Duration'', ''corev1.PullPolicy''] then TStr
       else TStruct [(''data'', TMap)]),
     x_DeepCopyInto = (\<lambda>_. copy_struct [(''data'', copy_map)]),
     x_DeepCopy = (\<lambda>n. if n = ''metav1.Time'' then copy_ptr (copy_struct [(''data'', copy_map)])
       else copy_struct [(''data'', copy_map)])\<rparr>"

lemma sample_external_laws: "external_laws sample_external"
proof -
  have "copies (copy_struct [(''data'', copy_map)]) (TStruct [(''data'', TMap)])"
    by (rule copies_struct) (simp_all add: fits_Nil fits_copied copies_rules)
  then show ?thesis by (simp add: external_laws_def sample_external_def copies_rules)
qed

text \<open>A TLS configuration with a certificate manager and one additional authority, at the addresses 0 to 4.\<close>

definition sample_memory :: memory where
  "sample_memory =
     [Obj (GStruct [(''Enabled'', GBool True), (''CertManager'', GPtr (Some 1)), (''AdditionalClientCAs'', GSlice (Some (2, 0, 1)))]),
      Obj (GStruct [(''IssuerName'', GStr ''ca''), (''IssuerKind'', GStr ''Issuer'')]),
      Arr [GStruct [(''SecretRef'', GPtr (Some 3)), (''ConfigMapRef'', GPtr None)]],
      Obj (GStruct [(''data'', GMap (Some 4))]),
      Table [(''name'', ''partner-ca'')]]"

theorem DeepCopy_isolates_witness:
  "let h = sample_memory; p = GPtr (Some 0); t = TPtr (type_TLSConfig sample_external);
       (p', h') = run_state (DeepCopy_TLSConfig sample_external p) h
   in p' = GPtr (Some 5) \<and> map_option snd (reads h t p) = Some [0, 1, 2, 3, 4] \<and>
     map_option snd (reads h' t p') = Some [5, 6, 7, 8, 9] \<and> map_option fst (reads h' t p') = map_option fst (reads h t p) \<and>
     reads (h'[7 := Arr []]) t p = reads h t p"
proof -
  let ?t = "type_TLSConfig sample_external" and ?c = "DeepCopy_TLSConfig sample_external" and ?h = sample_memory
  obtain p' h' where r: "run_state (?c (GPtr (Some 0))) ?h = (p', h')" by fastforce
  have "fst (run_state (?c (GPtr (Some 0))) ?h) = GPtr (Some 5) \<and>
      map_option snd (reads (snd (run_state (?c (GPtr (Some 0))) ?h)) (TPtr ?t) (fst (run_state (?c (GPtr (Some 0))) ?h))) =
        Some [5, 6, 7, 8, 9] \<and>
      map_option snd (reads ?h (TPtr ?t) (GPtr (Some 0))) = Some [0, 1, 2, 3, 4]"
    by code_simp
  then have e: "p' = GPtr (Some 5)" "map_option snd (reads h' (TPtr ?t) p') = Some [5, 6, 7, 8, 9]"
      "map_option snd (reads ?h (TPtr ?t) (GPtr (Some 0))) = Some [0, 1, 2, 3, 4]"
    unfolding r fst_conv snd_conv by blast+
  obtain x where x: "reads ?h (TPtr ?t) (GPtr (Some 0)) = Some (x, [0, 1, 2, 3, 4])" using e(3) by (auto simp del: reads.simps)
  have "(?t, ?c) \<in> set (deep_copies sample_external)" by (simp add: deep_copies_def)
  from DeepCopy_isolates[OF sample_external_laws this x r] obtain bs where
    "reads h' (TPtr ?t) p' = Some (x, bs)" "\<forall>a c. a \<in> set bs \<longrightarrow> reads (h'[a := c]) (TPtr ?t) (GPtr (Some 0)) = Some (x, [0, 1, 2, 3, 4])"
    by blast
  with e x show ?thesis by (simp add: Let_def r del: reads.simps)
qed

end
