(* ===== verification/Ring_Formation.thy ===== *)
theory Ring_Formation
  imports Manager "HOL-Library.Sublist"
begin

text \<open>
  Forming the ring, end to end: \<open>ReconcileMembership\<close> against nodes that treat \<^verbatim>\<open>member-status\<close>, \<^verbatim>\<open>cluster join\<close>,
  \<^verbatim>\<open>cluster plan\<close> and \<^verbatim>\<open>cluster commit\<close> as Riak documents them. Whatever part of the ring exists already, one run makes every
  pod a member, and the next one, once the ring has settled, reports it formed.
\<close>

subsection \<open>What Riak promises\<close>

text \<open>
  What is observed of the nodes: the members each pod's node reports, the nodes whose join to the seed's cluster is staged, and the
  committed members of that cluster.
\<close>

record 'w riak =
  rk_reports :: "'w \<Rightarrow> string \<Rightarrow> ClusterMember list"
  rk_staged :: "'w \<Rightarrow> string set"
  rk_members :: "'w \<Rightarrow> string set"

definition admin :: "'w env \<Rightarrow> string \<Rightarrow> string \<Rightarrow> string list \<Rightarrow> 'w \<Rightarrow> string res \<times> 'w" where
  "admin env ns pod args = run_kubectl env (execBase ns pod riakContainer @ args)"

text \<open>A command that is accepted, and what it may change.\<close>

definition accepts :: "string res \<times> 'w \<Rightarrow> (string \<Rightarrow> 'w \<Rightarrow> bool) \<Rightarrow> bool" where
  "accepts r P \<longleftrightarrow> (\<exists>out o'. r = (Inr out, o') \<and> \<not> riakAdminFailed out \<and> P out o')"

definition same_ring :: "'w riak \<Rightarrow> 'w \<Rightarrow> 'w \<Rightarrow> bool" where
  "same_ring rk o1 o2 \<longleftrightarrow> rk_reports rk o2 = rk_reports rk o1 \<and> rk_staged rk o2 = rk_staged rk o1 \<and>
     rk_members rk o2 = rk_members rk o1"

text \<open>
  \<^verbatim>\<open>member-status\<close> prints the members without changing anything, and when no join is staged the seed reports the committed members,
  each once. A standalone node can be staged to join the seed's node, which concerns the reports of these two nodes only. A plan
  is made when something is staged. A commit makes the staged nodes members.
\<close>

definition riak_laws :: "'w env \<Rightarrow> string \<Rightarrow> string \<Rightarrow> string set \<Rightarrow> (string \<Rightarrow> string) \<Rightarrow> 'w riak \<Rightarrow> bool" where
  "riak_laws env ns seed pods node rk \<longleftrightarrow>
     (\<forall>p \<in> pods. \<forall>s. accepts (admin env ns p [''member-status''] s)
        (\<lambda>out s'. parseMemberStatus out = rk_reports rk s p \<and> same_ring rk s s')) \<and>
     (\<forall>s. node seed \<in> rk_members rk s \<and> rk_staged rk s = {} \<longrightarrow>
        cm_Node ` set (rk_reports rk s seed) = rk_members rk s \<and> distinct (map cm_Node (rk_reports rk s seed))) \<and>
     (\<forall>p \<in> pods. \<forall>s m. p \<noteq> seed \<and> rk_reports rk s p = [m] \<and> node seed \<in> rk_members rk s \<longrightarrow>
        accepts (admin env ns p [''cluster'', ''join'', node seed] s)
          (\<lambda>_ s'. rk_staged rk s' = insert (cm_Node m) (rk_staged rk s) \<and> rk_members rk s' = rk_members rk s \<and>
             (\<forall>q \<in> pods - {p, seed}. rk_reports rk s' q = rk_reports rk s q))) \<and>
     (\<forall>s. rk_staged rk s \<noteq> {} \<longrightarrow>
        accepts (admin env ns seed [''cluster'', ''plan''] s)
          (\<lambda>_ s'. rk_staged rk s' = rk_staged rk s \<and> rk_members rk s' = rk_members rk s) \<and>
        accepts (admin env ns seed [''cluster'', ''commit''] s)
          (\<lambda>_ s'. rk_staged rk s' = {} \<and> rk_members rk s' = rk_members rk s \<union> rk_staged rk s))"

lemma wp_accepts:
  assumes "accepts (admin env ns pod args (outside w)) P"
    and "\<And>out w'. P out (outside w') \<Longrightarrow> Q (out, None) w'"
  shows "wp (ExecuteRiakAdmin env ns pod riakContainer args) Q w"
  using assms unfolding accepts_def admin_def
  by (force simp: wp_def run_ExecuteRiakAdmin admin_result_def)

lemma wp_MemberStatus_law:
  assumes "riak_laws env ns seed pods node rk" and "p \<in> pods"
    and "\<And>w'. same_ring rk (outside w) (outside w') \<Longrightarrow> Q (Inr (rk_reports rk (outside w) p)) w'"
  shows "wp (MemberStatus env ns p riakContainer) Q w"
proof -
  have "accepts (admin env ns p [''member-status''] (outside w))
      (\<lambda>out s'. parseMemberStatus out = rk_reports rk (outside w) p \<and> same_ring rk (outside w) s')"
    using assms(1,2) unfolding riak_laws_def by blast
  then show ?thesis
    unfolding MemberStatus_def wp_bind by (rule wp_accepts) (use assms(3) in auto)
qed

subsection \<open>The join loop\<close>

text \<open>
  A state from which the ring can be formed: nothing is staged, the seed is a member, there are no strangers, and a pod that reports
  one member reports itself, as every pod does that is not a member yet.
\<close>

definition can_form :: "string \<Rightarrow> string list \<Rightarrow> (string \<Rightarrow> string) \<Rightarrow> 'w riak \<Rightarrow> 'w \<Rightarrow> bool" where
  "can_form seed pods node rk s \<longleftrightarrow>
     rk_staged rk s = {} \<and> node seed \<in> rk_members rk s \<and> rk_members rk s \<subseteq> node ` set pods \<and>
     list_all (\<lambda>p. p \<noteq> seed \<longrightarrow>
       (case rk_reports rk s p of [m] \<Rightarrow> cm_Node m = node p | _ \<Rightarrow> node p \<in> rk_members rk s)) pods"

text \<open>The node names of the pods: different pods have different nodes, and only the seed's looks like the seed's.\<close>

definition node_names :: "string \<Rightarrow> string list \<Rightarrow> (string \<Rightarrow> string) \<Rightarrow> bool" where
  "node_names seed pods node \<longleftrightarrow> seed \<in> set pods \<and> distinct pods \<and> inj_on node (set pods) \<and>
     (\<forall>p \<in> set pods. is_seed_node seed (node p) \<longleftrightarrow> p = seed)"

definition missing :: "string \<Rightarrow> (string \<Rightarrow> string) \<Rightarrow> 'w riak \<Rightarrow> 'w \<Rightarrow> string list \<Rightarrow> string list" where
  "missing seed node rk s pods = filter (\<lambda>p. p \<noteq> seed \<and> node p \<notin> rk_members rk s) pods"

definition joining :: "string \<Rightarrow> (string \<Rightarrow> string) \<Rightarrow> 'w riak \<Rightarrow> 'w \<Rightarrow> string list \<Rightarrow> string list \<Rightarrow> nat \<Rightarrow> 'w \<Rightarrow> bool" where
  "joining seed node rk s0 pods pre joined s \<longleftrightarrow>
     rk_members rk s = rk_members rk s0 \<and> rk_staged rk s = node ` set (missing seed node rk s0 pre) \<and>
     joined = length (missing seed node rk s0 pre) \<and>
     (\<forall>q \<in> set pods - set pre - {seed}. rk_reports rk s q = rk_reports rk s0 q)"

lemma wp_JoinCluster_law:
  assumes "riak_laws env ns seed pods node rk" and "p \<in> pods" "p \<noteq> seed"
    and "rk_reports rk (outside w) p = [m]" and "node seed \<in> rk_members rk (outside w)"
    and "\<And>w'. rk_staged rk (outside w') = insert (cm_Node m) (rk_staged rk (outside w)) \<Longrightarrow>
      rk_members rk (outside w') = rk_members rk (outside w) \<Longrightarrow>
      (\<forall>q \<in> pods - {p, seed}. rk_reports rk (outside w') q = rk_reports rk (outside w) q) \<Longrightarrow> Q None w'"
  shows "wp (JoinCluster env ns p riakContainer (node seed)) Q w"
proof -
  have "accepts (admin env ns p [''cluster'', ''join'', node seed] (outside w))
      (\<lambda>_ s'. rk_staged rk s' = insert (cm_Node m) (rk_staged rk (outside w)) \<and>
         rk_members rk s' = rk_members rk (outside w) \<and>
         (\<forall>q \<in> pods - {p, seed}. rk_reports rk s' q = rk_reports rk (outside w) q))"
    using assms(1-5) unfolding riak_laws_def by blast
  then show ?thesis
    unfolding JoinCluster_def wp_bind by (rule wp_accepts) (use assms(6) in auto)
qed

lemma wp_join_body_law:
  assumes laws: "riak_laws env ns seed (set pods) node rk" and start: "can_form seed pods node rk s0"
    and pods: "pods = pre @ p # post" "distinct pods"
    and sc: "\<And>n. sd_inRing sc n \<longleftrightarrow> n \<in> rk_members rk s0" "sd_seedNode sc = node seed"
    and I: "joining seed node rk s0 pods pre joined (outside w)"
  shows "wp (join_body env ns seed sc p joined)
    (\<lambda>r w'. case r of Inl e \<Rightarrow> False | Inr j \<Rightarrow> joining seed node rk s0 pods (pre @ [p]) j (outside w')) w"
proof (cases "p = seed")
  case True
  then show ?thesis using I by (auto simp: join_body_def joining_def missing_def)
next
  case False
  have p: "p \<in> set pods" "p \<in> set pods - set pre - {seed}" using pods False by auto
  have rep: "rk_reports rk (outside w) p = rk_reports rk s0 p" using I p(2) by (simp add: joining_def)
  have status: "case rk_reports rk s0 p of [m] \<Rightarrow> cm_Node m = node p | _ \<Rightarrow> node p \<in> rk_members rk s0"
    using start p(1) False by (auto simp: can_form_def list_all_iff)
  have one: "cm_Node m = node p" if "rk_reports rk s0 p = [m]" for m
    using status that by simp
  have member: "node p \<in> rk_members rk s0" if "\<nexists>m. rk_reports rk s0 p = [m]"
    using status that by (auto split: list.splits)
  have skip: "joining seed node rk s0 pods (pre @ [p]) joined s"
    if "joining seed node rk s0 pods pre joined s" "node p \<in> rk_members rk s0" for s
    using that by (auto simp: joining_def missing_def)
  show ?thesis
    unfolding join_body_def if_not_P[OF False] wp_bind
  proof (rule wp_MemberStatus_law[OF laws p(1)], goal_cases)
    case (1 w')
    with I have I': "joining seed node rk s0 pods pre joined (outside w')"
      and rep': "rk_reports rk (outside w') p = rk_reports rk s0 p"
      and mem': "rk_members rk (outside w') = rk_members rk s0"
      by (auto simp: joining_def same_ring_def rep)
    show ?case
    proof (cases "\<exists>m. rk_reports rk s0 p = [m] \<and> node p \<notin> rk_members rk s0")
      case True
      then obtain m where m: "rk_reports rk s0 p = [m]" "node p \<notin> rk_members rk s0" by blast
      show ?thesis
        unfolding rep m(1) sum.case list.case sc one[OF m(1)] if_not_P[OF m(2)] wp_bind
        by (rule wp_JoinCluster_law[OF laws p(1) False rep'[unfolded m(1)]])
          (use start I' m(2) one[OF m(1)] False in \<open>auto simp: mem' can_form_def joining_def missing_def\<close>)
    next
      case no: False
      then have "node p \<in> rk_members rk s0" using member by blast
      with skip[OF I'] one show ?thesis by (auto simp: rep sc split: list.split)
    qed
  qed
qed


subsection \<open>A run\<close>

lemma scan_seed_node:
  assumes "n \<in> cm_Node ` set ms" and "\<And>k. k \<in> cm_Node ` set ms \<Longrightarrow> is_seed_node seed k \<longleftrightarrow> k = n" and "n \<noteq> []"
  shows "sd_seedNode (scan_seed seed ms) = n"
proof -
  have "sd_seedNode (fold (scan_step seed) ms sc) = (if n \<in> cm_Node ` set ms then n else sd_seedNode sc)"
    if "\<And>k. k \<in> cm_Node ` set ms \<Longrightarrow> is_seed_node seed k \<longleftrightarrow> k = n" for sc
    using that by (induction ms arbitrary: sc) (auto simp: scan_step_def)
  from this[OF assms(2)] assms(1) show ?thesis by (simp add: scan_seed_def)
qed

lemma valid_count:
  assumes "distinct (map cm_Node ms)" and "cm_Node ` set ms = node ` set pods" and "distinct pods" "inj_on node (set pods)"
  shows "length (filter (\<lambda>m. cm_Status m = memberStatusValid) ms) = length pods \<longleftrightarrow>
    (\<forall>m \<in> set ms. cm_Status m = memberStatusValid)"
proof -
  have "length ms = card (cm_Node ` set ms)" using distinct_card[OF assms(1)] by simp
  also have "\<dots> = length pods" unfolding assms(2) card_image[OF assms(4)] by (rule distinct_card[OF assms(3)])
  finally have "length ms = length pods" .
  then show ?thesis using filter_True length_filter_less[of _ ms "\<lambda>m. cm_Status m = memberStatusValid"]
    by (metis (mono_tags, lifting) nat_neq_iff)
qed

lemma wp_plan_and_commit_law:
  assumes "riak_laws env ns seed pods node rk" and "rk_staged rk (outside w) \<noteq> {}"
    and "\<And>w'. rk_staged rk (outside w') = {} \<Longrightarrow>
      rk_members rk (outside w') = rk_members rk (outside w) \<union> rk_staged rk (outside w) \<Longrightarrow> Q (Inr False) w'"
  shows "wp (plan_and_commit env ns seed) Q w"
proof -
  have plan: "accepts (admin env ns seed [''cluster'', ''plan''] (outside w))
      (\<lambda>_ s'. rk_staged rk s' = rk_staged rk (outside w) \<and> rk_members rk s' = rk_members rk (outside w))"
    using assms(1,2) unfolding riak_laws_def by blast
  have commit: "accepts (admin env ns seed [''cluster'', ''commit''] s)
      (\<lambda>_ s'. rk_staged rk s' = {} \<and> rk_members rk s' = rk_members rk s \<union> rk_staged rk s)" if "rk_staged rk s \<noteq> {}" for s
    using assms(1) that unfolding riak_laws_def by blast
  show ?thesis
    unfolding plan_and_commit_def wp_bind
  proof (rule wp_accepts[OF plan], goal_cases)
    case (1 out w1)
    show ?case
      unfolding prod.case option.case wp_bind
      by (rule wp_accepts[OF commit]) (use 1 assms(2,3) in auto)
  qed
qed

text \<open>What the seed reports before the run: its node is found, the ring it lists is the members, and counting the valid ones tells
  whether all of them are.\<close>

lemma seed_view:
  assumes laws: "riak_laws env ns seed (set pods) node rk" and names: "node_names seed pods node" and start: "can_form seed pods node rk s"
  shows "seed \<in> set pods" "rk_staged rk s = {}" "node seed \<noteq> []"
    and "sd_inRing (scan_seed seed (rk_reports rk s seed)) n \<longleftrightarrow> n \<in> rk_members rk s"
    and "sd_seedNode (scan_seed seed (rk_reports rk s seed)) = node seed"
    and "rk_members rk s = node ` set pods \<Longrightarrow> sd_valid (scan_seed seed (rk_reports rk s seed)) = length pods \<longleftrightarrow>
      (\<forall>m \<in> set (rk_reports rk s seed). cm_Status m = memberStatusValid)"
    and "rk_members rk s \<union> node ` set (missing seed node rk s pods) = node ` set pods"
proof -
  have seed: "node seed \<in> rk_members rk s" using start by (simp add: can_form_def)
  show "seed \<in> set pods" and staged: "rk_staged rk s = {}"
    using names start by (auto simp: node_names_def can_form_def)
  have ring: "cm_Node ` set (rk_reports rk s seed) = rk_members rk s" "distinct (map cm_Node (rk_reports rk s seed))"
    using laws seed staged unfolding riak_laws_def by blast+
  have is_seed: "is_seed_node seed k \<longleftrightarrow> k = node seed" if "k \<in> rk_members rk s" for k
    using that start names unfolding can_form_def node_names_def by (auto dest: inj_onD)
  show ne: "node seed \<noteq> []" using is_seed[OF seed] by (auto simp: is_seed_node_def)
  show "sd_inRing (scan_seed seed (rk_reports rk s seed)) n \<longleftrightarrow> n \<in> rk_members rk s"
      "sd_seedNode (scan_seed seed (rk_reports rk s seed)) = node seed"
    using scan_seed_node[of "node seed" "rk_reports rk s seed" seed] is_seed seed ne by (auto simp: scan_seed(1) ring(1))
  show "sd_valid (scan_seed seed (rk_reports rk s seed)) = length pods \<longleftrightarrow>
      (\<forall>m \<in> set (rk_reports rk s seed). cm_Status m = memberStatusValid)" if "rk_members rk s = node ` set pods"
    unfolding scan_seed(2) by (rule valid_count[OF ring(2)]) (use that names ring(1) in \<open>auto simp: node_names_def\<close>)
  show "rk_members rk s \<union> node ` set (missing seed node rk s pods) = node ` set pods"
    using start seed by (auto simp: can_form_def missing_def)
qed

text \<open>The result and the effect of one run.\<close>

lemma wp_ReconcileMembership_law:
  fixes cluster :: RiakCluster
  defines "seed \<equiv> cl_Name cluster @ ''-0''"
  assumes laws: "riak_laws env (cl_Namespace cluster) seed (set pods) node rk" and names: "node_names seed pods node"
    and start: "can_form seed pods node rk (outside w)"
  shows "wp (ReconcileMembership env cluster pods) (\<lambda>r w'.
      r = Inr (rk_members rk (outside w) = node ` set pods \<and>
        (\<forall>m \<in> set (rk_reports rk (outside w) seed). cm_Status m = memberStatusValid)) \<and>
      rk_members rk (outside w') = node ` set pods \<and> rk_staged rk (outside w') = {}) w"
    (is "wp _ ?Q w")
proof -
  let ?s = "outside w" and ?sc = "scan_seed seed (rk_reports rk (outside w) seed)"
  note view = seed_view[OF laws names start]
  have finish: "wp (if joined > 0 then plan_and_commit env (cl_Namespace cluster) seed
      else return (Inr (sd_valid ?sc = length pods))) ?Q w'"
    if I: "joining seed node rk ?s pods pods joined (outside w')" for joined w'
  proof (cases "joined > 0")
    case True
    then have "missing seed node rk ?s pods \<noteq> []" using I by (auto simp: joining_def)
    then have "rk_members rk ?s \<noteq> node ` set pods" by (fastforce simp: missing_def filter_empty_conv)
    then show ?thesis
      unfolding if_P[OF True] by (intro wp_plan_and_commit_law[OF laws]) (use True I view(7) in \<open>auto simp: joining_def\<close>)
  next
    case False
    then have "missing seed node rk ?s pods = []" using I by (simp add: joining_def)
    with I view(6,7) False show ?thesis by (auto simp: joining_def)
  qed
  show ?thesis
    unfolding ReconcileMembership_def Let_def wp_bind seed_def[symmetric]
  proof (rule wp_MemberStatus_law[OF laws view(1)], goal_cases)
    case (1 w1)
    have found: "sd_seedNode ?sc \<noteq> []" using view(3,5) by simp
    show ?case
      unfolding sum.case if_not_P[OF found] wp_bind
    proof (intro wp_for_each_prefix_post[where I = "\<lambda>pre j w'. joining seed node rk ?s pods pre j (outside w')"], goal_cases)
      case 1
      from \<open>same_ring rk ?s (outside w1)\<close> show ?case using view(2) by (simp add: joining_def missing_def same_ring_def)
    next
      case (2 pre p post j w2)
      show ?case
        by (rule wp_mono, rule wp_join_body_law[OF laws start 2(1) _ view(4,5) 2(2)])
          (use names in \<open>auto simp: node_names_def split: sum.splits\<close>)
    next
      case (3 j w2)
      then show ?case unfolding sum.case by (rule finish)
    qed
  qed
qed

text \<open>
  C18: ring formation converges. Take nodes that obey Riak's documented behaviour, a seed that is a member of its own
  cluster, no strangers in it, and pods each of which is a member already or runs alone. A run of
  \<open>ReconcileMembership\<close> ends without an error and leaves exactly the pods' nodes as members, with nothing staged; it answers "formed"
  only when they were members, all valid, before it. From any later state with those members, all valid, the next run
  answers "formed", and changes nothing.
\<close>

theorem ReconcileMembership_converges:
  assumes "riak_laws env (cl_Namespace cluster) (cl_Name cluster @ ''-0'') (set pods) node rk"
    and "node_names (cl_Name cluster @ ''-0'') pods node"
    and "can_form (cl_Name cluster @ ''-0'') pods node rk (outside w)"
    and "run_state (ReconcileMembership env cluster pods) w = (r, w1)"
    and "can_form (cl_Name cluster @ ''-0'') pods node rk (outside w2)"
    and "rk_members rk (outside w2) = rk_members rk (outside w1)"
    and "list_all (\<lambda>m. cm_Status m = memberStatusValid) (rk_reports rk (outside w2) (cl_Name cluster @ ''-0''))"
    and "run_state (ReconcileMembership env cluster pods) w2 = (r', w3)"
  shows "rk_members rk (outside w1) = node ` set pods \<and> rk_staged rk (outside w1) = {} \<and>
    r = Inr (rk_members rk (outside w) = node ` set pods \<and>
      list_all (\<lambda>m. cm_Status m = memberStatusValid) (rk_reports rk (outside w) (cl_Name cluster @ ''-0''))) \<and>
    r' = Inr True \<and> rk_members rk (outside w3) = rk_members rk (outside w1) \<and> rk_staged rk (outside w3) = {}"
  using wp_run[OF assms(4) wp_ReconcileMembership_law[OF assms(1-3)]]
    wp_run[OF assms(8) wp_ReconcileMembership_law[OF assms(1,2,5)]] assms(6,7)
  by (simp add: list_all_iff)

subsection \<open>A simulated Riak\<close>

text \<open>Three nodes; the state is the members of the cluster and the staged nodes.\<close>

definition sim_pods :: "string list" where "sim_pods = [''c-0'', ''c-1'', ''c-2'']"

definition sim_node :: "string \<Rightarrow> string" where "sim_node p = ''riak@'' @ p @ ''.c''"

type_synonym sim = "string list \<times> string list"

definition sim_known :: "string list \<Rightarrow> string list" where
  "sim_known ns = filter (\<lambda>n. n \<in> set ns) (map sim_node sim_pods)"

definition sim_reports :: "sim \<Rightarrow> string \<Rightarrow> ClusterMember list" where
  "sim_reports s p = (if sim_node p \<in> set (fst s) then map member (sim_known (fst s)) else [member (sim_node p)])"

definition sim_riak :: "sim riak" where
  "sim_riak = \<lparr>rk_reports = sim_reports, rk_staged = (\<lambda>s. set (sim_known (snd s))), rk_members = (\<lambda>s. set (sim_known (fst s)))\<rparr>"

definition sim_admin :: "string \<Rightarrow> string list \<Rightarrow> sim \<Rightarrow> string \<times> sim" where
  "sim_admin pod args s =
     (if args = [''member-status''] then (Join (map (member_row ''33.3%'' ''--'') (sim_reports s pod)) [NL], s)
      else if take 2 args = [''cluster'', ''join''] then (''ok'', (fst s, snd s @ [sim_node pod]))
      else if args = [''cluster'', ''commit''] then (''ok'', (fst s @ snd s, []))
      else (''ok'', s))"

definition sim_env :: "sim env" where
  "sim_env = sample_env\<lparr>run_kubectl := (\<lambda>args s. case sim_admin (args ! 3) (drop 11 args) s of (out, s') \<Rightarrow> (Inr out, s'))\<rparr>"


lemma sim_output:
  assumes "subseq l (map sim_node sim_pods)"
  shows "parseMemberStatus (Join (map (member_row ''33.3%'' ''--'') (map member l)) [NL]) = map member l \<and>
    \<not> riakAdminFailed (Join (map (member_row ''33.3%'' ''--'') (map member l)) [NL])"
proof -
  have "list_all (\<lambda>l. parseMemberStatus (Join (map (member_row ''33.3%'' ''--'') (map member l)) [NL]) = map member l \<and>
      \<not> riakAdminFailed (Join (map (member_row ''33.3%'' ''--'') (map member l)) [NL])) (subseqs (map sim_node sim_pods))"
    by code_simp
  with assms show ?thesis by (simp add: list_all_iff set_subseqs_eq)
qed

lemma sim_reports_parse:
  assumes "p \<in> set sim_pods"
  shows "parseMemberStatus (Join (map (member_row ''33.3%'' ''--'') (sim_reports s p)) [NL]) = sim_reports s p"
    "\<not> riakAdminFailed (Join (map (member_row ''33.3%'' ''--'') (sim_reports s p)) [NL])"
proof -
  have "subseq [sim_node p] (map sim_node sim_pods)" using assms by (simp add: subseq_singleton_left)
  then show "parseMemberStatus (Join (map (member_row ''33.3%'' ''--'') (sim_reports s p)) [NL]) = sim_reports s p"
    "\<not> riakAdminFailed (Join (map (member_row ''33.3%'' ''--'') (sim_reports s p)) [NL])"
    using sim_output[of "[sim_node p]"] sim_output[of "sim_known (fst s)"]
    by (simp_all add: sim_reports_def sim_known_def subseq_filter_left)
qed

lemma sim_ok: "\<not> riakAdminFailed ''ok''" by code_simp

lemma admin_sim: "admin sim_env ns pod args s = (case sim_admin pod args s of (out, s') \<Rightarrow> (Inr out, s'))"
  by (simp add: admin_def sim_env_def execBase_def)

lemma sim_nodes: "distinct (map sim_node sim_pods)" by code_simp

lemma sim_known_set: "set (sim_known ns) = set ns \<inter> sim_node ` set sim_pods"
  by (auto simp: sim_known_def)

lemma sim_laws: "riak_laws sim_env ns ''c-0'' (set sim_pods) sim_node sim_riak"
  unfolding riak_laws_def accepts_def admin_sim
proof (intro conjI ballI allI impI, goal_cases)
  case (1 p s)
  then show ?case by (simp add: sim_admin_def sim_reports_parse sim_riak_def same_ring_def)
next
  case (2 s)
  then show ?case by (auto simp: sim_riak_def sim_reports_def sim_known_set member_def image_iff)
next
  case (3 s)
  have "map cm_Node (map member ns) = ns" for ns by (induction ns) (simp_all add: member_def)
  with sim_nodes show ?case by (simp add: sim_riak_def sim_reports_def sim_known_def)
next
  case (4 p s m)
  have "sim_node p \<in> set (sim_known (fst s))" if "sim_node p \<in> set (fst s)" using 4(1) that by (simp add: sim_known_set)
  then have "cm_Node m = sim_node p"
    using 4(2) by (auto simp: sim_riak_def sim_reports_def member_def split: if_splits)
  then show ?case using 4(1)
    by (auto simp: sim_admin_def sim_ok sim_riak_def sim_known_set sim_reports_def)
next
  case (5 s)
  then show ?case by (simp add: sim_admin_def sim_ok)
next
  case (6 s)
  then show ?case by (auto simp: sim_admin_def sim_ok sim_riak_def sim_known_set)
qed

lemma sim_names: "node_names ''c-0'' sim_pods sim_node"
  unfolding node_names_def inj_on_def sim_pods_def by code_simp

theorem ReconcileMembership_converges_witness:
  "let m = ReconcileMembership sim_env (sample_cluster 3) sim_pods;
       (r, w1) = run_state m (start ([sim_node ''c-0''], []));
       (r', w2) = run_state m (start (outside w1))
   in r = Inr False \<and> rk_members sim_riak (outside w1) = sim_node ` set sim_pods \<and> r' = Inr True"
proof -
  let ?m = "ReconcileMembership sim_env (sample_cluster 3) sim_pods"
  obtain r w1 where run: "run_state ?m (start ([sim_node ''c-0''], [])) = (r, w1)" by fastforce
  obtain r' w2 where run': "run_state ?m (start (outside w1)) = (r', w2)" by fastforce
  have c: "cl_Name (sample_cluster 3) @ ''-0'' = ''c-0''" by code_simp
  have "fst (run_state ?m (start ([sim_node ''c-0''], []))) = Inr False \<and>
      outside (snd (run_state ?m (start ([sim_node ''c-0''], [])))) = (map sim_node sim_pods, [])"
    by code_simp
  then have w1: "r = Inr False" "outside w1 = (map sim_node sim_pods, [])" by (simp_all add: run)
  have start: "can_form ''c-0'' sim_pods sim_node sim_riak ([sim_node ''c-0''], [])"
    "can_form ''c-0'' sim_pods sim_node sim_riak (map sim_node sim_pods, [])" by code_simp+
  have valid: "list_all (\<lambda>m. cm_Status m = memberStatusValid) (rk_reports sim_riak (map sim_node sim_pods, []) ''c-0'')" by code_simp
  have "rk_members sim_riak (outside w1) = sim_node ` set sim_pods \<and> r' = Inr True"
    using ReconcileMembership_converges[where env = sim_env and cluster = "sample_cluster 3" and rk = sim_riak, unfolded c,
        OF sim_laws sim_names _ run _ _ _ run'] start valid by (simp add: w1)
  with w1(1) show ?thesis by (simp add: Let_def run run')
qed

end
