(* ===== verification/Cluster_Liveness.thy ===== *)
theory Cluster_Liveness
  imports Cluster_Controller Ring_Formation
begin

text \<open>
  A cluster becomes ready: the status update of the cluster controller composed with the formation of the ring. The API server and Riak are
  apart, so reading and writing objects leaves the ring as it is; with all pods ready, the first status update forms
  the ring and the next one, once the ring has settled, reports the cluster \<^verbatim>\<open>Ready\<close>.
\<close>

named_theorems keeps_rules \<open>actions that keep a relation of the outside\<close>

subsection \<open>Actions that leave something outside as it is\<close>

definition keeps :: "('w \<Rightarrow> 'w \<Rightarrow> bool) \<Rightarrow> ('w, 'a) action \<Rightarrow> bool" where
  "keeps R m \<longleftrightarrow> (\<forall>w. R (outside w) (outside (snd (run_state m w))))"

lemma wp_keeps: "keeps R m \<Longrightarrow> wp m Q w \<Longrightarrow> wp m (\<lambda>a w'. Q a w' \<and> R (outside w) (outside w')) w"
  by (auto simp: keeps_def wp_def split: prod.splits) (metis snd_conv)

locale kept_relation =
  fixes R :: "'w \<Rightarrow> 'w \<Rightarrow> bool"
  assumes R_refl: "R s s"
    and R_trans: "R s t \<Longrightarrow> R t u \<Longrightarrow> R s u"
begin

lemma keeps_return: "keeps R (return a)"
  by (simp add: keeps_def R_refl)

lemma keeps_effect: "(\<And>s. R s (snd (f s))) \<Longrightarrow> keeps R (effect e f)"
  by (simp add: keeps_def effect_def split: prod.split) (metis snd_conv)

lemma keeps_Now: "(\<And>s. R s (snd (time_now env s))) \<Longrightarrow> keeps R (Now env)"
  by (simp add: keeps_def Now_def split: prod.split) (metis snd_conv)

lemma keeps_bind: "keeps R m \<Longrightarrow> (\<And>a. keeps R (f a)) \<Longrightarrow> keeps R (State_Monad.bind m f)"
  unfolding keeps_def by (auto split: prod.split) (metis R_trans snd_conv)

lemma keeps_if: "keeps R m \<Longrightarrow> keeps R n \<Longrightarrow> keeps R (if b then m else n)"
  by simp

lemma keeps_case_sum: "(\<And>a. keeps R (f a)) \<Longrightarrow> (\<And>b. keeps R (g b)) \<Longrightarrow> keeps R (case x of Inl a \<Rightarrow> f a | Inr b \<Rightarrow> g b)"
  by (simp split: sum.split)

lemma keeps_case_option: "keeps R f \<Longrightarrow> (\<And>b. keeps R (g b)) \<Longrightarrow> keeps R (case x of None \<Rightarrow> f | Some b \<Rightarrow> g b)"
  by (simp split: option.split)

lemma keeps_case_prod: "(\<And>a b. keeps R (f a b)) \<Longrightarrow> keeps R (case x of (a, b) \<Rightarrow> f a b)"
  by (simp split: prod.split)

lemma keeps_Let: "keeps R (f x) \<Longrightarrow> keeps R (Let x f)"
  by simp

lemma keeps_for_each: "(\<And>x v. keeps R (body x v)) \<Longrightarrow> keeps R (for_each body xs v)"
  by (induction xs arbitrary: v) (auto intro!: keeps_return keeps_bind keeps_case_sum)

end

lemma same_ring_refl: "same_ring rk s s" by (simp add: same_ring_def)

lemma same_ring_trans: "same_ring rk s t \<Longrightarrow> same_ring rk t u \<Longrightarrow> same_ring rk s u" by (simp add: same_ring_def)

interpretation ring: kept_relation "same_ring rk" for rk
  by unfold_locales (rule same_ring_refl, erule (1) same_ring_trans)

lemmas keeps_ring [keeps_rules] = ring.keeps_return ring.keeps_effect ring.keeps_Now ring.keeps_bind ring.keeps_if
  ring.keeps_case_sum ring.keeps_case_option ring.keeps_case_prod ring.keeps_Let ring.keeps_for_each

subsection \<open>The API server and Riak are apart\<close>

definition api_apart :: "'w env \<Rightarrow> 'w riak \<Rightarrow> bool" where
  "api_apart env rk \<longleftrightarrow>
     (\<forall>s. same_ring rk s (snd (time_now env s))) \<and>
     (\<forall>ns l s. same_ring rk s (snd (list_pods env ns l s))) \<and>
     (\<forall>ns n s. same_ring rk s (snd (get_pvc env ns n s))) \<and>
     (\<forall>ns s. same_ring rk s (snd (list_buckets env ns s))) \<and>
     (\<forall>ns s. same_ring rk s (snd (list_users env ns s))) \<and>
     (\<forall>ns n s. same_ring rk s (snd (get_secret env ns n s))) \<and>
     (\<forall>ns n s. same_ring rk s (snd (get_configmap env ns n s))) \<and>
     (\<forall>ns n s. same_ring rk s (snd (get_cert env ns n s))) \<and>
     (\<forall>k ns n s. same_ring rk s (snd (get_monitor env k ns n s))) \<and>
     (\<forall>c s. same_ring rk s (snd (status_cluster env c s)))"

lemma api_apart_lists:
  assumes "api_apart env rk"
  shows "same_ring rk s (snd (list_pods env ns l s))" "same_ring rk s (snd (list_buckets env ns s))"
    "same_ring rk s (snd (list_users env ns s))"
  using assms by (simp_all add: api_apart_def)

lemma keeps_setCondition:
  assumes "api_apart env rk" shows "keeps (same_ring rk) (setCondition env cs t ok gen r m)"
  unfolding setCondition_def by (intro keeps_rules) (use assms in \<open>simp add: api_apart_def\<close>)

lemma keeps_setClusterCondition:
  assumes "api_apart env rk" shows "keeps (same_ring rk) (setClusterCondition env c t ok r m)"
  unfolding setClusterCondition_def by (intro keeps_rules keeps_setCondition assms)

lemma keeps_node_body:
  assumes "api_apart env rk" shows "keeps (same_ring rk) (node_body env cluster pod vars)"
  unfolding node_body_def nodeStorageReady_def
  by (intro keeps_rules keeps_setCondition assms) (use assms in \<open>simp add: api_apart_def\<close>)

lemma keeps_trustStatus:
  assumes "api_apart env rk" shows "keeps (same_ring rk) (trustStatus env cluster)"
  unfolding trustStatus_def buildTrustBundle_def ca_body_def readTrustedCA_def
  by (intro keeps_rules) (use assms in \<open>simp_all add: api_apart_def\<close>)

lemma keeps_writeClusterStatus:
  assumes "api_apart env rk" shows "keeps (same_ring rk) (writeClusterStatus env cluster pods vars bs us ar formed)"
  unfolding writeClusterStatus_def tlsStatus_def fetchCertificateReadiness_def monitoringStatus_def
  by (intro keeps_rules keeps_setClusterCondition keeps_trustStatus assms) (use assms in \<open>simp_all add: api_apart_def\<close>)


subsection \<open>One status update\<close>

lemma same_ring_can_form: "same_ring rk s s' \<Longrightarrow> can_form seed pods node rk s' = can_form seed pods node rk s"
  unfolding same_ring_def can_form_def by (elim conjE) (simp only:)

text \<open>The ring that a status update finds formed.\<close>

definition ring_ready :: "string \<Rightarrow> string list \<Rightarrow> (string \<Rightarrow> string) \<Rightarrow> 'w riak \<Rightarrow> 'w \<Rightarrow> bool" where
  "ring_ready seed pods node rk s \<longleftrightarrow> rk_members rk s = node ` set pods \<and>
     list_all (\<lambda>m. cm_Status m = memberStatusValid) (rk_reports rk s seed)"

text \<open>The pods that are listed, all of them ready, and the nodes behind them.\<close>

definition all_pods_up :: "'w env \<Rightarrow> RiakCluster \<Rightarrow> Pod list \<Rightarrow> bool" where
  "all_pods_up env cluster items \<longleftrightarrow>
     (\<forall>s. fst (list_pods env (cl_Namespace cluster) [(''cluster'', cl_Name cluster)] s) = Inr items) \<and>
     (\<forall>s. \<exists>bs. fst (list_buckets env (cl_Namespace cluster) s) = Inr bs) \<and>
     (\<forall>s. \<exists>us. fst (list_users env (cl_Namespace cluster) s) = Inr us) \<and>
     list_all podIsReady items \<and> int (length items) = cls_Size (cl_Spec cluster) \<and> is_i32 (cls_Size (cl_Spec cluster))"

lemma all_ready_count:
  assumes "all_pods_up env cluster items"
  shows "ready_count (sort_key p_Name items) = cls_Size (cl_Spec cluster)"
proof -
  have "filter podIsReady (sort_key p_Name items) = sort_key p_Name items"
    using assms by (intro filter_True) (simp add: all_pods_up_def list_all_iff)
  then show ?thesis using assms by (simp add: ready_count_def all_pods_up_def i32_id)
qed

lemma wp_formRing_law:
  fixes cluster :: RiakCluster
  defines "seed \<equiv> cl_Name cluster @ ''-0''"
  assumes laws: "riak_laws env (cl_Namespace cluster) seed (set (map p_Name pods)) node rk"
    and names: "node_names seed (map p_Name pods) node" and start: "can_form seed (map p_Name pods) node rk (outside w)"
    and size: "int (length pods) = cls_Size (cl_Spec cluster)"
  shows "wp (formRing env cluster True pods) (\<lambda>formed w'.
      formed = (cls_Size (cl_Spec cluster) \<le> 1 \<or> ring_ready seed (map p_Name pods) node rk (outside w)) \<and>
      rk_members rk (outside w') = node ` set (map p_Name pods) \<and> rk_staged rk (outside w') = {}) w"
proof (cases "cls_Size (cl_Spec cluster) > 1")
  case True
  then have "formRing env cluster True pods = do {
      r \<leftarrow> ReconcileMembership env cluster (map p_Name pods);
      return (case r of Inl _ \<Rightarrow> False | Inr formed \<Rightarrow> formed)
    }" by (simp add: formRing_def)
  then show ?thesis
    using wp_ReconcileMembership_law[OF laws[unfolded seed_def] names[unfolded seed_def] start[unfolded seed_def]] True
    by (simp only: wp_bind) (elim wp_mono, auto simp: ring_ready_def list_all_iff seed_def)
next
  case False
  then have "length pods \<le> 1" using size by simp
  moreover have "seed \<in> set (map p_Name pods)" using names by (simp add: node_names_def)
  ultimately have "map p_Name pods = [seed]" by (cases pods) auto
  with False start show ?thesis by (auto simp: formRing_def can_form_def)
qed

text \<open>What a status update leaves behind: the status written, and the ring.\<close>

definition status_outcome :: "RiakCluster \<Rightarrow> Pod list \<Rightarrow> (string \<Rightarrow> string) \<Rightarrow> 'w riak \<Rightarrow> 'w world \<Rightarrow> 'w world \<Rightarrow> bool" where
  "status_outcome cluster pods node rk w w' \<longleftrightarrow>
     (\<exists>es c. trace w' = trace w @ es @ [ClusterStatus c] \<and> status_reflects cluster pods
        (cls_Size (cl_Spec cluster) \<le> 1 \<or> ring_ready (cl_Name cluster @ ''-0'') (map p_Name pods) node rk (outside w)) c) \<and>
     rk_members rk (outside w') = node ` set (map p_Name pods) \<and> rk_staged rk (outside w') = {}"

lemma wp_form_and_write_law:
  fixes cluster :: RiakCluster
  defines "seed \<equiv> cl_Name cluster @ ''-0''"
  assumes up: "all_pods_up env cluster items" and apart: "api_apart env rk"
    and laws: "riak_laws env (cl_Namespace cluster) seed (set (map p_Name pods)) node rk"
    and names: "node_names seed (map p_Name pods) node" and start: "can_form seed (map p_Name pods) node rk (outside w)"
    and pods: "pods = sort_key p_Name items"
    and w1: "same_ring rk (outside w) (outside w1)" "trace w1 = trace w @ es" and vars: "nodes_of pods vars"
  shows "wp (formRing env cluster (fst vars = cls_Size (cl_Spec cluster)) pods) (\<lambda>formed.
    wp (writeClusterStatus env cluster pods vars bs us (fst vars = cls_Size (cl_Spec cluster)) formed)
      (\<lambda>_. status_outcome cluster pods node rk w)) w1"
proof -
  have size: "int (length pods) = cls_Size (cl_Spec cluster)" using up by (simp add: all_pods_up_def pods)
  have all: "fst vars = cls_Size (cl_Spec cluster)"
    using vars all_ready_count[OF up] by (auto simp: nodes_of_def pods)
  have ready: "ring_ready seed (map p_Name pods) node rk (outside w1) = ring_ready seed (map p_Name pods) node rk (outside w)"
    using w1(1) by (simp add: ring_ready_def same_ring_def)
  have "wp (formRing env cluster True pods) (\<lambda>formed w'.
      (formed = (cls_Size (cl_Spec cluster) \<le> 1 \<or> ring_ready seed (map p_Name pods) node rk (outside w1)) \<and>
      rk_members rk (outside w') = node ` set (map p_Name pods) \<and> rk_staged rk (outside w') = {}) \<and>
      (\<exists>es. trace w' = trace w @ es)) w1"
  proof (rule wp_conj[THEN iffD2, OF conjI])
    show "wp (formRing env cluster True pods) (\<lambda>formed w'.
        formed = (cls_Size (cl_Spec cluster) \<le> 1 \<or> ring_ready seed (map p_Name pods) node rk (outside w1)) \<and>
        rk_members rk (outside w') = node ` set (map p_Name pods) \<and> rk_staged rk (outside w') = {}) w1"
      unfolding seed_def
      by (rule wp_formRing_law[OF laws[unfolded seed_def] names[unfolded seed_def] _ size])
        (use start same_ring_can_form[OF w1(1)] in \<open>simp add: seed_def\<close>)
    show "wp (formRing env cluster True pods) (\<lambda>_ w'. \<exists>es. trace w' = trace w @ es) w1"
      by (rule wp_formRing) (simp add: w1(2))
  qed
  then show ?thesis
    unfolding all eqTrueI[OF refl]
  proof (rule wp_mono, goal_cases)
    case w2: (1 formed w2)
    have "wp (writeClusterStatus env cluster pods vars bs us True formed) (\<lambda>_ w'.
        (\<exists>es c. trace w' = trace w2 @ es @ [ClusterStatus c] \<and> status_reflects cluster pods formed c) \<and>
        same_ring rk (outside w2) (outside w')) w2"
      using wp_writeClusterStatus[OF vars, of w2 cluster formed] keeps_writeClusterStatus[OF apart] all
      by (intro wp_keeps) (auto intro: wp_writeClusterStatus)
    then show ?case
      by (rule wp_mono) (use w2 ready in \<open>auto simp: same_ring_def status_outcome_def seed_def\<close>)
  qed
qed

lemma wp_list_and_write_law:
  fixes cluster :: RiakCluster
  defines "seed \<equiv> cl_Name cluster @ ''-0''"
  assumes up: "all_pods_up env cluster items" and apart: "api_apart env rk"
    and laws: "riak_laws env (cl_Namespace cluster) seed (set (map p_Name pods)) node rk"
    and names: "node_names seed (map p_Name pods) node" and start: "can_form seed (map p_Name pods) node rk (outside w)"
    and pods: "pods = sort_key p_Name items"
    and w1: "same_ring rk (outside w) (outside w1)" "trace w1 = trace w @ es" and vars: "nodes_of pods vars"
  shows "wp (State_Monad.bind (bucketRefs env cluster) (\<lambda>b. case b of
        Inl e \<Rightarrow> return (cluster, Some e)
      | Inr buckets \<Rightarrow> State_Monad.bind (userRefs env cluster) (\<lambda>u. case u of
          Inl e \<Rightarrow> return (cluster, Some e)
        | Inr users \<Rightarrow> State_Monad.bind (formRing env cluster (fst vars = cls_Size (cl_Spec cluster)) pods)
            (writeClusterStatus env cluster pods vars buckets users (fst vars = cls_Size (cl_Spec cluster))))))
    (\<lambda>_. status_outcome cluster pods node rk w) w1"
proof -
  have "\<exists>bs. fst (list_buckets env (cl_Namespace cluster) s) = Inr bs" "\<exists>us. fst (list_users env (cl_Namespace cluster) s) = Inr us" for s
    using up unfolding all_pods_up_def by blast+
  then obtain bs o2 us o3 where b: "list_buckets env (cl_Namespace cluster) (outside w1) = (Inr bs, o2)"
      and u: "list_users env (cl_Namespace cluster) o2 = (Inr us, o3)"
    by (metis prod.collapse)
  have "same_ring rk (outside w1) (snd (list_buckets env (cl_Namespace cluster) (outside w1)))"
      "same_ring rk o2 (snd (list_users env (cl_Namespace cluster) o2))"
    by (rule api_apart_lists[OF apart])+
  note step = this[unfolded b u snd_conv]
  have "same_ring rk (outside w) o3" by (rule same_ring_trans[OF same_ring_trans[OF w1(1) step(1)] step(2)])
  from wp_form_and_write_law[OF up apart laws[unfolded seed_def] names[unfolded seed_def] start[unfolded seed_def] pods _ _ vars, of "w1\<lparr>outside := o3, trace := (trace w1 @ [ListKind KBucket (cl_Namespace cluster)]) @
      [ListKind KUser (cl_Namespace cluster)]\<rparr>"] this w1(2)
  show ?thesis by (simp add: bucketRefs_def userRefs_def wp_effect b u)
qed

lemma wp_status_law:
  fixes cluster :: RiakCluster
  defines "seed \<equiv> cl_Name cluster @ ''-0''"
  assumes up: "all_pods_up env cluster items" and apart: "api_apart env rk"
    and laws: "riak_laws env (cl_Namespace cluster) seed (set (map p_Name pods)) node rk"
    and names: "node_names seed (map p_Name pods) node" and start: "can_form seed (map p_Name pods) node rk (outside w)"
    and pods: "pods = sort_key p_Name items"
  shows "wp (updateClusterStatus env cluster) (\<lambda>_. status_outcome cluster pods node rk w) w"
proof -
  have "fst (list_pods env (cl_Namespace cluster) [(''cluster'', cl_Name cluster)] (outside w)) = Inr items"
    using up unfolding all_pods_up_def by blast
  then obtain o1 where l: "list_pods env (cl_Namespace cluster) [(''cluster'', cl_Name cluster)] (outside w) = (Inr items, o1)"
    by (metis prod.collapse)
  have o1: "same_ring rk (outside w) o1" using api_apart_lists(1)[OF apart] by (metis l snd_conv)
  let ?w1 = "w\<lparr>outside := o1, trace := trace w @ [ListPods (cl_Namespace cluster) [(''cluster'', cl_Name cluster)] (Inr items)]\<rparr>"
  have nodes: "wp (for_each (node_body env cluster) pods (0, [], [])) (\<lambda>r w'.
      (\<exists>vars es. r = Inr vars \<and> nodes_of pods vars \<and> trace w' = trace w @ es) \<and> same_ring rk (outside ?w1) (outside w')) ?w1"
    by (intro wp_keeps ring.keeps_for_each keeps_node_body[OF apart] wp_nodes) auto
  show ?thesis
    unfolding updateClusterStatus_def Let_def wp_bind wp_effect l prod.case sum.case pods[symmetric]
  proof (rule wp_mono[OF nodes], goal_cases)
    case (1 n w2)
    then obtain vars es where v: "n = Inr vars" "nodes_of pods vars" "trace w2 = trace w @ es" and "same_ring rk o1 (outside w2)"
      by auto
    from same_ring_trans[OF o1 this(4)] v(3,2) show ?case
      unfolding v(1) sum.case
      by (rule wp_list_and_write_law[OF up apart laws[unfolded seed_def] names[unfolded seed_def] start[unfolded seed_def] pods])
  qed
qed


subsection \<open>Two status updates make a cluster ready\<close>

text \<open>
  C5: a cluster becomes ready. Let all of its pods be listed and ready, as many as \<^verbatim>\<open>spec.size\<close>, the nodes obey Riak's
  documented behaviour, the API server not touch the ring, and every pod be a member of the seed's ring already or run
  alone. The first status update leaves exactly the pods' nodes as members of the ring. The first one after the ring has settled
  (the same members, all valid) writes the status \<^verbatim>\<open>Ready\<close> with all nodes ready and one member for each pod.
\<close>

theorem Cluster_becomes_ready:
  assumes up: "all_pods_up env cluster items" and apart: "api_apart env rk"
    and laws: "riak_laws env (cl_Namespace cluster) (cl_Name cluster @ ''-0'') (set (map p_Name pods)) node rk"
    and names: "node_names (cl_Name cluster @ ''-0'') (map p_Name pods) node"
    and start: "can_form (cl_Name cluster @ ''-0'') (map p_Name pods) node rk (outside w)"
    and pods: "pods = sort_key p_Name items"
    and run: "run_state (updateClusterStatus env cluster) w = (r, w1)"
    and later: "cl_Spec cluster' = cl_Spec cluster" "cl_Namespace cluster' = cl_Namespace cluster" "cl_Name cluster' = cl_Name cluster"
    and settled: "can_form (cl_Name cluster @ ''-0'') (map p_Name pods) node rk (outside w2)"
      "rk_members rk (outside w2) = rk_members rk (outside w1)"
      "list_all (\<lambda>m. cm_Status m = memberStatusValid) (rk_reports rk (outside w2) (cl_Name cluster @ ''-0''))"
  shows "rk_members rk (outside w1) = node ` set (map p_Name pods) \<and>
    (\<exists>es c. emitted (updateClusterStatus env cluster') w2 = es @ [ClusterStatus c] \<and>
       clt_Phase (cl_Status c) = PhaseReady \<and> clt_ReadyNodes (cl_Status c) = cls_Size (cl_Spec cluster) \<and>
       map nm_Pod (clt_Members (cl_Status c)) = map p_Name pods)"
proof -
  have m: "rk_members rk (outside w1) = node ` set (map p_Name pods)"
    using wp_run[OF run wp_status_law[OF up apart laws names start pods]] by (simp add: status_outcome_def)
  with settled have ready: "ring_ready (cl_Name cluster @ ''-0'') (map p_Name pods) node rk (outside w2)"
    by (simp add: ring_ready_def)
  have up': "all_pods_up env cluster' items" using up by (simp add: all_pods_up_def later)
  obtain r' w3 where run': "run_state (updateClusterStatus env cluster') w2 = (r', w3)" by fastforce
  have "status_outcome cluster' pods node rk w2 w3"
    using wp_run[OF run' wp_status_law[OF up' apart _ _ _ pods]] laws names settled(1) by (simp add: later)
  then obtain es c where w3: "trace w3 = trace w2 @ es @ [ClusterStatus c]" and c: "status_reflects cluster' pods True c"
    using ready by (auto simp: status_outcome_def later)
  have "emitted (updateClusterStatus env cluster') w2 = es @ [ClusterStatus c]" by (simp add: emitted_def run' w3)
  moreover have "map nm_Pod (clt_Members (cl_Status c)) = map p_Name pods"
    using c by (auto simp: status_reflects_def member_of_def list_all2_conv_all_nth intro!: nth_equalityI)
  moreover have "ready_count pods = cls_Size (cl_Spec cluster)" unfolding pods by (rule all_ready_count[OF up])
  ultimately show ?thesis using m c by (auto simp: status_reflects_def later)
qed

definition three_pods :: "Pod list" where "three_pods = map (\<lambda>n. sample_pod n ''r'') sim_pods"

definition three_env :: "sim env" where
  "three_env = sim_env\<lparr>list_pods := (\<lambda>ns l s. (Inr three_pods, s))\<rparr>"

lemma three_facts: "sort_key p_Name three_pods = three_pods" "map p_Name three_pods = sim_pods"
    "list_all podIsReady three_pods" "int (length three_pods) = cls_Size (cl_Spec (sample_cluster 3))"
    "is_i32 (cls_Size (cl_Spec (sample_cluster 3)))" "cl_Name (sample_cluster 3) @ ''-0'' = ''c-0''"
  by code_simp+

theorem Cluster_becomes_ready_witness:
  "\<exists>w1 es c. snd (run_state (updateClusterStatus three_env (sample_cluster 3)) (start ([sim_node ''c-0''], []))) = w1 \<and>
     rk_members sim_riak (outside w1) = sim_node ` set sim_pods \<and>
     emitted (updateClusterStatus three_env (sample_cluster 3)) (start (map sim_node sim_pods, [])) = es @ [ClusterStatus c] \<and>
     clt_Phase (cl_Status c) = PhaseReady \<and> clt_ReadyNodes (cl_Status c) = 3"
proof -
  obtain r w1 where run: "run_state (updateClusterStatus three_env (sample_cluster 3)) (start ([sim_node ''c-0''], [])) = (r, w1)"
    by fastforce
  have up: "all_pods_up three_env (sample_cluster 3) three_pods"
    using three_facts(3-5) by (simp add: all_pods_up_def three_env_def sim_env_def sample_env_def)
  have apart: "api_apart three_env sim_riak"
    by (simp add: api_apart_def three_env_def sim_env_def sample_env_def same_ring_refl)
  have laws: "riak_laws three_env (cl_Namespace (sample_cluster 3)) ''c-0'' (set sim_pods) sim_node sim_riak"
    using sim_laws by (simp add: riak_laws_def admin_def three_env_def)
  have start: "can_form ''c-0'' sim_pods sim_node sim_riak ([sim_node ''c-0''], [])"
    "can_form ''c-0'' sim_pods sim_node sim_riak (map sim_node sim_pods, [])"
    "list_all (\<lambda>m. cm_Status m = memberStatusValid) (rk_reports sim_riak (map sim_node sim_pods, []) ''c-0'')" by code_simp+
  have members: "rk_members sim_riak (map sim_node sim_pods, []) = sim_node ` set sim_pods" by (simp add: sim_riak_def sim_known_set)
  have "rk_members sim_riak (outside w1) = sim_node ` set sim_pods"
    using wp_run[OF run wp_status_law[OF up apart _ _ _ three_facts(1)[symmetric]]] laws sim_names start
    by (simp add: three_facts status_outcome_def)
  with Cluster_becomes_ready[OF up apart _ _ _ three_facts(1)[symmetric] run refl refl refl, where node = sim_node and ?w2.0 = "start (map sim_node sim_pods, [])"]
    laws sim_names start members run
  show ?thesis by (simp add: three_facts) (auto simp: sample_cluster_def sample_spec_def)
qed

end
