(* ===== verification/User_Liveness.thy ===== *)
theory User_Liveness
  imports User_Controller
begin

text \<open>
  A user becomes ready: the counterpart of the safety of the user controller. When the cluster is ready, \<^verbatim>\<open>riak-admin\<close> accepts the
  commands and the grants name valid targets, one reconcile of an initialised user provisions it and reports
  it \<^verbatim>\<open>Ready\<close>.
\<close>

subsection \<open>Nodes that accept every command\<close>

definition grown :: "'w world \<Rightarrow> 'w world \<Rightarrow> bool" where
  "grown w w' \<longleftrightarrow> (\<exists>es. trace w' = trace w @ es)"

lemma grown_refl [simp]: "grown w w" by (simp add: grown_def)

lemma grown_trans: "grown w w' \<Longrightarrow> grown w' w'' \<Longrightarrow> grown w w''" by (auto simp: grown_def)

text \<open>The reply to a command is a success; a table of grants it prints has well-formed rows.\<close>

definition obliging :: "'w env \<Rightarrow> bool" where
  "obliging env \<longleftrightarrow> (\<forall>args s. \<exists>out s'. run_kubectl env args s = (Inr out, s') \<and> \<not> riakAdminFailed out \<and>
     list_all wf_entry (parseDedicatedGrants out))"

lemma wp_obliging:
  assumes "obliging env"
    and "\<And>out w'. list_all wf_entry (parseDedicatedGrants out) \<Longrightarrow> grown w w' \<Longrightarrow> Q (out, None) w'"
  shows "wp (ExecuteRiakAdmin env ns pod c args) Q w"
proof -
  obtain out s' where "run_kubectl env (execBase ns pod c @ args) (outside w) = (Inr out, s')" "\<not> riakAdminFailed out"
      "list_all wf_entry (parseDedicatedGrants out)"
    using assms(1) unfolding obliging_def by blast
  with assms(2)[of out] show ?thesis by (simp add: wp_def run_ExecuteRiakAdmin admin_result_def grown_def)
qed

context single_command
begin

lemma wp_accepted:
  assumes "obliging env" and "\<And>w'. grown w w' \<Longrightarrow> Q None w'"
  shows "wp (cmd env ns pod c) Q w"
proof -
  have "wp (ExecuteRiakAdmin env ns pod c args) (\<lambda>(out, err) w'. err = None \<and> grown w w') w"
    by (rule wp_obliging[OF assms(1)]) simp
  then show ?thesis using assms(2) by (auto simp: wp_def run_cmd split: prod.splits)
qed

end

subsection \<open>Grants\<close>

definition valid_grants :: "Grant list \<Rightarrow> bool" where
  "valid_grants gs \<longleftrightarrow> list_all (\<lambda>g. case grantTarget (g_Resource g) (g_BucketName g) of Inl _ \<Rightarrow> False | Inr _ \<Rightarrow> True) gs"

lemma wp_GrantPermissions_accepted:
  assumes "obliging env" and "grantTarget resource bucket = Inr target" and "\<And>w'. grown w w' \<Longrightarrow> Q None w'"
  shows "wp (GrantPermissions env ns pod c u resource bucket ps) Q w"
  unfolding GrantPermissions_def assms(2) sum.case Let_def wp_bind
  by (rule wp_obliging[OF assms(1)]) (simp add: assms(3))

lemma wp_RevokePermissions_accepted:
  assumes "obliging env" and "grantTarget resource bucket = Inr target" and "\<And>w'. grown w w' \<Longrightarrow> Q None w'"
  shows "wp (RevokePermissions env ns pod c u resource bucket toks) Q w"
  unfolding RevokePermissions_def assms(2) sum.case Let_def wp_bind
  by (rule wp_obliging[OF assms(1)]) (simp add: assms(3))

lemma revoke_target_valid:
  assumes "wf_entry e" shows "\<exists>t. grantTarget (fst (revoke_target e)) (snd (revoke_target e)) = Inr t"
proof -
  have "Fields (ge_Type e @ '' '' @ ge_Bucket e) = [ge_Type e, ge_Bucket e]" "Fields (ge_Type e) = [ge_Type e]"
    using assms Fields_word_spaces[of "ge_Type e" "'' ''" "ge_Bucket e"] by (auto simp: wf_entry_def Fields_word)
  then show ?thesis by (simp add: revoke_target_def grantTarget_def resourceAny_def)
qed

lemma wp_revoke_accepted:
  assumes "obliging env" and "list_all wf_entry es" and "\<And>w'. grown w w' \<Longrightarrow> Q (Inr ()) w'"
  shows "wp (for_each (revoke_body env ns pod u d) es ()) Q w"
proof (rule wp_for_each_post[where I = "\<lambda>_. grown w"])
  fix e v w1 assume "e \<in> set es" and w1: "grown w w1"
  then obtain t where t: "grantTarget (fst (revoke_target e)) (snd (revoke_target e)) = Inr t"
    using assms(2) revoke_target_valid by (auto simp: list_all_iff)
  show "wp (revoke_body env ns pod u d e v) (\<lambda>r t. case r of Inl x \<Rightarrow> Q (Inl x) t | Inr _ \<Rightarrow> grown w t) w1"
    unfolding revoke_body_def Let_def wp_if wp_bind
    by (auto simp: w1 intro!: wp_RevokePermissions_accepted[OF assms(1) t] elim: grown_trans[OF w1])
qed (use assms(3) in auto)

lemma wp_grant_accepted:
  assumes "obliging env" and "\<And>t. t \<in> set order \<Longrightarrow> \<exists>x. grantTarget (fst t) (snd t) = Inr x"
    and "\<And>d w'. grown w w' \<Longrightarrow> Q (Inr d) w'"
  shows "wp (for_each (grant_body env ns pod u perms) order d0) Q w"
proof (rule wp_for_each_post[where I = "\<lambda>_. grown w"])
  fix t d w1 assume "t \<in> set order" and w1: "grown w w1"
  then obtain x where x: "grantTarget (fst t) (snd t) = Inr x" using assms(2) by blast
  then have "\<exists>key. grantKey (fst t) (snd t) = Inr key" by (simp add: grantKey_def)
  then obtain key where "grantKey (fst t) (snd t) = Inr key" by blast
  then show "wp (grant_body env ns pod u perms t d) (\<lambda>r t. case r of Inl e \<Rightarrow> Q (Inl e) t | Inr _ \<Rightarrow> grown w t) w1"
    unfolding grant_body_def Let_def wp_bind
    by (auto intro!: wp_GrantPermissions_accepted[OF assms(1) x] elim: grown_trans[OF w1])
qed (use assms(3) in auto)

lemma wp_GrantUserPermissions_accepted:
  assumes "obliging env" and "valid_grants gs" and "clt_Members (cl_Status cluster) \<noteq> []" and "\<And>w'. grown w w' \<Longrightarrow> Q None w'"
  shows "wp (GrantUserPermissions env cluster u gs) Q w"
proof -
  obtain m ms where m: "clt_Members (cl_Status cluster) = m # ms" using assms(3) by (cases "clt_Members (cl_Status cluster)") auto
  obtain order perms where g: "group_grants gs = (order, perms)" by fastforce
  have order: "\<exists>x. grantTarget (fst t) (snd t) = Inr x" if "t \<in> set order" for t
    using that group_grants_order[of gs] assms(2)
    by (cases "grantTarget (fst t) (snd t)") (auto simp: g valid_grants_def gtarget_def list_all_iff)
  show ?thesis
    unfolding GrantUserPermissions_def on_first_member_def m list.case g prod.case wp_bind Let_def
  proof (rule wp_grant_accepted[OF assms(1) order], assumption, goal_cases)
    case w1: (1 d w1)
    show ?case
      unfolding sum.case wp_bind GetUserGrants_def
    proof (rule wp_obliging[OF assms(1)], goal_cases)
      case w2: (1 out w2)
      show ?case
        unfolding prod.case option.case wp_return sum.case wp_bind
        by (rule wp_revoke_accepted[OF assms(1) w2(1)]) (use assms(4) grown_trans[OF grown_trans[OF w1 w2(2)]] in simp)
    qed
  qed
qed


subsection \<open>The status of a provisioned user\<close>

text \<open>A status that reports the specification as provisioned.\<close>

definition reports :: "RiakUserSpec \<Rightarrow> RiakUser \<Rightarrow> bool" where
  "reports spec u \<longleftrightarrow> ut_Phase (u_Status u) = UserPhaseReady \<and> ut_Created (u_Status u) \<and> ut_Error (u_Status u) = [] \<and>
     ut_Username (u_Status u) = us_Username spec \<and> ut_Grants (u_Status u) = us_Grants spec"

lemma grown_one: "grown w w1 \<Longrightarrow> trace w2 = trace w1 @ [e] \<Longrightarrow> grown w w2"
  by (auto simp: grown_def)

lemma grown_reads: "grown w w1 \<Longrightarrow> trace w2 = trace w1 @ es \<Longrightarrow> grown w w2"
  by (auto simp: grown_def)

text \<open>The run ends with the report.\<close>

definition reported :: "RiakUserSpec \<Rightarrow> 'w world \<Rightarrow> 'w world \<Rightarrow> bool" where
  "reported spec w w' \<longleftrightarrow> (\<exists>pre u. trace w' = trace w @ pre @ [UserStatus u] \<and> reports spec u)"

lemma reportedI: "grown w w1 \<Longrightarrow> trace w2 = trace w1 @ [UserStatus u] \<Longrightarrow> reports spec u \<Longrightarrow> reported spec w w2"
  by (auto simp: grown_def reported_def)

lemma wp_markUserReady_reports:
  assumes "ut_Phase (u_Status user) \<noteq> UserPhaseReady" and "grown w w1"
  shows "wp (markUserReady env user cn ready reason) (\<lambda>_. reported (u_Spec user) w) w1"
proof -
  have "wp (Now env) (\<lambda>now. wp (effect (\<lambda>_. UserStatus (user\<lparr>u_Status := st\<lparr>ut_LastUpdateTime := Some now\<rparr>\<rparr>))
      (status_user env (user\<lparr>u_Status := st\<lparr>ut_LastUpdateTime := Some now\<rparr>\<rparr>)))
      (\<lambda>_. reported (u_Spec user) w)) w2"
    if "trace w2 = trace w1" "reports (u_Spec user) (user\<lparr>u_Status := st\<rparr>)" for w2 st
    by (intro wp_Now_any wp_effect_any reportedI[OF assms(2), where u = "user\<lparr>u_Status := st\<lparr>ut_LastUpdateTime := Some _\<rparr>\<rparr>"])
      (use that in \<open>simp_all add: reports_def\<close>)
  then show ?thesis
    unfolding markUserReady_def Let_def case_prod_beta wp_bind updateUserStatus_def wp_if wp_return
    by (intro wp_setCondition) (simp add: assms(1) reports_def)
qed

lemma wp_certRequeue_reported:
  assumes "reported spec w w1" shows "wp (certRequeue env ref ready t) (\<lambda>_. reported spec w) w1"
proof (rule wpI)
  fix a w2 assume "run_state (certRequeue env ref ready t) w1 = (a, w2)"
  with emits_certRequeue[of "\<lambda>_. False"] obtain es where "trace w2 = trace w1 @ es" "list_all (\<lambda>_. False) es"
    by (rule emitsD)
  with assms show "reported spec w w2" by (cases es) (auto simp: reported_def)
qed

lemma wp_ready_end:
  assumes "ut_Phase (u_Status user) \<noteq> UserPhaseReady" and "grown w w1"
  shows "wp (userCertificateReadiness env user ref cluster) (\<lambda>a. wp (case a of (certReady, certReason, notAfter) \<Rightarrow>
      markUserReady env user (cl_Name cluster) certReady certReason \<bind> (\<lambda>m. case m of
          None \<Rightarrow> certRequeue env ref certReady notAfter \<bind> (\<lambda>q. return (q, None))
        | Some e \<Rightarrow> return (no_requeue, Some e))) (\<lambda>_. reported (u_Spec user) w)) w1"
proof (rule wp_reads[OF emits_userCertificateReadiness], goal_cases)
  case (1 a w2 es)
  obtain ready reason t where a: "a = (ready, reason, t)" by (cases a) auto
  show ?case
    unfolding a prod.case wp_bind
    by (rule wp_mono[OF wp_markUserReady_reports[OF assms(1) grown_reads[OF assms(2) 1(1)]]])
      (simp add: wp_certRequeue_reported wp_bind split: option.split)
qed

subsection \<open>The Riak side\<close>

lemma wp_first_accepted:
  assumes "clt_Members (cl_Status cluster) \<noteq> []" and "\<And>ns pod. wp (f ns pod) Q w"
  shows "wp (on_first_member cluster f) Q w"
  using assms by (auto simp: on_first_member_def split: list.split)

lemma wp_provisionUser_ready:
  assumes "obliging env" and "valid_grants (us_Grants (u_Spec user))" and "clt_Members (cl_Status cluster) \<noteq> []"
    and "ut_Phase (u_Status user) \<noteq> UserPhaseReady" and "grown w w1"
  shows "wp (provisionUser env user ref cluster) (\<lambda>_. reported (u_Spec user) w) w1"
  unfolding provisionUser_def Let_def wp_bind Manager_CreateUserForCert_def Manager_AddSecuritySource_def
proof (rule wp_first_accepted[OF assms(3)], rule add_user.wp_accepted[OF assms(1)], goal_cases)
  case w2: (1 ns pod w2)
  show ?case
    unfolding option.case wp_bind
  proof (rule wp_first_accepted[OF assms(3)], rule add_source.wp_accepted[OF assms(1)], goal_cases)
    case w3: (1 ns' pod' w3)
    show ?case
      unfolding option.case wp_bind
    proof (rule wp_GrantUserPermissions_accepted[OF assms(1-3)], goal_cases)
      case w4: (1 w4)
      have "grown w w4" by (rule grown_trans[OF assms(5) grown_trans[OF w2 grown_trans[OF w3 w4]]])
      then show ?case unfolding option.case wp_bind by (rule wp_ready_end[OF assms(4)])
    qed
  qed
qed

text \<open>A status write of the cluster succeeds and keeps the members.\<close>

definition status_writable :: "'w env \<Rightarrow> bool" where
  "status_writable env \<longleftrightarrow> (\<forall>c s. \<exists>c' s'. status_cluster env c s = (Inr c', s') \<and>
     clt_Members (cl_Status c') = clt_Members (cl_Status c))"

lemma wp_secureAndProvision_ready:
  assumes "obliging env" and "status_writable env" and "valid_grants (us_Grants (u_Spec user))"
    and "clt_Members (cl_Status cluster) \<noteq> []" and "ut_Phase (u_Status user) \<noteq> UserPhaseReady" and "grown w w1"
  shows "wp (secureAndProvision env user ref cluster) (\<lambda>_. reported (u_Spec user) w) w1"
proof (cases "clt_SecurityEnabled (cl_Status cluster)")
  case True
  then show ?thesis
    unfolding secureAndProvision_def using wp_provisionUser_ready[OF assms(1,3-6)] by simp
next
  case False
  show ?thesis
    unfolding secureAndProvision_def Manager_EnableSecurity_def if_not_P[OF False] wp_bind
  proof (rule wp_first_accepted[OF assms(4)], rule enable_security.wp_accepted[OF assms(1)], goal_cases)
    case (1 ns pod w2)
    let ?c = "cluster\<lparr>cl_Status := (cl_Status cluster)\<lparr>clt_SecurityEnabled := True\<rparr>\<rparr>"
    obtain c' s' where c': "status_cluster env ?c (outside w2) = (Inr c', s')"
        "clt_Members (cl_Status c') = clt_Members (cl_Status ?c)"
      using assms(2) unfolding status_writable_def by blast
    have "clt_Members (cl_Status c') \<noteq> []" using c'(2) assms(4) by simp
    moreover have "grown w (w2\<lparr>outside := s', trace := trace w2 @ [ClusterStatus ?c]\<rparr>)"
      using grown_trans[OF assms(6) 1] by (rule grown_one) simp
    ultimately show ?case
      unfolding option.case Let_def wp_bind wp_effect c'(1) prod.case sum.case
      by (rule wp_provisionUser_ready[OF assms(1,3) _ assms(5)])
  qed
qed

subsection \<open>The whole reconcile\<close>

text \<open>The certificate can be asked for: it exists or can be created, or the user brings its own.\<close>

definition certificate_granted :: "'w env \<Rightarrow> RiakUser \<Rightarrow> UserCertificateRef \<Rightarrow> bool" where
  "certificate_granted env user ref \<longleftrightarrow>
     (case ucr_IssuerRef ref of
        None \<Rightarrow> True
      | Some issuer \<Rightarrow>
          (\<forall>s. case SetControllerReferenceU env (u_Meta user)
              (buildUserCertificate (u_Name user) (u_Namespace user) (us_Username (u_Spec user)) ref issuer) of
             Inl _ \<Rightarrow> False
           | Inr cert \<Rightarrow>
               (case get_cert env (u_Namespace user) (userCertName (u_Name user)) s of
                  (Inl err, s') \<Rightarrow> IsNotFound err \<and> fst (create_cert env cert s') = None
                | (Inr _, s') \<Rightarrow> True)))"

lemma wp_reconcileUserCertificate_granted:
  assumes "certificate_granted env user ref" and "grown w w1" and "\<And>w'. grown w w' \<Longrightarrow> Q None w'"
  shows "wp (reconcileUserCertificate env user ref) Q w1"
proof (cases "ucr_IssuerRef ref")
  case None
  then show ?thesis using assms(2,3) by (simp add: reconcileUserCertificate_def)
next
  case (Some issuer)
  let ?set = "SetControllerReferenceU env (u_Meta user)
    (buildUserCertificate (u_Name user) (u_Namespace user) (us_Username (u_Spec user)) ref issuer)"
  from assms(1) Some obtain cert where cert: "?set = Inr cert"
    by (cases ?set) (auto simp: certificate_granted_def)
  with assms(1) Some have get: "case get_cert env (u_Namespace user) (userCertName (u_Name user)) (outside w1) of
      (Inl err, s') \<Rightarrow> IsNotFound err \<and> fst (create_cert env cert s') = None | (Inr _, s') \<Rightarrow> True"
    by (simp add: certificate_granted_def)
  then show ?thesis
    unfolding reconcileUserCertificate_def Some option.case cert sum.case Let_def wp_bind wp_effect
    by (auto simp: wp_effect wp_bind split: prod.splits sum.splits intro!: assms(3) grown_reads[OF assms(2)])
qed

text \<open>A user that an earlier reconcile has initialised, and that no reconcile has reported as ready.\<close>

definition awaiting :: "'w env \<Rightarrow> RiakUser \<Rightarrow> UserCertificateRef \<Rightarrow> bool" where
  "awaiting env user ref \<longleftrightarrow> m_DeletionTimestamp (u_Meta user) = None \<and>
     ContainsFinalizer env (u_Meta user) riakUserFinalizerName \<and> ut_Phase (u_Status user) \<noteq> [] \<and>
     ut_Phase (u_Status user) \<noteq> UserPhaseReady \<and> us_CertificateRef (u_Spec user) = Some ref"

lemma wp_userOnCluster_ready:
  assumes "obliging env" and "status_writable env" and "certificate_granted env user ref"
    and "valid_grants (us_Grants (u_Spec user))" and "ut_Phase (u_Status user) \<noteq> UserPhaseReady"
    and "get_cluster env (u_Namespace user) (us_ClusterName (u_Spec user)) (outside w1) = (Inr cluster, s1)"
    and "clt_Phase (cl_Status cluster) = PhaseReady" and "clt_Members (cl_Status cluster) \<noteq> []" and "grown w w1"
  shows "wp (userOnCluster env user ref) (\<lambda>_. reported (u_Spec user) w) w1"
proof -
  have w2: "grown w (w1\<lparr>outside := s1, trace := trace w1 @ [GetCluster (u_Namespace user) (us_ClusterName (u_Spec user)) (Inr cluster)]\<rparr>)"
    by (rule grown_one[OF assms(9)]) simp
  show ?thesis
    unfolding userOnCluster_def Let_def wp_bind wp_effect assms(6) prod.case sum.case
      if_not_P[OF not_not[THEN iffD2, OF assms(7)]]
  proof (rule wp_reconcileUserCertificate_granted[OF assms(3) w2], goal_cases)
    case (1 w3)
    show ?case
      unfolding option.case by (rule wp_secureAndProvision_ready[OF assms(1,2,4,8,5) 1])
  qed
qed

text \<open>
  C23: a user becomes ready. On a cluster that is ready and has members, where \<^verbatim>\<open>riak-admin\<close> accepts the
  commands, the certificate can be asked for and the grants name valid targets, one reconcile of an initialised
  user ends by writing a status with the phase \<^verbatim>\<open>Ready\<close>, marked as created, without an error, for the user name and the
  grants of the specification, whether or not the cluster had security enabled before.
\<close>

theorem User_becomes_ready:
  assumes "obliging env" and "status_writable env" and "certificate_granted env user ref"
    and "valid_grants (us_Grants (u_Spec user))" and "awaiting env user ref"
    and "get_user env ns name (outside w) = (Inr user, s0)"
    and "get_cluster env (u_Namespace user) (us_ClusterName (u_Spec user)) s0 = (Inr cluster, s1)"
    and "clt_Phase (cl_Status cluster) = PhaseReady" and "clt_Members (cl_Status cluster) \<noteq> []"
  shows "\<exists>pre u. emitted (User_Reconcile env ns name) w = pre @ [UserStatus u] \<and> reports (u_Spec user) u"
proof -
  have user: "\<not> m_DeletionTimestamp (u_Meta user) \<noteq> None" "ContainsFinalizer env (u_Meta user) riakUserFinalizerName"
      "ut_Phase (u_Status user) \<noteq> []" "ut_Phase (u_Status user) \<noteq> UserPhaseReady" "us_CertificateRef (u_Spec user) = Some ref"
    using assms(5) by (simp_all add: awaiting_def)
  let ?w1 = "w\<lparr>outside := s0, trace := trace w @ [Get KUser ns name]\<rparr>"
  have "wp (userOnCluster env user ref) (\<lambda>_. reported (u_Spec user) w) ?w1"
    by (rule wp_userOnCluster_ready[OF assms(1-4) user(4) _ assms(8,9)]) (simp_all add: assms(7) grown_def)
  then have "wp (User_Reconcile env ns name) (\<lambda>_. reported (u_Spec user) w) w"
    unfolding User_Reconcile_def wp_bind wp_effect assms(6) prod.case sum.case if_not_P[OF user(1)]
    using user(2,3,5) by (simp add: ensureUserFinalizer_def initUserStatus_def)
  then show ?thesis by (auto simp: wp_def reported_def emitted_def split: prod.splits)
qed

lemma obliging_env: "obliging (user_env u c (Inr ''ok''))"
  unfolding obliging_def by (auto simp: user_env_def, code_simp+)

theorem User_becomes_ready_witness:
  "\<exists>pre u. emitted (User_Reconcile (user_env alice ready_cluster (Inr ''ok'')) ''ns'' ''alice'') (start ()) = pre @ [UserStatus u] \<and>
     reports (u_Spec alice) u \<and> \<not> clt_SecurityEnabled (cl_Status ready_cluster)"
proof -
  let ?env = "user_env alice ready_cluster (Inr ''ok'')"
  have "status_writable ?env" by (simp add: status_writable_def user_env_def sample_env_def)
  moreover have "certificate_granted ?env alice issuer_cert"
    by (simp add: certificate_granted_def issuer_cert_def user_env_def sample_env_def)
  moreover have "valid_grants (us_Grants (u_Spec alice))" by code_simp
  moreover have "awaiting ?env alice issuer_cert"
    by (simp add: awaiting_def alice_meta new_meta_def user_env_def sample_env_def alice_def sample_user_def UserPhaseCreating_def
        UserPhaseReady_def)
  moreover have "get_cluster ?env (u_Namespace alice) (us_ClusterName (u_Spec alice)) () = (Inr ready_cluster, ())"
    by (simp add: user_env_def)
  moreover have "clt_Phase (cl_Status ready_cluster) = PhaseReady" "clt_Members (cl_Status ready_cluster) \<noteq> []"
      "\<not> clt_SecurityEnabled (cl_Status ready_cluster)"
    by code_simp+
  ultimately show ?thesis
    using User_becomes_ready[OF obliging_env _ _ _ _ user_env_alice(1)] by blast
qed

end
