(* ===== verification/Security_Flag.thy ===== *)
theory Security_Flag
  imports Cluster_Controller
begin

text \<open>
  The flag \<^verbatim>\<open>securityEnabled\<close> of a cluster's status is shared by two controllers: the user controller enables security and
  records it, the cluster controller rewrites the whole status on every reconcile. Here is what each writes, and that
  no interleaving of their runs on an API server with optimistic concurrency, stale reads included, loses the flag or
  records it before security was enabled.
\<close>

abbreviation secured :: "RiakCluster \<Rightarrow> bool" where "secured c \<equiv> clt_SecurityEnabled (cl_Status c)"

subsection \<open>Results of actions\<close>

definition yields :: "('a \<Rightarrow> bool) \<Rightarrow> ('w, 'a) action \<Rightarrow> bool" where
  "yields P m \<longleftrightarrow> (\<forall>w. P (fst (run_state m w)))"

lemma yields_bind:
  assumes "yields P m" and "\<And>a. P a \<Longrightarrow> yields Q (f a)" shows "yields Q (State_Monad.bind m f)"
  using assms by (auto simp: yields_def split: prod.split) (metis fst_conv)

lemma yields_wp: "yields P m \<Longrightarrow> wp m (\<lambda>a _. P a) w"
  by (auto simp: yields_def wp_def split: prod.split) (metis fst_conv)

lemma yields_any [simp]: "yields (\<lambda>_. True) m"
  by (simp add: yields_def)

lemma yields_return [simp]: "yields P (return a) \<longleftrightarrow> P a"
  by (simp add: yields_def)

lemma yields_split:
  "yields P m \<Longrightarrow> yields P n \<Longrightarrow> yields P (if b then m else n)"
  "(\<And>a. yields P (f a)) \<Longrightarrow> (\<And>b. yields P (g b)) \<Longrightarrow> yields P (case x of Inl a \<Rightarrow> f a | Inr b \<Rightarrow> g b)"
  "yields P m \<Longrightarrow> (\<And>b. yields P (h b)) \<Longrightarrow> yields P (case y of None \<Rightarrow> m | Some b \<Rightarrow> h b)"
  "(\<And>a b. yields P (k a b)) \<Longrightarrow> yields P (case z of (a, b) \<Rightarrow> k a b)"
  by (auto split: sum.split option.split prod.split)

lemma yields_mono: "yields P m \<Longrightarrow> (\<And>a. P a \<Longrightarrow> Q a) \<Longrightarrow> yields Q m"
  by (simp add: yields_def)

lemma emits_then:
  assumes "emits P m" and "yields R m" and "\<And>a. R a \<Longrightarrow> emits P (f a)"
  shows "emits P (State_Monad.bind m f)"
proof (rule emitsI)
  fix w
  obtain a w1 where m: "run_state m w = (a, w1)" by fastforce
  from assms(1) m obtain es where es: "trace w1 = trace w @ es" "list_all P es" by (rule emitsD)
  have "R a" using assms(2) m unfolding yields_def by (metis fst_conv)
  obtain b w2 where f: "run_state (f a) w1 = (b, w2)" by fastforce
  from assms(3)[OF \<open>R a\<close>] f obtain fs where "trace w2 = trace w1 @ fs" "list_all P fs" by (rule emitsD)
  then show "\<exists>es. trace (snd (run_state (State_Monad.bind m f) w)) = trace w @ es \<and> list_all P es"
    using m f es by (intro exI[of _ "es @ fs"]) simp
qed

subsection \<open>The rollout changes conditions only\<close>

definition reconditioned :: "RiakCluster \<Rightarrow> RiakCluster \<Rightarrow> bool" where
  "reconditioned c c' \<longleftrightarrow> (\<exists>cs. c' = cl_set_conditions cs c)"

lemma reconditioned_refl [simp]: "reconditioned c c"
  by (auto simp: reconditioned_def cl_set_conditions_def intro!: exI[of _ "clt_Conditions (cl_Status c)"])

lemma reconditioned_set [simp]: "reconditioned c c' \<Longrightarrow> reconditioned c (cl_set_conditions cs c')"
  by (auto simp: reconditioned_def cl_set_conditions_def)

lemma reconditioned_same:
  assumes "reconditioned c c'"
  shows "secured c' = secured c" "cl_Spec c' = cl_Spec c" "cl_Meta c' = cl_Meta c"
  using assms by (auto simp: reconditioned_def cl_set_conditions_def)

lemma yields_setClusterCondition:
  "reconditioned c c' \<Longrightarrow> yields (reconditioned c) (setClusterCondition env c' t ok r m)"
  unfolding setClusterCondition_def by (rule yields_bind[OF yields_any]) (simp split: prod.split)

lemma yields_markBlocked: "yields (reconditioned c) (markBlocked env c r m b)"
  unfolding markBlocked_def
proof (rule yields_bind[OF yields_setClusterCondition[of c]], simp, rule yields_bind[OF yields_setClusterCondition[of c]], assumption,
    rule yields_bind[OF yields_any], goal_cases)
  case (1 c1 c2 stalled)
  then show ?case by (intro yields_split(1) yields_setClusterCondition)
qed

lemma yields_conditions:
  "(\<And>c1. reconditioned c c1 \<Longrightarrow> reconditioned c (fst (f c1))) \<Longrightarrow>
    yields (\<lambda>(c', _). reconditioned c c') (setClusterCondition env c t ok r m \<bind> (\<lambda>c1. return (f c1)))"
  by (rule yields_bind[OF yields_setClusterCondition[of c]]) (simp_all add: case_prod_beta)

lemma yields_patchPartition: "yields (\<lambda>(c', _). reconditioned c c') (patchPartition env c sts nxt)"
  unfolding patchPartition_def Let_def
  by (rule yields_bind[OF yields_any], intro yields_split yields_conditions) (simp_all add: clearBlocked_def)

lemma yields_reconcileRollout: "yields (\<lambda>(c', _). reconditioned c c') (reconcileRollout env c)"
proof -
  have block: "yields (\<lambda>(c', _). reconditioned c c') (markBlocked env c r m b \<bind> (\<lambda>c1. return (c1, None)))" for r m b
    by (rule yields_bind[OF yields_markBlocked]) simp
  show ?thesis
    unfolding reconcileRollout_def Let_def
    by (intro yields_bind[OF yields_any] yields_split yields_conditions block yields_patchPartition)
      (simp_all add: clearRolloutConditions_def clearBlocked_def)
qed

subsection \<open>The cluster controller keeps the flag\<close>

text \<open>After its first read, a reconcile of a cluster writes no status with another flag, and does not read the cluster again.\<close>

fun keeps_flag :: "bool \<Rightarrow> event \<Rightarrow> bool" where
  "keeps_flag f (ClusterStatus c) = (secured c = f)"
| "keeps_flag f (GetCluster ns n r) = False"
| "keeps_flag f _ = True"

lemma flag_kept_exec [simp]: "is_exec e \<Longrightarrow> keeps_flag f e" by (cases e) auto
lemma flag_kept_patch [simp]: "is_patch e \<Longrightarrow> keeps_flag f e" by (cases e) auto

lemma flag_kept_buildTrustBundle: "emits (keeps_flag f) (buildTrustBundle env cluster)"
  unfolding buildTrustBundle_def ca_body_def readTrustedCA_def Let_def by (intro emits_rules) simp_all

lemma flag_kept_objects:
  "emits (keeps_flag f) (reconcileTLSCertificate env c)" "emits (keeps_flag f) (reconcileTrustBundle env c)"
  "emits (keeps_flag f) (reconcileMonitoringConfigMap env c)" "emits (keeps_flag f) (reconcileStatefulSet env img c)"
  "emits (keeps_flag f) (reconcileService env c)" "emits (keeps_flag f) (reconcilePodDisruptionBudget env c)"
  "emits (keeps_flag f) (reconcileScrapeObject env c)" "emits (keeps_flag f) (Cluster_handleDeletion env c)"
  "emits (keeps_flag f) (ensureClusterFinalizer env c)"
  unfolding reconcileTLSCertificate_def reconcileTrustBundle_def reconcileMonitoringConfigMap_def reconcileStatefulSet_def
    reconcileService_def reconcilePodDisruptionBudget_def reconcileScrapeObject_def reconcileServiceMonitor_def reconcilePodMonitor_def
    reconcileMonitor_def deleteMonitor_def Cluster_handleDeletion_def ensureClusterFinalizer_def Let_def
  by (intro emits_rules flag_kept_buildTrustBundle; simp)+

lemma flag_kept_reconcileRollout: "emits (keeps_flag f) (reconcileRollout env c)"
proof -
  have "emits (keeps_flag f) (clusterSettled env c pods)" for pods
    unfolding clusterSettled_def Let_def by (intro emits_rules) simp_all
  moreover have "emits (keeps_flag f) (patchPartition env c sts nxt)" for sts nxt
    unfolding patchPartition_def Let_def by (intro emits_rules emits_setClusterCondition) simp_all
  ultimately show ?thesis
    unfolding reconcileRollout_def rolloutPods_def Let_def
    by (intro emits_rules emits_setClusterCondition emits_markBlocked) simp_all
qed

lemma flag_kept_status_parts:
  "emits (keeps_flag f) (tlsStatus env c b)" "emits (keeps_flag f) (monitoringStatus env c pods)"
  "emits (keeps_flag f) (bucketRefs env c)" "emits (keeps_flag f) (userRefs env c)" "emits (keeps_flag f) (node_body env c pod vars)"
  unfolding tlsStatus_def trustStatus_def monitoringStatus_def bucketRefs_def userRefs_def node_body_def nodeStorageReady_def Let_def
  by (intro emits_rules flag_kept_buildTrustBundle; simp)+

lemma flag_kept_formRing: "emits (keeps_flag f) (formRing env c b pods)"
  unfolding formRing_def by (intro emits_rules emits_mono[OF emits_ReconcileMembership]) simp


lemma flag_kept_writeClusterStatus: "emits (keeps_flag (secured c)) (writeClusterStatus env c pods vars bs us ready formed)"
proof -
  have fin: "emits (keeps_flag (secured c)) (Now env \<bind> (\<lambda>now.
        effect (\<lambda>_. ClusterStatus (c2\<lparr>cl_Status := (cl_Status c2)\<lparr>clt_LastUpdateTime := Some now\<rparr>\<rparr>))
          (status_cluster env (c2\<lparr>cl_Status := (cl_Status c2)\<lparr>clt_LastUpdateTime := Some now\<rparr>\<rparr>)) \<bind> (\<lambda>r.
        return (g now r))))"
    if "secured c2 = secured c" for c2 g
    by (intro emits_rules) (simp add: that)
  have cond: "emits P (if b1 then setClusterCondition env c1 t1 o1 r1 m1 else if b2 then setClusterCondition env c2 t2 o2 r2 m2
      else setClusterCondition env c3 t3 o3 r3 m3)" for P b1 b2 t1 o1 r1 m1 t2 o2 r2 m2 t3 o3 r3 m3 c1 c2 c3
    by (intro emits_rules emits_setClusterCondition)
  have flag: "yields (\<lambda>c'. secured c' = secured c) (if b1 then setClusterCondition env (cl_set_phase p1 c0) t1 o1 r1 m1
      else if b2 then setClusterCondition env (cl_set_phase p2 c0) t2 o2 r2 m2
      else setClusterCondition env (cl_set_phase p3 c0) t3 o3 r3 m3)"
    if "secured c0 = secured c" for b1 b2 p1 p2 p3 t1 o1 r1 m1 t2 o2 r2 m2 t3 o3 r3 m3 c0
    by (intro yields_split; rule yields_mono[OF yields_setClusterCondition[OF reconditioned_refl]])
      (use that in \<open>auto dest!: reconditioned_same(1) simp: cl_set_phase_def\<close>)
  show ?thesis
    unfolding writeClusterStatus_def Let_def
    by (intro emits_case_prod emits_bind flag_kept_status_parts emits_then[OF cond flag] fin) simp_all
qed

lemma flag_kept_updateClusterStatus: "emits (keeps_flag (secured c)) (updateClusterStatus env c)"
  unfolding updateClusterStatus_def Let_def
  by (intro emits_rules flag_kept_status_parts flag_kept_formRing flag_kept_writeClusterStatus) simp_all

lemma flag_kept_finishReconcile: "emits (keeps_flag (secured c)) (finishReconcile env c)"
proof -
  have rest: "emits (keeps_flag (secured c)) (case r of (c', _) \<Rightarrow>
      (if monitoringEnabled c' then reconcileScrapeObject env c' else return None) \<bind> (\<lambda>e3. case e3 of
        Some e \<Rightarrow> return (no_requeue, Some e)
      | None \<Rightarrow> updateClusterStatus env c' \<bind> (\<lambda>_. return (requeue (10 * Second), None))))"
    if "case r of (c', _) \<Rightarrow> reconditioned c c'" for r
  proof (cases r)
    case (Pair c' e)
    with that have c': "secured c' = secured c" by (auto dest: reconditioned_same)
    show ?thesis
      unfolding Pair prod.case c'[symmetric] by (intro emits_rules flag_kept_objects flag_kept_updateClusterStatus)
  qed
  show ?thesis
    unfolding finishReconcile_def
    by (intro emits_rules flag_kept_objects emits_then[OF flag_kept_reconcileRollout yields_reconcileRollout] rest)
qed

lemma flag_kept_failCluster: "emits (keeps_flag (secured c)) (failCluster env c e)"
  unfolding failCluster_def Let_def by (intro emits_rules) (simp add: cl_set_phase_def)

lemma flag_kept_reconcileCluster: "emits (keeps_flag (secured c)) (reconcileCluster env img c)"
  unfolding reconcileCluster_def by (intro emits_rules flag_kept_objects flag_kept_failCluster flag_kept_finishReconcile)

text \<open>
  A write that succeeds returns the flag it was sent: a status write stores it, and an update of the object succeeds only if nobody
  has written the cluster since it was read.
\<close>

definition flag_writes :: "'w env \<Rightarrow> bool" where
  "flag_writes env \<longleftrightarrow>
     (\<forall>c s c' s'. update_cluster env c s = (Inr c', s') \<or> status_cluster env c s = (Inr c', s') \<longrightarrow> secured c' = secured c)"

lemma yields_effect: "(\<And>s. P (fst (f s))) \<Longrightarrow> yields P (effect e f)"
  by (simp add: yields_def effect_def split: prod.split) (metis fst_conv)

lemma yields_writes:
  assumes "flag_writes env"
  shows "yields (\<lambda>r. \<forall>c'. r = Inr c' \<longrightarrow> secured c' = secured c) (ensureClusterFinalizer env c)"
    and "yields (\<lambda>r. \<forall>c'. r = Inr c' \<longrightarrow> secured c' = secured c) (initClusterStatus env c)"
proof -
  have w: "secured c' = secured d" if "fst (update_cluster env d s) = Inr c' \<or> fst (status_cluster env d s) = Inr c'" for c' d s
    using assms that unfolding flag_writes_def by (metis prod.collapse)
  show "yields (\<lambda>r. \<forall>c'. r = Inr c' \<longrightarrow> secured c' = secured c) (ensureClusterFinalizer env c)"
    unfolding ensureClusterFinalizer_def by (intro yields_split yields_effect) (auto dest: w[OF disjI1])
  show "yields (\<lambda>r. \<forall>c'. r = Inr c' \<longrightarrow> secured c' = secured c) (initClusterStatus env c)"
    unfolding initClusterStatus_def Let_def
    by (intro yields_split yields_effect) (auto dest: w[OF disjI2] simp: cl_set_phase_def)
qed

lemma flag_kept_initClusterStatus: "emits (keeps_flag (secured c)) (initClusterStatus env c)"
  unfolding initClusterStatus_def Let_def by (intro emits_rules) (simp add: cl_set_phase_def)

lemma flag_kept_from_finalizer:
  assumes "flag_writes env"
  shows "emits (keeps_flag (secured c)) (ensureClusterFinalizer env c \<bind> (\<lambda>f. case f of
      Inl err \<Rightarrow> return (no_requeue, Some (api_msg err))
    | Inr c1 \<Rightarrow> initClusterStatus env c1 \<bind> (\<lambda>s. case s of
        Inl err \<Rightarrow> return (no_requeue, Some (api_msg err))
      | Inr c2 \<Rightarrow> reconcileCluster env img c2)))"
proof (rule emits_then[OF flag_kept_objects(9) yields_writes(1)[OF assms]], goal_cases)
  case f: (1 f)
  show ?case
  proof (cases f)
    case (Inr c1)
    with f have c1: "secured c1 = secured c" by simp
    show ?thesis
      unfolding Inr sum.case c1[symmetric]
    proof (rule emits_then[OF flag_kept_initClusterStatus yields_writes(2)[OF assms]], goal_cases)
      case (1 s)
      then show ?case using flag_kept_reconcileCluster by (cases s) (auto intro: emits_rules simp flip: 1)
    qed
  qed (simp add: emits_rules)
qed

text \<open>A reconcile of a cluster is a read followed by events that keep the flag it read.\<close>

lemma Cluster_Reconcile_keeps:
  assumes "flag_writes env"
  obtains g es where "emitted (Cluster_Reconcile env img ns name) w = GetCluster ns name g # es"
    and "case g of Inl _ \<Rightarrow> es = [] | Inr c \<Rightarrow> list_all (keeps_flag (secured c)) es"
proof -
  obtain g s where g: "get_cluster env ns name (outside w) = (g, s)" by fastforce
  let ?w = "w\<lparr>outside := s, trace := trace w @ [GetCluster ns name g]\<rparr>"
  show ?thesis
  proof (cases g)
    case (Inl e)
    then show ?thesis
      using g by (intro that[of g "[]"]) (simp_all add: emitted_def Cluster_Reconcile_def effect_def)
  next
    case (Inr c)
    define rest where "rest = (if m_DeletionTimestamp (cl_Meta c) \<noteq> None then Cluster_handleDeletion env c
      else ensureClusterFinalizer env c \<bind> (\<lambda>f. case f of
          Inl err \<Rightarrow> return (no_requeue, Some (api_msg err))
        | Inr c1 \<Rightarrow> initClusterStatus env c1 \<bind> (\<lambda>s. case s of
            Inl err \<Rightarrow> return (no_requeue, Some (api_msg err))
          | Inr c2 \<Rightarrow> reconcileCluster env img c2)))"
    have run: "run_state (Cluster_Reconcile env img ns name) w = run_state rest ?w"
      by (simp add: Cluster_Reconcile_def rest_def effect_def g Inr)
    have "emits (keeps_flag (secured c)) rest"
      unfolding rest_def by (intro emits_if flag_kept_objects flag_kept_from_finalizer[OF assms])
    then obtain es where "trace (snd (run_state rest ?w)) = trace ?w @ es" "list_all (keeps_flag (secured c)) es"
      by (rule emitsD) (rule surjective_pairing)
    then show ?thesis by (intro that[of g es]) (simp_all add: emitted_def run Inr)
  qed
qed


subsection \<open>The user controller records the flag only after enabling security\<close>

text \<open>A \<^verbatim>\<open>security enable\<close> that succeeded, or was refused because security is on already.\<close>

definition enabling :: "event \<Rightarrow> bool" where
  "enabling e \<longleftrightarrow> riak_args e = [''security'', ''enable''] \<and>
     (case e of Exec _ r \<Rightarrow> cmd_ok [''security'', ''enable''] (\<lambda>m. Contains m ''already'') r | _ \<Rightarrow> False)"

definition recorded_ok :: "event list \<Rightarrow> event \<Rightarrow> bool" where
  "recorded_ok pre e \<longleftrightarrow> (case e of ClusterStatus c \<Rightarrow> secured c \<and> (\<exists>d \<in> set pre. enabling d) | _ \<Rightarrow> True)"

context composable
begin

lemma run_calm: "emits calm m \<Longrightarrow> wp m (\<lambda>_. reached w (justified J)) w"
  by (rule calm_run) simp_all

lemma run_bind:
  assumes "\<And>w. wp m (\<lambda>_. reached w (justified J)) w" and "\<And>a w. wp (f a) (\<lambda>_. reached w (justified J)) w"
  shows "wp (State_Monad.bind m f) (\<lambda>_. reached w (justified J)) w"
  unfolding wp_bind
proof (rule wp_mono[OF assms(1)])
  fix a w1 assume w1: "reached w (justified J) w1"
  show "wp (f a) (\<lambda>_. reached w (justified J)) w1"
    by (rule wp_mono[OF assms(2)]) (rule reached_append[OF w1])
qed

end

interpretation recording: composable recorded_ok "\<lambda>e. \<not> is_status e"
  by unfold_locales (auto simp: recorded_ok_def split: event.split)

abbreviation records :: "('w, 'a) action \<Rightarrow> bool" where
  "records m \<equiv> \<forall>w. wp m (\<lambda>_. reached w (justified recorded_ok)) w"

lemma records_calm: "emits (\<lambda>e. \<not> is_status e) m \<Longrightarrow> records m"
  by (blast intro: recording.run_calm)

lemma records_bind: "records m \<Longrightarrow> (\<And>a. records (f a)) \<Longrightarrow> records (State_Monad.bind m f)"
  by (blast intro: recording.run_bind)

lemma records_split:
  "records m \<Longrightarrow> records n \<Longrightarrow> records (if b then m else n)"
  "(\<And>a. records (f a)) \<Longrightarrow> (\<And>b. records (g b)) \<Longrightarrow> records (case x of Inl a \<Rightarrow> f a | Inr b \<Rightarrow> g b)"
  "records m \<Longrightarrow> (\<And>b. records (h b)) \<Longrightarrow> records (case y of None \<Rightarrow> m | Some b \<Rightarrow> h b)"
  by (auto split: sum.split option.split)

lemma no_status_rules:
  "emits (\<lambda>e. \<not> is_status e) (failUser env user r m)"
  "emits (\<lambda>e. \<not> is_status e) (reconcileUserCertificate env user ref)"
  "emits (\<lambda>e. \<not> is_status e) (finalizeUser env user)"
  "emits (\<lambda>e. \<not> is_status e) (ensureUserFinalizer env user)"
  "emits (\<lambda>e. \<not> is_status e) (initUserStatus env user)"
  "emits (\<lambda>e. \<not> is_status e) (failMissingRef env user)"
  "emits (\<lambda>e. \<not> is_status e) (markUserReady env user cn ready reason)"
  unfolding failUser_def reconcileUserCertificate_def finalizeUser_def deleteRiakUser_def ensureUserFinalizer_def
    initUserStatus_def failMissingRef_def markUserReady_def updateUserStatus_def Manager_DeleteUser_def Let_def
  by (intro emits_rules; simp)+

lemma no_status_grants: "emits (\<lambda>e. \<not> is_status e) (GrantUserPermissions env cluster u gs)"
  unfolding GrantUserPermissions_def grant_body_def revoke_body_def Let_def by (intro emits_rules) simp_all

lemma no_status_readiness: "emits (\<lambda>e. \<not> is_status e) (userCertificateReadiness env user ref cluster)"
  by (rule emits_mono[OF emits_userCertificateReadiness]) (auto elim: is_read.elims)

lemma no_status_provisionUser: "emits (\<lambda>e. \<not> is_status e) (provisionUser env user ref cluster)"
  unfolding provisionUser_def Manager_CreateUserForCert_def Manager_AddSecuritySource_def Let_def
  by (intro emits_rules no_status_rules no_status_grants no_status_readiness emits_certRequeue) simp_all

lemma enabling_cmd: "cmd_ok [''security'', ''enable''] (\<lambda>m. Contains m ''already'') r \<Longrightarrow> enabling (enable_cmd n pod r)"
  by (simp add: enabling_def)

lemma records_secureAndProvision: "records (secureAndProvision env user ref cluster)"
proof (cases "secured cluster")
  case True
  then show ?thesis by (simp add: secureAndProvision_def records_calm[OF no_status_provisionUser])
next
  case False
  have stop: "wp (failUser env user r msg \<bind> (\<lambda>_. return x)) (\<lambda>_. reached w (justified recorded_ok)) w1"
    if "trace w1 = trace w @ es" "list_all (\<lambda>e. \<not> is_status e) es" for r msg x w w1 es
    by (rule recording.calm_run, intro emits_rules no_status_rules)
      (rule recording.calm_more[OF reached_self that], simp)
  show ?thesis
  proof (intro allI)
    fix w :: "'a world"
    let ?c = "cluster\<lparr>cl_Status := (cl_Status cluster)\<lparr>clt_SecurityEnabled := True\<rparr>\<rparr>"
    show "wp (secureAndProvision env user ref cluster) (\<lambda>_. reached w (justified recorded_ok)) w"
      unfolding secureAndProvision_def if_not_P[OF False] Let_def wp_bind[of "Manager_EnableSecurity env cluster"]
    proof (rule wp_Manager_EnableSecurity, goal_cases)
      case (1 e)
      show ?case unfolding option.case by (rule stop[of _ _ "[]"]) simp_all
    next
      case (2 m ms e r w1)
      show ?case unfolding option.case by (rule stop[OF 2(2)]) simp
    next
      case (3 m ms r w1)
      let ?e = "enable_cmd (cl_Namespace cluster) (nm_Pod m) r"
      have ok: "recorded_ok [?e] (ClusterStatus ?c)" using enabling_cmd[OF 3(3)] by (simp add: recorded_ok_def)
      show ?case
        unfolding option.case wp_bind
      proof (rule wp_effect_any, goal_cases)
        case (1 a w2)
        have "justified recorded_ok ([?e] @ [ClusterStatus ?c])"
          unfolding justified_snoc using ok by (simp add: recorded_ok_def)
        then have "reached w (justified recorded_ok) w2" using 1 3(2) by (auto simp: reached_def)
        then show ?case
          by (cases a) (simp_all add: recording.calm_run[OF no_status_provisionUser])
      qed
    qed
  qed
qed

lemma records_userOnCluster: "records (userOnCluster env user ref)"
proof -
  have get: "emits (\<lambda>e. \<not> is_status e) (effect (GetCluster ns n) f)" for ns n and f :: "'a \<Rightarrow> _"
    by (intro emits_rules) simp
  have waiting: "emits (\<lambda>e. \<not> is_status e) (setCondition env cs t ok gen r m \<bind> (\<lambda>(conds, changed).
      (if changed then updateUserStatus env (u conds) else return (Inr user)) \<bind> (\<lambda>_. return x)))" for cs t ok gen r m u x
    unfolding updateUserStatus_def by (intro emits_rules) simp
  show ?thesis
    unfolding userOnCluster_def Let_def
    by (intro records_bind records_split records_secureAndProvision records_calm[OF get] records_calm[OF waiting]
        records_calm[OF no_status_rules(2)])
      (intro records_calm emits_rules no_status_rules)+
qed

lemma User_Reconcile_records: "justified recorded_ok (emitted (User_Reconcile env ns name) w)"
proof -
  have get: "emits (\<lambda>e. \<not> is_status e) (effect (\<lambda>_. Get KUser ns n) f)" for ns n and f :: "'a \<Rightarrow> _"
    by (intro emits_rules) simp
  have "records (User_Reconcile env ns name)"
    unfolding User_Reconcile_def
    by (intro records_bind records_split records_userOnCluster records_calm[OF get] records_calm[OF no_status_rules(3)]
        records_calm[OF no_status_rules(4)] records_calm[OF no_status_rules(5)] records_calm[OF no_status_rules(6)])
      (intro records_calm emits_rules)+
  then have "wp (User_Reconcile env ns name) (\<lambda>_. reached w (justified recorded_ok)) w" by blast
  from wp_emitted(1)[OF this] show ?thesis by (metis prod.collapse)
qed

subsection \<open>Interleaved runs on one API server\<close>

text \<open>
  The API server keeps the history of the flag, one entry for each version of the cluster; the last is the current one. A
  worker is a controller busy with one reconcile: the events of its run that are still to come, and the version of the cluster
  it holds. A read may be stale: it returns any version. A write of the status or of the object succeeds only if the
  worker holds the current version, and may be refused for any other reason.
\<close>

record server =
  sv_flags :: "bool list"
  sv_enabled :: bool
  sv_todo :: "nat \<Rightarrow> event list"
  sv_held :: "nat \<Rightarrow> nat"

definition todo_tail :: "nat \<Rightarrow> event list \<Rightarrow> server \<Rightarrow> server" where
  "todo_tail i es s = s\<lparr>sv_todo := (sv_todo s)(i := es)\<rparr>"

definition push_flag :: "nat \<Rightarrow> bool \<Rightarrow> server \<Rightarrow> server" where
  "push_flag i b s = s\<lparr>sv_flags := sv_flags s @ [b], sv_held := (sv_held s)(i := length (sv_flags s))\<rparr>"

definition holds_current :: "nat \<Rightarrow> server \<Rightarrow> bool" where
  "holds_current i s \<longleftrightarrow> Suc (sv_held s i) = length (sv_flags s)"

fun touches :: "event \<Rightarrow> bool" where
  "touches (GetCluster ns n (Inr c)) = True"
| "touches (ClusterStatus c) = True"
| "touches (Update k ns n) = (k = KCluster)"
| "touches _ = False"

inductive interleaved :: "'w env set \<Rightarrow> string \<Rightarrow> string \<Rightarrow> server \<Rightarrow> server \<Rightarrow> bool" for envs ns name where
  cluster_run: "env \<in> envs \<Longrightarrow> sv_todo s i = [] \<Longrightarrow>
    interleaved envs ns name s (todo_tail i (emitted (Cluster_Reconcile env img ns name) w) s)"
| user_run: "env \<in> envs \<Longrightarrow> sv_todo s i = [] \<Longrightarrow> es = emitted (User_Reconcile env ns u) w \<Longrightarrow>
    (\<And>ns' n' c. GetCluster ns' n' (Inr c) \<in> set es \<Longrightarrow> ns' = ns \<and> n' = name) \<Longrightarrow>
    interleaved envs ns name s (todo_tail i es s)"
| read: "sv_todo s i = GetCluster ns name (Inr c) # es \<Longrightarrow> v < length (sv_flags s) \<Longrightarrow> sv_flags s ! v = secured c \<Longrightarrow>
    interleaved envs ns name s (todo_tail i es (s\<lparr>sv_held := (sv_held s)(i := v)\<rparr>))"
| status: "sv_todo s i = ClusterStatus c # es \<Longrightarrow> holds_current i s \<Longrightarrow>
    interleaved envs ns name s (todo_tail i es (push_flag i (secured c) s))"
| update: "sv_todo s i = Update KCluster ns name # es \<Longrightarrow> holds_current i s \<Longrightarrow>
    interleaved envs ns name s (todo_tail i es (push_flag i (last (sv_flags s)) s))"
| refused: "sv_todo s i = e # es \<Longrightarrow> e = ClusterStatus c \<or> e = Update KCluster ns' n' \<Longrightarrow>
    interleaved envs ns name s (todo_tail i es s)"
| other: "sv_todo s i = e # es \<Longrightarrow> \<not> touches e \<Longrightarrow>
    interleaved envs ns name s (todo_tail i es (s\<lparr>sv_enabled := sv_enabled s \<or> enabling e\<rparr>))"

definition new_server :: server where
  "new_server = \<lparr>sv_flags = [False], sv_enabled = False, sv_todo = (\<lambda>_. []), sv_held = (\<lambda>_. 0)\<rparr>"

abbreviation reachable :: "'w env set \<Rightarrow> string \<Rightarrow> string \<Rightarrow> server \<Rightarrow> bool" where
  "reachable envs ns name \<equiv> (interleaved envs ns name)\<^sup>*\<^sup>* new_server"

text \<open>
  What is left of a run is safe to go on with: each status it still writes keeps the flag the worker holds (\<open>base\<close>), or sets it
  when security has been enabled by then.
\<close>

fun pending_ok :: "bool \<Rightarrow> bool \<Rightarrow> event list \<Rightarrow> bool" where
  "pending_ok base en [] = True"
| "pending_ok base en (e # es) =
     (case e of
        ClusterStatus c \<Rightarrow> (secured c = base \<or> secured c \<and> en) \<and> pending_ok (secured c) en es
      | GetCluster ns n g \<Rightarrow> (case g of Inl _ \<Rightarrow> pending_ok base en es | Inr c \<Rightarrow> pending_ok (secured c) en es)
      | _ \<Rightarrow> pending_ok base (en \<or> enabling e) es)"

lemma pending_keeps: "list_all (keeps_flag f) es \<Longrightarrow> pending_ok f en es"
  by (induction es arbitrary: en) (auto split: event.split)

lemma pending_recorded:
  "(\<And>pre c post. es = pre @ ClusterStatus c # post \<Longrightarrow> secured c \<and> (en \<or> (\<exists>d \<in> set pre. enabling d))) \<Longrightarrow> pending_ok base en es"
proof (induction es arbitrary: base en)
  case (Cons e es)
  have rest: "secured c \<and> ((en \<or> enabling e) \<or> (\<exists>d \<in> set pre. enabling d))" if "es = pre @ ClusterStatus c # post" for pre c post
    using Cons.prems[of "e # pre" c post] that by auto
  have first: "secured c \<and> en" if "e = ClusterStatus c" for c
    using Cons.prems[of "[]" c es] that by simp
  have quiet: "\<not> enabling e" if "\<not> is_exec e" using that by (cases e) (auto simp: enabling_def)
  show ?case
    using Cons.IH[OF rest] first quiet by (auto split: event.split sum.split)
qed simp

lemma pending_mono: "pending_ok base en es \<Longrightarrow> (en \<Longrightarrow> en') \<Longrightarrow> pending_ok base en' es"
proof (induction es arbitrary: base en en')
  case (Cons e es)
  have step: "pending_ok b n es \<Longrightarrow> (n \<Longrightarrow> n') \<Longrightarrow> pending_ok b n' es" for b n n' by (rule Cons.IH)
  show ?case
  proof (cases e)
    case (GetCluster ns n g)
    with Cons.prems show ?thesis by (cases g) (auto intro: step)
  next
    case (ClusterStatus c)
    with Cons.prems show ?thesis by (auto intro: step)
  qed (use Cons.prems in \<open>auto intro: step\<close>)
qed simp


lemma pending_rebase: "pending_ok b en es \<Longrightarrow> b = base \<or> b \<and> en \<Longrightarrow> pending_ok base en es"
proof (induction es arbitrary: en)
  case (Cons e es)
  have step: "pending_ok b n es \<Longrightarrow> (en \<Longrightarrow> n) \<Longrightarrow> pending_ok base n es" for n
    using Cons.IH Cons.prems(2) by blast
  show ?case
  proof (cases e)
    case (GetCluster ns n g)
    with Cons.prems show ?thesis by (cases g) (auto intro: step)
  next
    case (ClusterStatus c)
    with Cons.prems show ?thesis by auto
  qed (use Cons.prems in \<open>auto intro: step\<close>)
qed simp

lemma pending_cluster:
  assumes "flag_writes env" shows "pending_ok base en (emitted (Cluster_Reconcile env img ns name) w)"
proof -
  obtain g es where "emitted (Cluster_Reconcile env img ns name) w = GetCluster ns name g # es"
      "case g of Inl _ \<Rightarrow> es = [] | Inr c \<Rightarrow> list_all (keeps_flag (secured c)) es"
    using Cluster_Reconcile_keeps[OF assms] by blast
  then show ?thesis by (cases g) (auto intro: pending_keeps)
qed

lemma pending_user: "pending_ok base en (emitted (User_Reconcile env ns u) w)"
proof (rule pending_recorded)
  fix pre c post assume "emitted (User_Reconcile env ns u) w = pre @ ClusterStatus c # post"
  from justifiedD[OF User_Reconcile_records[of env ns u w, unfolded this]]
  show "secured c \<and> (en \<or> (\<exists>d \<in> set pre. enabling d))" by (simp add: recorded_ok_def)
qed

text \<open>The flag never goes back, it is recorded only once security is enabled, and every worker can go on safely.\<close>

definition server_ok :: "server \<Rightarrow> bool" where
  "server_ok s \<longleftrightarrow> sorted (sv_flags s) \<and> sv_flags s \<noteq> [] \<and> (last (sv_flags s) \<longrightarrow> sv_enabled s) \<and>
     (\<forall>i. sv_held s i < length (sv_flags s) \<and> pending_ok (sv_flags s ! sv_held s i) (sv_enabled s) (sv_todo s i))"

lemma server_okD:
  assumes "server_ok s"
  shows "sorted (sv_flags s)" "sv_flags s \<noteq> []" "last (sv_flags s) \<Longrightarrow> sv_enabled s" "sv_held s i < length (sv_flags s)"
    "pending_ok (sv_flags s ! sv_held s i) (sv_enabled s) (sv_todo s i)"
  using assms by (auto simp: server_ok_def)

lemma holds_current_last: "holds_current i s \<Longrightarrow> sv_flags s ! sv_held s i = last (sv_flags s)"
  unfolding holds_current_def by (metis diff_Suc_1 last_conv_nth length_greater_0_conv zero_less_Suc)

lemma server_ok_tail:
  assumes "server_ok s" and "pending_ok (sv_flags s ! sv_held s i) (sv_enabled s) es" shows "server_ok (todo_tail i es s)"
  using assms by (simp add: server_ok_def todo_tail_def)

lemma server_ok_push:
  assumes "server_ok s" and "holds_current i s" and "b = sv_flags s ! sv_held s i \<or> b \<and> sv_enabled s"
    and "pending_ok b (sv_enabled s) es"
  shows "server_ok (todo_tail i es (push_flag i b s))"
proof -
  note ok = server_okD[OF assms(1)]
  note current = holds_current_last[OF assms(2)]
  have "last (sv_flags s) \<le> b" "b \<longrightarrow> sv_enabled s" using assms(3) ok(3) unfolding current by auto
  moreover have "x \<le> last (sv_flags s)" if "x \<in> set (sv_flags s)" for x
    using ok(1,2) that by (metis append_butlast_last_id in_set_conv_decomp sorted_append set_append Un_iff empty_iff empty_set
        order_refl set_ConsD list.set_intros(1))
  ultimately have "sorted (sv_flags s @ [b])" using ok(1) by (auto simp: sorted_append intro: order_trans)
  moreover have "(sv_flags s @ [b]) ! sv_held s j = sv_flags s ! sv_held s j" for j
    using ok(4) by (simp add: nth_append)
  ultimately show ?thesis
    using assms(4) ok(4,5) \<open>b \<longrightarrow> sv_enabled s\<close>
    by (auto simp: server_ok_def todo_tail_def push_flag_def less_Suc_eq)
qed

lemma interleaved_ok:
  assumes "\<And>env. env \<in> envs \<Longrightarrow> flag_writes env" and "interleaved envs ns name s s'" and "server_ok s"
  shows "server_ok s'"
  using assms(2,3)
proof (induction rule: interleaved.induct)
  case (cluster_run env s i img w)
  then show ?case by (intro server_ok_tail pending_cluster assms(1))
next
  case (user_run env s i es u w)
  then show ?case by (simp add: server_ok_tail pending_user)
next
  case (read s i c es v)
  then show ?case using server_okD(5)[OF read(4), of i] by (simp add: server_ok_def todo_tail_def)
next
  case (status s i c es)
  then show ?case using server_okD(5)[OF status(3), of i] by (intro server_ok_push) simp_all
next
  case (update s i es)
  have "\<not> enabling (Update KCluster ns name)" by (simp add: enabling_def)
  then show ?case
    using update holds_current_last[OF update(2)] server_okD(5)[OF update(3), of i] by (intro server_ok_push) simp_all
next
  case (refused s i e es c ns' n')
  have "\<not> enabling (Update KCluster ns' n')" by (simp add: enabling_def)
  then show ?case
    using refused(2) server_okD(5)[OF refused(3), of i] unfolding refused(1)
    by (intro server_ok_tail[OF refused(3)]) (auto intro: pending_rebase)
next
  case (other s i e es)
  have "pending_ok (sv_flags s ! sv_held s i) (sv_enabled s \<or> enabling e) es"
    using other(2) server_okD(5)[OF other(3), of i] unfolding other(1)
    by (cases e) (auto simp: enabling_def split: sum.splits)
  then show ?case using other(3) by (auto simp: server_ok_def todo_tail_def intro: pending_mono)
qed

lemma new_server_ok: "server_ok new_server"
  by (simp add: server_ok_def new_server_def)

lemma reachable_ok:
  assumes "\<And>env. env \<in> envs \<Longrightarrow> flag_writes env" and "reachable envs ns name s" shows "server_ok s"
  using assms(2) by (induction rule: rtranclp_induct) (auto intro: interleaved_ok[OF assms(1)] new_server_ok)

text \<open>
  C7: the security flag of a cluster is sound and is never lost. However the runs of the cluster controller and of the controllers of
  the cluster's users interleave on an API server with optimistic concurrency, with reads that may be stale and writes that may
  be refused, the history of the flag \<^verbatim>\<open>securityEnabled\<close> never goes from true back to false, although the cluster controller writes
  the whole status each time; and the flag is true only when \<^verbatim>\<open>riak-admin security enable\<close> has succeeded before.
\<close>

theorem security_flag_sticks:
  assumes "\<And>env. env \<in> envs \<Longrightarrow> flag_writes env" and "(interleaved envs ns name)\<^sup>*\<^sup>* new_server s"
  shows "(\<forall>u v. u \<le> v \<and> v < length (sv_flags s) \<and> sv_flags s ! u \<longrightarrow> sv_flags s ! v) \<and> (True \<in> set (sv_flags s) \<longrightarrow> sv_enabled s)"
proof -
  note ok = server_okD[OF reachable_ok[OF assms]]
  have mono: "sv_flags s ! v" if "u \<le> v" "v < length (sv_flags s)" "sv_flags s ! u" for u v
    using sorted_nth_mono[OF ok(1) that(1,2)] that(3) by simp
  have "sv_enabled s" if "True \<in> set (sv_flags s)"
  proof -
    from that obtain u where "u < length (sv_flags s)" "sv_flags s ! u" by (auto simp: in_set_conv_nth)
    then have "last (sv_flags s)" using mono[of u "length (sv_flags s) - 1"] ok(2) by (simp add: last_conv_nth)
    with ok(3) show ?thesis by blast
  qed
  with mono show ?thesis by blast
qed


subsection \<open>A run that records the flag\<close>

text \<open>
  The history of the flag after one worker, which holds version \<open>h\<close>, has played its run alone: it reads the current version, and its
  status writes succeed.
\<close>

fun play :: "string \<Rightarrow> string \<Rightarrow> bool list \<Rightarrow> nat \<Rightarrow> event list \<Rightarrow> bool list option" where
  "play ns name flags h [] = Some flags"
| "play ns name flags h (e # es) =
     (case e of
        GetCluster ns' n (Inr c) \<Rightarrow>
          if ns' = ns \<and> n = name \<and> last flags = secured c then play ns name flags (length flags - 1) es else None
      | ClusterStatus c \<Rightarrow>
          if Suc h = length flags then play ns name (flags @ [secured c]) (length flags) es else None
      | _ \<Rightarrow> if touches e then None else play ns name flags h es)"

lemma play_step:
  assumes "play ns name (sv_flags s) (sv_held s i) (e # es) = Some fs" and "sv_todo s i = e # es" and "sv_flags s \<noteq> []"
  obtains s1 where "interleaved envs ns name s s1" "sv_todo s1 i = es" "sv_flags s1 \<noteq> []"
    "play ns name (sv_flags s1) (sv_held s1 i) es = Some fs"
proof -
  note goal = that
  have other: thesis if "\<not> touches e" "play ns name (sv_flags s) (sv_held s i) es = Some fs"
    by (rule goal[OF interleaved.other[OF assms(2) that(1)]]) (use that assms(3) in \<open>simp_all add: todo_tail_def\<close>)
  show ?thesis
  proof (cases e)
    case (GetCluster ns' n g)
    show ?thesis
    proof (cases g)
      case (Inr c)
      with assms(1,3) GetCluster have c: "sv_flags s ! (length (sv_flags s) - 1) = secured c" "ns' = ns" "n = name"
          and more: "play ns name (sv_flags s) (length (sv_flags s) - 1) es = Some fs"
        by (auto simp: last_conv_nth split: if_splits)
      show ?thesis
        by (rule goal[OF interleaved.read[where v = "length (sv_flags s) - 1" and c = c and i = i and es = es]])
          (use assms(2,3) GetCluster Inr c more in \<open>simp_all add: todo_tail_def\<close>)
    qed (use other assms(1) GetCluster in simp)
  next
    case (ClusterStatus c)
    with assms show ?thesis
      by (intro goal[OF interleaved.status[where c = c and i = i and es = es]])
        (auto simp: todo_tail_def push_flag_def holds_current_def split: if_splits)
  qed (use other assms(1) in \<open>auto split: if_splits\<close>)
qed

lemma play_reaches:
  "play ns name (sv_flags s) (sv_held s i) es = Some fs \<Longrightarrow> sv_todo s i = es \<Longrightarrow> sv_flags s \<noteq> [] \<Longrightarrow>
   \<exists>s'. (interleaved envs ns name)\<^sup>*\<^sup>* s s' \<and> sv_flags s' = fs"
proof (induction es arbitrary: s)
  case (Cons e es)
  obtain s1 where "interleaved envs ns name s s1" "sv_todo s1 i = es" "sv_flags s1 \<noteq> []"
      "play ns name (sv_flags s1) (sv_held s1 i) es = Some fs"
    using play_step[OF Cons.prems] by blast
  with Cons.IH show ?case by (blast intro: converse_rtranclp_into_rtranclp)
qed auto

lemma play_quiet:
  "list_all (\<lambda>e. \<not> touches e) fs \<Longrightarrow> play ns name flags h (es @ fs) = play ns name flags h es"
proof (induction es arbitrary: flags h)
  case Nil
  then show ?case
  proof (induction fs)
    case (Cons e fs)
    then show ?case by (cases e rule: touches.cases) auto
  qed simp
next
  case (Cons e es)
  then show ?case by (simp split: event.split sum.split)
qed

lemma quiet_provisionUser: "emits (\<lambda>e. \<not> touches e) (provisionUser env user ref cluster)"
proof -
  have "emits (\<lambda>e. \<not> touches e) (failUser env user r m)" "emits (\<lambda>e. \<not> touches e) (markUserReady env user cn b r)" for r m cn b
    unfolding failUser_def markUserReady_def updateUserStatus_def Let_def by (intro emits_rules; simp)+
  moreover have "emits (\<lambda>e. \<not> touches e) (GrantUserPermissions env cluster u gs)" for u gs
    unfolding GrantUserPermissions_def grant_body_def revoke_body_def Let_def by (intro emits_rules) simp_all
  moreover have "emits (\<lambda>e. \<not> touches e) (buildTrustBundle env cluster)"
    unfolding buildTrustBundle_def ca_body_def readTrustedCA_def Let_def by (intro emits_rules) simp_all
  then have "emits (\<lambda>e. \<not> touches e) (userCertificateReadiness env user ref cluster)"
    unfolding userCertificateReadiness_def externalCertificateReadiness_def fetchCertificateReadiness_def Let_def
    by (intro emits_rules) simp_all
  ultimately show ?thesis
    unfolding provisionUser_def Manager_CreateUserForCert_def Manager_AddSecuritySource_def Let_def
    by (intro emits_rules emits_certRequeue) simp_all
qed

abbreviation first_env :: "unit env" where "first_env \<equiv> user_env alice ready_cluster (Inr ''ok'')"

abbreviation on_first :: RiakCluster where
  "on_first \<equiv> ready_cluster\<lparr>cl_Status := (cl_Status ready_cluster)\<lparr>clt_SecurityEnabled := True\<rparr>\<rparr>"

lemma first_enable:
  "run_state (Manager_EnableSecurity first_env ready_cluster) w =
    (None, w\<lparr>trace := trace w @ [enable_cmd ''ns'' (nm_Pod (hd (clt_Members (cl_Status ready_cluster)))) (Inr ''ok'')]\<rparr>)"
proof -
  have "cl_Namespace ready_cluster = ''ns''" "\<not> riakAdminFailed ''ok''" by code_simp+
  moreover obtain m ms where "clt_Members (cl_Status ready_cluster) = m # ms" by (simp add: ready_cluster_def)
  ultimately show ?thesis
    by (simp add: Manager_EnableSecurity_def on_first_member_def enable_security.run_cmd run_ExecuteRiakAdmin admin_result_def
        user_env_def)
qed

lemma first_run:
  obtains es where "emitted (User_Reconcile first_env ''ns'' ''alice'') (start ()) = trace (before_riak ready_cluster) @
      [enable_cmd ''ns'' (nm_Pod (hd (clt_Members (cl_Status ready_cluster)))) (Inr ''ok''), ClusterStatus on_first] @ es"
    and "list_all (\<lambda>e. \<not> touches e) es"
proof -
  have ready: "clt_Phase (cl_Status ready_cluster) = PhaseReady" "\<not> secured ready_cluster"
    by (simp_all add: ready_cluster_def sample_status_def)
  let ?w = "\<lparr>outside = (), trace = trace (before_riak ready_cluster) @
    [enable_cmd ''ns'' (nm_Pod (hd (clt_Members (cl_Status ready_cluster)))) (Inr ''ok''), ClusterStatus on_first]\<rparr>"
  have "status_cluster first_env c () = (Inr c, ())" for c by (simp add: user_env_def sample_env_def)
  then have "run_state (User_Reconcile first_env ''ns'' ''alice'') (start ()) = run_state (provisionUser first_env alice issuer_cert on_first) ?w"
    unfolding alice_reaches_riak[OF ready(1)] secureAndProvision_def if_not_P[OF ready(2)]
    by (simp add: first_enable effect_def before_riak_def Let_def)
  moreover obtain es where "trace (snd (run_state (provisionUser first_env alice issuer_cert on_first) ?w)) = trace ?w @ es"
      "list_all (\<lambda>e. \<not> touches e) es"
    using quiet_provisionUser by (rule emitsD) (rule surjective_pairing)
  ultimately show ?thesis by (intro that[of es]) (simp_all add: emitted_def)
qed

theorem security_flag_sticks_witness:
  "\<exists>s. (interleaved {user_env alice ready_cluster (Inr ''ok'')} ''ns'' ''c'')\<^sup>*\<^sup>* new_server s \<and>
     sv_flags s = [False, True] \<and> sv_enabled s"
proof -
  obtain es where run: "emitted (User_Reconcile first_env ''ns'' ''alice'') (start ()) = trace (before_riak ready_cluster) @
      [enable_cmd ''ns'' (nm_Pod (hd (clt_Members (cl_Status ready_cluster)))) (Inr ''ok''), ClusterStatus on_first] @ es"
      (is "_ = ?run") and es: "list_all (\<lambda>e. \<not> touches e) es"
    by (rule first_run)
  let ?s0 = "todo_tail 0 ?run new_server"
  have laws: "flag_writes env" if "env \<in> {first_env}" for env
    using that by (auto simp: flag_writes_def user_env_def sample_env_def)
  have "\<not> secured ready_cluster" by (simp add: ready_cluster_def sample_status_def)
  then have "play ''ns'' ''c'' [False] 0 ?run = Some [False, True]"
    unfolding append_assoc[symmetric] play_quiet[OF es] by (simp add: before_riak_def)
  then obtain s where s: "(interleaved {first_env} ''ns'' ''c'')\<^sup>*\<^sup>* ?s0 s" "sv_flags s = [False, True]"
    using play_reaches[of "''ns''" "''c''" ?s0 0 ?run] by (auto simp: todo_tail_def new_server_def)
  have "ns' = ''ns'' \<and> n' = ''c''" if "GetCluster ns' n' (Inr c) \<in> set ?run" for ns' n' c
    using that es by (auto simp: before_riak_def list_all_iff)
  then have "interleaved {first_env} ''ns'' ''c'' new_server ?s0"
    by (intro interleaved.user_run[OF _ _ run[symmetric]]) (auto simp: new_server_def)
  then have "(interleaved {first_env} ''ns'' ''c'')\<^sup>*\<^sup>* new_server s" by (rule converse_rtranclp_into_rtranclp[OF _ s(1)])
  with security_flag_sticks[OF laws this] s(2) show ?thesis by auto
qed

end
