(* ===== verification/Spec2Isabelle.thy ===== *)
theory Spec2Isabelle
  imports Main_Program Deep_Copy Cluster_Liveness User_Liveness Security_Flag
begin

text \<open>
  A verification of the openriak operator: a Kubernetes operator in Go that runs Riak clusters, and the users and bucket
  types on them. File names below are under \<^verbatim>\<open>src/\<close>.

  \<^bold>\<open>The program.\<close> Three controllers reconcile three custom resources (\<^verbatim>\<open>api/v1\<close>). The cluster controller writes the objects of a
  cluster (a cert-manager Certificate, a trust Secret, an exporter ConfigMap, the StatefulSet, two Services, a disruption
  budget, a PodMonitor or ServiceMonitor), drives rolling restarts one node at a time, forms the Riak ring from the
  pods, and writes the cluster's status. The user and bucket controllers wait for a ready cluster and then run \<^verbatim>\<open>riak-admin\<close> in its
  first pod. All commands go through the executor (\<^verbatim>\<open>internal/riak/executor.go\<close>, \<^verbatim>\<open>kubectl exec\<close>) and the manager
  (\<^verbatim>\<open>internal/riak/manager.go\<close>) above it. \<^verbatim>\<open>cmd/main.go\<close> sets the controllers up; a collector reports the resources as metrics.

  \<^bold>\<open>How code becomes definitions.\<close> An operation with effects is an action of the state monad over a world: an
  arbitrary outside, and the trace of the events so far (\<open>World\<close>). Everything the operator calls that is not in this repository (the API
  server, the \<^verbatim>\<open>kubectl\<close> runner, the clock, the helpers of controller-runtime, PEM, X.509 and JSON) is a field of the
  record \<open>env\<close>, an argument of the definitions: its replies are arbitrary unless a theorem names a law it relies on. A
  read records its reply in the trace, so that a theorem can speak of what the operator had seen before it acted. Go's
  errors are \<open>error option\<close> and \<open>error + 'a\<close>; early returns are branches; an object changed in place is returned; a loop with
  early returns is \<open>for_each\<close>; \<^verbatim>\<open>int32\<close> arithmetic wraps (\<open>i32\<close>); times are nanoseconds; a Go map is an
  association list, its iteration order being the order of the list or, where it reaches the output, an argument. A
  long Go function is split where its control flow allows, in the order of the code.

  \<^bold>\<open>The theories.\<close>
  \<^item> \<open>Prelude\<close>: weakest preconditions for the monad, loops, 32-bit integers, and the locale \<open>first_seen\<close> of loops that keep the
    first occurrence of a key. \<open>Go_Strings\<close>: what the code uses of \<^verbatim>\<open>strings\<close>, \<^verbatim>\<open>strconv\<close> and \<^verbatim>\<open>fmt\<close>.
  \<^item> \<open>K8s_Types\<close>, \<open>Api_Types\<close>: the Kubernetes objects with the fields used, and the custom resources of \<^verbatim>\<open>api/v1\<close>.
  \<^item> \<open>World\<close>: the environment, events, what an action may emit (\<open>emits\<close>), and the locales \<open>justification\<close> and \<open>composable\<close> of
    safety arguments about traces, interpreted for buckets (\<open>ready_ok\<close>), users (\<open>user_ok\<close>), clusters (\<open>cluster_ok\<close>)
    and the security flag (\<open>recorded_ok\<close>).
  \<^item> \<open>Executor\<close>, \<open>Manager\<close>: \<^verbatim>\<open>internal/riak\<close>; the locale \<open>single_command\<close> is the contract of the commands that are one
    \<^verbatim>\<open>riak-admin\<close> call, and is interpreted for each of them. Shown: when a command counts as successful, round trips of the parsers of
    \<^verbatim>\<open>riak-admin\<close> output, which commands a bucket type takes, that joining is safe and what "formed" means, and that grants
    converge to the specification.
  \<^item> \<open>Status\<close>, \<open>Rollout\<close>: \<^verbatim>\<open>status.go\<close> and \<^verbatim>\<open>rollout.go\<close>. Shown: the partition protects nodes, a node is restarted
    only in a settled cluster, stall detection; and for the interleaving of the operator, the StatefulSet controller and the nodes (an
    inductive step relation over \<open>rolloutNext\<close>) that one node at a time is down and that every rollout completes.
  \<^item> \<open>Tls\<close>: \<^verbatim>\<open>tls.go\<close> and \<^verbatim>\<open>trust.go\<close>. Shown: the trust bundle is the set of the configured certificates, reads back, and
    its Secret converges in a store of Secrets; an external certificate is accepted only if the cluster trusts it.
  \<^item> \<open>Bucket_Controller\<close>, \<open>User_Controller\<close>: the whole reconciles. Shown: \<^verbatim>\<open>Ready\<close> is written only after the work in Riak is
    done, failures are retried, security is enabled once, deletion cleans up and never blocks for good.
  \<^item> \<open>Monitoring\<close>, \<open>Cluster_Controller\<close>: \<^verbatim>\<open>monitoring.go\<close> and \<^verbatim>\<open>riakcluster_controller.go\<close>. Shown: at most one kind of scrape object, well-formed
    StatefulSets and Services that do not depend on map order, and a status that reflects the pods.
  \<^item> \<open>Ring_Formation\<close>, \<open>Cluster_Liveness\<close>, \<open>User_Liveness\<close>: what the operator brings about when its surroundings cooperate. The laws of Riak
    (\<open>riak_laws\<close>: what \<^verbatim>\<open>member-status\<close>, \<^verbatim>\<open>join\<close>, \<^verbatim>\<open>plan\<close> and \<^verbatim>\<open>commit\<close> do to a ring) are hypotheses, and a simulated Riak obeys them. Shown: ring
    formation converges, a cluster with all its pods up is reported \<^verbatim>\<open>Ready\<close>, and so is a user on a ready cluster. The locale
    \<open>kept_relation\<close> carries a relation between worlds through the parts of a status update, and is interpreted (\<open>ring\<close>) for "the ring
    has not changed".
  \<^item> \<open>Security_Flag\<close>: the status flag shared by the cluster and user controllers, and their runs interleaved on an API server with
    versions (an inductive step relation over the events of real runs). Shown: the flag is never lost and never premature.
  \<^item> \<open>Go_Memory\<close>, \<open>Deep_Copy\<close>: \<^verbatim>\<open>zz_generated.deepcopy.go\<close> over a memory of cells, with pointers, slices and maps. Shown: each copy reads as the
    original and shares no cell with it. This is what allows objects to be immutable values in all other theories.
  \<^item> \<open>Metrics\<close>, \<open>Main_Program\<close>: \<^verbatim>\<open>metrics.go\<close> and \<^verbatim>\<open>cmd/main.go\<close>. Shown: a scrape has no duplicate series and true counts; the
    manager starts only after all of its setup.
  \<^item> This theory: a whole reconcile of a cluster, composed of the parts above.

  \<^bold>\<open>Bounds and fuel.\<close> All definitions are total. The PEM loop runs on fuel, the length of its input: every block read shortens
  the input (a documented law of the decoder), so the fuel is never what ends it. \<open>compactOutput\<close> bounds output to 303 bytes.

  \<^bold>\<open>Where the code and its intent part.\<close> \<open>ReconcileMembership_counts_strangers\<close>, \<open>User_deletion_leaves_identity\<close>,
  \<open>bucket_named_any_widens\<close> and \<open>stranger_keeps_cluster_creating\<close> are runs in which the code does not do what its comments say;
  \<open>stsPartition_protects\<close> shows which nodes a second change in the middle of a rollout exposes.

  \<^bold>\<open>Not modelled.\<close> Logging; the watch and work-queue machinery of controller-runtime (a requeue is a result, its delay is
  not simulated) and concurrent reconciles of one object, which it excludes; contexts and their timeouts; the parsing of the
  command line; the metrics registry; \<^verbatim>\<open>groupversion_info.go\<close> and the \<^verbatim>\<open>init\<close> functions (registration); constructors that only store their
  arguments, and the function that starts the \<^verbatim>\<open>kubectl\<close> process (the runner is a parameter). The load and soak harness under \<^verbatim>\<open>test/\<close> and
  the example client are not part of the operator. Numbers of samples are integers, exact in a \<^verbatim>\<open>float64\<close>.
\<close>

section \<open>A reconcile of a cluster as a whole\<close>

subsection \<open>What each part may emit\<close>

text \<open>
  What must be justified in a whole run: lowering the partition of the StatefulSet (restarting a node), reporting the
  cluster \<^verbatim>\<open>Ready\<close>, and writing the StatefulSet at all.
\<close>

definition storage_known :: "RiakCluster \<Rightarrow> event list \<Rightarrow> bool" where
  "storage_known cluster pre \<longleftrightarrow>
     (\<exists>g. GetSts (cl_Namespace cluster) (cl_Name cluster) g \<in> set pre \<and>
        (case g of
           Inl err \<Rightarrow> IsNotFound err
         | Inr sts \<Rightarrow> hasDataVolumeClaim (ss_VolumeClaimTemplates (s_Spec sts)) = (\<not> cls_EphemeralStorage (cl_Spec cluster))))"

definition cluster_ok :: "RiakCluster \<Rightarrow> event list \<Rightarrow> event \<Rightarrow> bool" where
  "cluster_ok cluster pre e \<longleftrightarrow> patch_ok cluster pre e \<and>
     (case e of
        ClusterStatus c \<Rightarrow> clt_Phase (cl_Status c) = PhaseReady \<longrightarrow> status_ok cluster pre e
      | CreateOrUpdate k ns n \<Rightarrow> k = KStatefulSet \<longrightarrow> storage_known cluster pre
      | _ \<Rightarrow> True)"

fun calm :: "event \<Rightarrow> bool" where
  "calm (Patch ns n s) = False"
| "calm (ClusterStatus c) = (clt_Phase (cl_Status c) \<noteq> PhaseReady)"
| "calm (CreateOrUpdate k ns n) = (k \<noteq> KStatefulSet)"
| "calm _ = True"

lemma calm_ok: "calm e \<Longrightarrow> cluster_ok cluster pre e"
  by (cases e) (auto simp: cluster_ok_def patch_ok_def)

lemma calm_read [simp]: "is_read e \<Longrightarrow> calm e" by (cases e) auto
lemma calm_exec [simp]: "is_exec e \<Longrightarrow> calm e" by (cases e) auto

text \<open>Evidence stays evidence when more has happened before it.\<close>

lemma patch_ok_more: "patch_ok cluster pre e \<Longrightarrow> patch_ok cluster (a @ pre) e"
  unfolding patch_ok_def settled_evidence_def set_append by blast

lemma status_ok_more: "status_ok cluster pre e \<Longrightarrow> status_ok cluster (a @ pre) e"
  using formed_evidence_mono[of cluster _ pre a "[]"] unfolding status_ok_def set_append append_Nil2 by blast

lemma cluster_ok_more: "cluster_ok cluster pre e \<Longrightarrow> cluster_ok cluster (a @ pre) e"
  by (cases e) (auto simp: cluster_ok_def patch_ok_more status_ok_more storage_known_def)

text \<open>Only the identity and the specification of the cluster matter.\<close>

definition same_cluster :: "RiakCluster \<Rightarrow> RiakCluster \<Rightarrow> bool" where
  "same_cluster c c' \<longleftrightarrow> cl_Spec c' = cl_Spec c \<and> cl_Namespace c' = cl_Namespace c \<and> cl_Name c' = cl_Name c"

lemma same_cluster_refl [simp]: "same_cluster c c" by (simp add: same_cluster_def)

lemma same_cluster_trans: "same_cluster a b \<Longrightarrow> same_cluster b c \<Longrightarrow> same_cluster a c" by (simp add: same_cluster_def)

lemma same_cluster_ok:
  assumes "same_cluster c c'" shows "cluster_ok c' = cluster_ok c"
proof -
  have same: "cl_Spec c' = cl_Spec c" "cl_Namespace c' = cl_Namespace c" "cl_Name c' = cl_Name c"
    using assms by (simp_all add: same_cluster_def)
  have "rolloutPaused c' = rolloutPaused c" "waitsForTransfers c' = waitsForTransfers c"
    by (simp_all add: rolloutPaused_def waitsForTransfers_def same)
  then have "patch_ok c' = patch_ok c"
    by (intro ext) (simp add: patch_ok_def settled_evidence_def same)
  moreover have "status_ok c' = status_ok c"
    by (intro ext) (simp add: status_ok_def status_reflects_def formed_evidence_def same)
  moreover have "storage_known c' = storage_known c"
    unfolding storage_known_def same by (rule refl)
  ultimately show ?thesis by (intro ext) (simp only: cluster_ok_def)
qed

lemma emits_reconcileTLSCertificate: "emits calm (reconcileTLSCertificate env cluster)"
  unfolding reconcileTLSCertificate_def Let_def by (intro emits_rules) simp_all

lemma emits_reconcileTrustBundle: "emits calm (reconcileTrustBundle env cluster)"
  unfolding reconcileTrustBundle_def Let_def
  by (intro emits_rules emits_mono[OF emits_buildTrustBundle]) simp_all

lemma emits_reconcileMonitoringConfigMap: "emits calm (reconcileMonitoringConfigMap env cluster)"
  unfolding reconcileMonitoringConfigMap_def Let_def by (intro emits_rules) simp_all

lemma emits_reconcileService: "emits calm (reconcileService env cluster)"
  unfolding reconcileService_def Let_def by (intro emits_rules) simp_all

lemma emits_reconcilePodDisruptionBudget: "emits calm (reconcilePodDisruptionBudget env cluster)"
  unfolding reconcilePodDisruptionBudget_def Let_def by (intro emits_rules) simp_all

lemma emits_reconcileScrapeObject: "emits calm (reconcileScrapeObject env cluster)"
  unfolding reconcileScrapeObject_def reconcileServiceMonitor_def reconcilePodMonitor_def reconcileMonitor_def
    deleteMonitor_def Let_def
  by (intro emits_rules) simp_all

lemma emits_failCluster: "emits calm (failCluster env cluster e)"
  unfolding failCluster_def Let_def by (intro emits_rules) (simp add: cl_set_phase_def)

lemma emits_handleDeletion: "emits calm (Cluster_handleDeletion env cluster)"
  unfolding Cluster_handleDeletion_def by (intro emits_rules) simp_all

subsection \<open>Putting the parts together\<close>

abbreviation ok_run :: "RiakCluster \<Rightarrow> 'w world \<Rightarrow> 'w world \<Rightarrow> bool" where
  "ok_run cluster w0 \<equiv> reached w0 (justified (cluster_ok cluster))"

interpretation cluster: composable "cluster_ok c" calm for c
  by unfold_locales (rule calm_ok, assumption, rule cluster_ok_more)

lemmas ok_calm = cluster.calm_run and ok_calm_then = cluster.calm_then and ok_append = cluster.reached_append

lemma justified_patches:
  "justified (patch_ok c) es \<Longrightarrow> list_all (\<lambda>e. is_patch e \<or> calm e) es \<Longrightarrow> justified (cluster_ok c) es"
proof (induction es rule: rev_induct)
  case (snoc e es)
  then show ?case by (cases e) (auto simp: cluster_ok_def)
qed simp

lemma justified_status:
  "justified (status_ok c) es \<Longrightarrow> list_all (\<lambda>e. is_status e \<or> calm e) es \<Longrightarrow> justified (cluster_ok c) es"
proof (induction es rule: rev_induct)
  case (snoc e es)
  then show ?case by (cases e) (auto simp: cluster_ok_def patch_ok_def)
qed simp

lemma emits_clusterSettled: "emits is_exec (clusterSettled env cluster pods)"
  unfolding clusterSettled_def Let_def by (intro emits_rules) simp_all

lemma emits_patchPartition: "emits is_patch (patchPartition env cluster sts nxt)"
  unfolding patchPartition_def Let_def by (intro emits_rules emits_setClusterCondition) simp_all

lemma emits_reconcileRollout: "emits (\<lambda>e. is_patch e \<or> calm e) (reconcileRollout env cluster)"
  unfolding reconcileRollout_def rolloutPods_def Let_def
  by (intro emits_rules emits_setClusterCondition emits_markBlocked emits_mono[OF emits_clusterSettled]
      emits_mono[OF emits_patchPartition]) simp_all

lemma reconditioned_cluster: "reconditioned c c' \<Longrightarrow> same_cluster c c'"
  by (auto simp: same_cluster_def dest: reconditioned_same)

lemma wp_rollout:
  assumes "ok_run c w0 w" and "same_cluster c c1"
    and Q: "\<And>c' e w'. ok_run c w0 w' \<Longrightarrow> same_cluster c c' \<Longrightarrow> Q (c', e) w'"
  shows "wp (reconcileRollout env c1) Q w"
proof (rule wpI)
  fix r w' assume run: "run_state (reconcileRollout env c1) w = (r, w')"
  obtain c' e where r: "r = (c', e)" by fastforce
  from emits_reconcileRollout run obtain es where es: "trace w' = trace w @ es" "list_all (\<lambda>e. is_patch e \<or> calm e) es"
    by (rule emitsD)
  have "justified (patch_ok c1) es"
    using wp_run[OF run wp_reconcileRollout[of env c1 w]] es(1) by (auto simp: reached_def)
  then have "justified (cluster_ok c1) es" by (rule justified_patches[OF _ es(2)])
  then have "ok_run c w w'" using es(1) by (auto simp: reached_def same_cluster_ok[OF assms(2)])
  then have "ok_run c w0 w'" by (rule ok_append[OF assms(1)])
  moreover have "same_cluster c1 c'"
    using wp_run[OF run yields_wp[OF yields_reconcileRollout]] by (simp add: r reconditioned_cluster)
  ultimately show "Q r w'" unfolding r by (intro Q same_cluster_trans[OF assms(2)])
qed

lemma wp_status:
  assumes "ok_run c w0 w" and "same_cluster c c1"
  shows "wp (updateClusterStatus env c1) (\<lambda>_. ok_run c w0) w"
proof (rule wpI)
  fix r w' assume run: "run_state (updateClusterStatus env c1) w = (r, w')"
  obtain es where es: "trace w' = trace w @ es" "status_run c1 es"
    using wp_run[OF run wp_updateClusterStatus[of env c1 w]] by (auto simp: reached_def)
  then have "list_all (\<lambda>e. is_status e \<or> calm e) es" and "justified (status_ok c1) es"
    by (auto simp: status_run_def list_all_iff dest!: bspec dest: calm_read calm_exec)
  then have "ok_run c w w'"
    using es(1) justified_status by (auto simp: reached_def same_cluster_ok[OF assms(2), symmetric])
  then show "ok_run c w0 w'" by (rule ok_append[OF assms(1)])
qed

text \<open>The StatefulSet is written only when it is new or its storage mode agrees.\<close>

lemma wp_statefulSet:
  assumes w: "ok_run c w0 w" and same: "same_cluster c c1"
  shows "wp (reconcileStatefulSet env img c1) (\<lambda>_. ok_run c w0) w"
proof -
  have names: "cl_Namespace c1 = cl_Namespace c" "cl_Name c1 = cl_Name c" "cl_Spec c1 = cl_Spec c"
    using same by (simp_all add: same_cluster_def)
  show ?thesis
    unfolding reconcileStatefulSet_def Let_def wp_bind
  proof (rule wp_effect_any, goal_cases)
    case (1 g w1)
    have w1: "ok_run c w0 w1" by (rule cluster.calm_more[OF w 1]) simp
    from w 1 obtain es where es: "trace w1 = trace w0 @ es @ [GetSts (cl_Namespace c) (cl_Name c) g]"
        "justified (cluster_ok c) (es @ [GetSts (cl_Namespace c) (cl_Name c) g])"
      by (auto simp: reached_def calm_ok names)
    have "wp (effect (\<lambda>_. CreateOrUpdate KStatefulSet (cl_Namespace c1) (cl_Name c1)) f)
        (\<lambda>a. wp (return (map_option api_msg a)) (\<lambda>_. ok_run c w0)) w1"
      if "case g of Inl err \<Rightarrow> IsNotFound err
         | Inr sts \<Rightarrow> hasDataVolumeClaim (ss_VolumeClaimTemplates (s_Spec sts)) = (\<not> cls_EphemeralStorage (cl_Spec c))" for f
    proof (rule wp_effect_any, goal_cases)
      case (1 r w2)
      have "cluster_ok c (es @ [GetSts (cl_Namespace c) (cl_Name c) g]) (CreateOrUpdate KStatefulSet (cl_Namespace c1) (cl_Name c1))"
        using that by (auto simp: cluster_ok_def patch_ok_def storage_known_def)
      then have "justified (cluster_ok c) ((es @ [GetSts (cl_Namespace c) (cl_Name c) g]) @
          [CreateOrUpdate KStatefulSet (cl_Namespace c1) (cl_Name c1)])" using es(2) by (simp only: justified_snoc)
      then show ?case using 1 es(1) by (auto simp: reached_def)
    qed
    then show ?case using w1 by (auto simp: names wp_simps split: sum.split)
  qed
qed

text \<open>Writes of a cluster or its status return what was written, but for metadata.\<close>

definition cluster_writes :: "'w env \<Rightarrow> bool" where
  "cluster_writes env \<longleftrightarrow>
     (\<forall>c o1 c' o2. update_cluster env c o1 = (Inr c', o2) \<or> status_cluster env c o1 = (Inr c', o2) \<longrightarrow> same_cluster c c')"

lemma wp_finishReconcile:
  assumes w: "ok_run c w0 w" and same: "same_cluster c c1"
  shows "wp (finishReconcile env c1) (\<lambda>_. ok_run c w0) w"
proof -
  have scrape: "wp (if monitoringEnabled c' then reconcileScrapeObject env c' else return None)
      (\<lambda>e3. wp (case e3 of
         Some e \<Rightarrow> return (no_requeue, Some e)
       | None \<Rightarrow> do {
           _ \<leftarrow> updateClusterStatus env c';
           return (requeue (10 * Second), None)
         }) (\<lambda>_. ok_run c w0)) w3"
    if w3: "ok_run c w0 w3" and same: "same_cluster c c'" for c' w3
  proof (rule ok_calm_then[OF _ w3], goal_cases)
    case 1
    show ?case by (intro emits_rules emits_reconcileScrapeObject)
  next
    case (2 e3 w4)
    have "wp (updateClusterStatus env c') (\<lambda>_. ok_run c w0) w4" by (rule wp_status[OF 2 same])
    then show ?case using 2 by (auto simp: wp_simps split: option.split)
  qed
  show ?thesis
    unfolding finishReconcile_def wp_bind
  proof (rule ok_calm_then[OF emits_reconcileService w], goal_cases)
    case (1 e1 w1)
    show ?case
    proof (cases e1)
      case None
      show ?thesis
        unfolding None option.case wp_bind
      proof (rule ok_calm_then[OF emits_reconcilePodDisruptionBudget 1], goal_cases)
        case (1 e2 w2)
        show ?case
        proof (cases e2)
          case None
          show ?thesis
            unfolding None option.case wp_bind
            by (rule wp_rollout[OF 1 same], unfold prod.case wp_bind, rule scrape)
        qed (use 1 in simp)
      qed
    qed (use 1 in simp)
  qed
qed

lemma wp_reconcileCluster:
  assumes w: "ok_run c w0 w" and same: "same_cluster c c1"
  shows "wp (reconcileCluster env img c1) (\<lambda>_. ok_run c w0) w"
  unfolding reconcileCluster_def wp_bind
proof (rule ok_calm_then[OF emits_reconcileTLSCertificate w], goal_cases)
  case (1 e1 w1)
  show ?case
  proof (cases e1)
    case (Some e)
    show ?thesis unfolding Some option.case by (rule ok_calm[OF emits_failCluster 1])
  next
    case None
    have config: "emits calm (if monitoringEnabled c1 then reconcileMonitoringConfigMap env c1 else return None)"
      by (intro emits_rules emits_reconcileMonitoringConfigMap)
    show ?thesis
      unfolding None option.case wp_bind
    proof (rule ok_calm_then[OF emits_reconcileTrustBundle 1], rule ok_calm_then[OF config], assumption, goal_cases)
      case (1 t w2 e2 w3)
      show ?case
      proof (cases e2)
        case None
        show ?thesis
          unfolding None option.case wp_bind
        proof (rule wp_mono[OF wp_statefulSet[OF 1(2) same]], goal_cases)
          case (1 e3 w4)
          then show ?case
            by (cases e3) (simp_all add: ok_calm[OF emits_failCluster] wp_finishReconcile[OF _ same])
        qed
      qed (use 1 in simp)
    qed
  qed
qed

text \<open>From the status initialisation on, then from the finalizer on.\<close>

lemma wp_initialised_cluster:
  assumes laws: "cluster_writes env" and w2: "ok_run c w w2" and same: "same_cluster c c1"
  shows "wp (initClusterStatus env c1) (\<lambda>s. wp (case s of
      Inl err \<Rightarrow> return (no_requeue, Some (api_msg err))
    | Inr cluster2 \<Rightarrow> reconcileCluster env img cluster2) (\<lambda>_. ok_run c w)) w2"
proof (cases "clt_Phase (cl_Status c1) = []")
  case False
  then show ?thesis by (simp add: initClusterStatus_def wp_reconcileCluster[OF w2 same])
next
  case True
  let ?c = "cl_set_phase PhaseCreating c1"
  obtain r o2 where u: "status_cluster env ?c (outside w2) = (r, o2)" by fastforce
  have w3: "ok_run c w (w2\<lparr>outside := o2, trace := trace w2 @ [ClusterStatus ?c]\<rparr>)"
    by (rule cluster.calm_more[OF w2, where es = "[ClusterStatus ?c]"]) (auto simp: cl_set_phase_def)
  have "same_cluster c c2" if "r = Inr c2" for c2
  proof -
    have "same_cluster ?c c2" using laws u that unfolding cluster_writes_def by blast
    with same show ?thesis by (simp add: same_cluster_def cl_set_phase_def)
  qed
  with True u w3 wp_reconcileCluster[OF w3] show ?thesis
    by (auto simp: initClusterStatus_def Let_def wp_simps split: sum.split)
qed

lemma wp_finalised_cluster:
  assumes laws: "cluster_writes env" "finalizer_laws env" and w1: "ok_run c w w1"
  shows "wp (ensureClusterFinalizer env c) (\<lambda>f. wp (case f of
      Inl err \<Rightarrow> return (no_requeue, Some (api_msg err))
    | Inr cluster1 \<Rightarrow> do {
        s \<leftarrow> initClusterStatus env cluster1;
        (case s of
           Inl err \<Rightarrow> return (no_requeue, Some (api_msg err))
         | Inr cluster2 \<Rightarrow> reconcileCluster env img cluster2)
      }) (\<lambda>_. ok_run c w)) w1"
proof (cases "ContainsFinalizer env (cl_Meta c) riakClusterFinalizerName")
  case True
  then show ?thesis using wp_initialised_cluster[OF laws(1) w1] by (simp add: ensureClusterFinalizer_def)
next
  case False
  let ?c = "c\<lparr>cl_Meta := AddFinalizer env (cl_Meta c) riakClusterFinalizerName\<rparr>"
  let ?e = "Update KCluster (cl_Namespace c) (cl_Name c)"
  obtain r o2 where u: "update_cluster env ?c (outside w1) = (r, o2)" by fastforce
  obtain fs where fs: "AddFinalizer env (cl_Meta c) riakClusterFinalizerName = (cl_Meta c)\<lparr>m_Finalizers := fs\<rparr>"
    using laws(2) unfolding finalizer_laws_def by blast
  have w2: "ok_run c w (w1\<lparr>outside := o2, trace := trace w1 @ [?e]\<rparr>)"
    by (rule cluster.calm_more[OF w1, where es = "[?e]"]) simp_all
  have "same_cluster c c2" if "r = Inr c2" for c2
  proof -
    have "same_cluster ?c c2" using laws(1) u that unfolding cluster_writes_def by blast
    then show ?thesis by (simp add: same_cluster_def fs)
  qed
  with False u w2 wp_initialised_cluster[OF laws(1) w2] show ?thesis
    by (auto simp: ensureClusterFinalizer_def wp_effect split: sum.split)
qed

lemma wp_Cluster_Reconcile:
  assumes laws: "cluster_writes env" "finalizer_laws env"
    and got: "get_cluster env ns name (outside w) = (Inr c, o1)"
  shows "wp (Cluster_Reconcile env img ns name) (\<lambda>_. ok_run c w) w"
proof -
  have w1: "ok_run c w (w\<lparr>outside := o1, trace := trace w @ [GetCluster ns name (Inr c)]\<rparr>)"
    by (rule cluster.calm_more[where w = w and es = "[GetCluster ns name (Inr c)]"]) simp_all
  show ?thesis
    unfolding Cluster_Reconcile_def wp_bind
    using wp_finalised_cluster[OF laws w1] ok_calm[OF emits_handleDeletion w1] by (simp add: wp_effect got wp_if)
qed

text \<open>
  C1: what a whole reconcile of a cluster may do, whatever the API server and the nodes reply. It writes the StatefulSet only
  after reading it, and only if it does not exist yet or was made for the same storage mode; it lowers the
  partition, restarting a node, only by one and only on the evidence of a settled cluster (a rollout in progress and not paused,
  every pod ready and up to date above the partition, the expected ring with no transfers, all read in this reconcile); and it
  reports the phase \<^verbatim>\<open>Ready\<close> only for pods just listed, as many of them ready as the size asks for, in a ring just
  found formed.
\<close>

theorem Cluster_Reconcile_safe:
  assumes "cluster_writes env" and "finalizer_laws env" and "get_cluster env ns name (outside w) = (Inr cluster, o1)"
    and "emitted (Cluster_Reconcile env img ns name) w = pre @ e # post"
  shows "(\<forall>ns' n'. e = CreateOrUpdate KStatefulSet ns' n' \<longrightarrow> storage_known cluster pre) \<and>
    patch_ok cluster pre e \<and>
    (\<forall>c. e = ClusterStatus c \<and> clt_Phase (cl_Status c) = PhaseReady \<longrightarrow> status_ok cluster pre e)"
proof -
  have "justified (cluster_ok cluster) (emitted (Cluster_Reconcile env img ns name) w)"
    using wp_emitted(1)[OF wp_Cluster_Reconcile[OF assms(1-3)]] by (metis prod.collapse)
  from justifiedD[OF this[unfolded assms(4)]] show ?thesis by (auto simp: cluster_ok_def)
qed

text \<open>A new cluster, on an API server that refuses Services: the reconcile gets as far as the StatefulSet.\<close>

definition new_env :: "unit env" where
  "new_env = sample_env\<lparr>get_cluster := (\<lambda>ns n w. (Inr (sample_cluster 3), w)),
     cou_service := (\<lambda>s f w. (Some (OtherError ''quota''), w))\<rparr>"

lemma new_laws: "cluster_writes new_env" "finalizer_laws new_env"
  "get_cluster new_env ''ns'' ''c'' (outside (start ())) = (Inr (sample_cluster 3), ())"
  by (auto simp: cluster_writes_def finalizer_laws_def new_env_def sample_env_def)

lemma new_run:
  "let es = emitted (Cluster_Reconcile new_env [] ''ns'' ''c'') (start ())
   in length es = 6 \<and> es ! 4 = CreateOrUpdate KStatefulSet ''ns'' ''c''"
  by code_simp

theorem Cluster_Reconcile_safe_witness:
  "\<exists>pre post. emitted (Cluster_Reconcile new_env [] ''ns'' ''c'') (start ()) =
     pre @ CreateOrUpdate KStatefulSet ''ns'' ''c'' # post \<and> storage_known (sample_cluster 3) pre"
proof -
  let ?es = "emitted (Cluster_Reconcile new_env [] ''ns'' ''c'') (start ())"
  have n: "4 < length ?es" and e: "?es ! 4 = CreateOrUpdate KStatefulSet ''ns'' ''c''"
    using new_run by (simp_all add: Let_def)
  have split: "?es = take 4 ?es @ CreateOrUpdate KStatefulSet ''ns'' ''c'' # drop 5 ?es"
    using id_take_nth_drop[OF n] e by simp
  from split Cluster_Reconcile_safe[OF new_laws split] show ?thesis by blast
qed

end
